(* ===== verification/Puc_Prelude.thy ===== *)
theory Puc_Prelude
  imports Main "HOL-Library.State_Monad" "HOL-Library.AList"
begin

text \<open>
  Shared vocabulary of the development.

  \<^item> Go's numeric and time types: \<open>int32\<close> and \<open>int64\<close> are integers with the wrap-around written
    out (\<open>wrap32\<close>, \<open>wrap64\<close>), a \<open>time.Time\<close> is the number of nanoseconds since the Unix epoch, a \<open>time.Duration\<close> an
    \<open>int64\<close> number of nanoseconds; \<open>timeSub\<close> is \<open>Time.Sub\<close>, which saturates.
  \<^item> Effects: a handler is a computation of the state monad over a \<open>world\<close>, which holds the
    environment's state (the API server, the clock, the upstream) and the trace of everything
    the program did to it so far. The environment itself is a parameter of every handler, so a
    theorem about a handler holds for every behaviour of the environment.
  \<^item> A small program logic over traces: \<open>obeys m Q\<close> says that from every world \<open>m\<close> only appends
    to the trace, and that its result and the events it appended satisfy \<open>Q\<close>; \<open>emits P m\<close> says
    that every event it appends satisfies \<open>P\<close>. Their rules are collected in \<open>obeys_rules\<close> and
    \<open>emits_rules\<close>, one rule per construct of the monad and per client call.
\<close>

named_theorems obeys_rules "syntax-directed rules for obeys"
named_theorems emits_rules "syntax-directed rules for emits"
named_theorems puc_consts "definitions of the string constants of the API group"

section \<open>Go integers, times and durations\<close>

type_synonym gotime = int
type_synonym duration = int

definition wrap32 :: "int \<Rightarrow> int" where
  "wrap32 x = (x + 2 ^ 31) mod 2 ^ 32 - 2 ^ 31"

definition wrap64 :: "int \<Rightarrow> int" where
  "wrap64 x = (x + 2 ^ 63) mod 2 ^ 64 - 2 ^ 63"

definition in_int32 :: "int \<Rightarrow> bool" where
  "in_int32 x \<longleftrightarrow> - (2 ^ 31) \<le> x \<and> x < 2 ^ 31"

definition in_int64 :: "int \<Rightarrow> bool" where
  "in_int64 x \<longleftrightarrow> - (2 ^ 63) \<le> x \<and> x < 2 ^ 63"

lemma wrap32_id [simp]: "in_int32 x \<Longrightarrow> wrap32 x = x"
  by (simp add: wrap32_def in_int32_def)

lemma wrap64_id [simp]: "in_int64 x \<Longrightarrow> wrap64 x = x"
  by (simp add: wrap64_def in_int64_def)

lemma wrap32_range: "in_int32 (wrap32 x)"
  using pos_mod_bound [of "2 ^ 32 :: int" "x + 2 ^ 31"] pos_mod_sign [of "2 ^ 32 :: int" "x + 2 ^ 31"]
  by (simp add: wrap32_def in_int32_def)

lemma wrap64_range: "in_int64 (wrap64 x)"
  using pos_mod_bound [of "2 ^ 64 :: int" "x + 2 ^ 63"] pos_mod_sign [of "2 ^ 64 :: int" "x + 2 ^ 63"]
  by (simp add: wrap64_def in_int64_def)

definition timeSub :: "gotime \<Rightarrow> gotime \<Rightarrow> duration" where
  "timeSub t u = max (- (2 ^ 63)) (min (2 ^ 63 - 1) (t - u))"

lemma timeSub_in_int64: "in_int64 (timeSub t u)"
  by (auto simp: timeSub_def in_int64_def)

text \<open>A comparison of a saturated difference with a duration is the comparison of the real one.\<close>

lemma timeSub_less_iff: "in_int64 d \<Longrightarrow> d \<noteq> 2 ^ 63 - 1 \<Longrightarrow> d < timeSub t u \<longleftrightarrow> d < t - u"
  by (auto simp: timeSub_def in_int64_def)

lemma timeSub_le_imp: "in_int64 d \<Longrightarrow> t - u \<le> d \<Longrightarrow> timeSub t u \<le> d"
  by (auto simp: timeSub_def in_int64_def)

lemma timeSub_mono: "t \<le> t' \<Longrightarrow> timeSub t u \<le> timeSub t' u"
  by (auto simp: timeSub_def)

text \<open>Integer division truncates towards zero.\<close>

definition goDiv :: "int \<Rightarrow> int \<Rightarrow> int" where
  "goDiv a b = sgn a * sgn b * (\<bar>a\<bar> div \<bar>b\<bar>)"

lemma goDiv_nonneg: "0 \<le> a \<Longrightarrow> 0 < b \<Longrightarrow> goDiv a b = a div b"
  by (cases "a = 0") (auto simp: goDiv_def)

definition second :: duration where
  "second = 1000000000"

text \<open>The zero \<open>time.Time\<close>, 1 January of year 1, and \<open>Time.Unix\<close>.\<close>

definition zeroTime :: gotime where
  "zeroTime = - 62135596800 * second"

definition timeUnix :: "gotime \<Rightarrow> int" where
  "timeUnix t = t div second"

section \<open>Go maps as association lists, optional pointers\<close>

text \<open>
  A Go map that the code ranges over, or compares with the empty map, is an association list
  with at most one entry per key: \<open>map_of\<close> reads it, \<open>AList.update\<close> stores into it and
  \<open>AList.delete\<close> removes from it. An absent key of a map of strings reads as the empty string.
\<close>

type_synonym strmap = "(string \<times> string) list"

definition lookupStr :: "strmap \<Rightarrow> string \<Rightarrow> string" where
  "lookupStr m k = (case map_of m k of None \<Rightarrow> [] | Some v \<Rightarrow> v)"

definition strPtrVal :: "string option \<Rightarrow> string" where
  "strPtrVal p = (case p of None \<Rightarrow> [] | Some s \<Rightarrow> s)"

section \<open>Computations over a world with a trace\<close>

record ('s, 'e) world =
  cluster :: 's
  trace :: "'e list"

type_synonym ('s, 'e, 'a) prog = "(('s, 'e) world, 'a) state"

abbreviation ret :: "'a \<Rightarrow> ('s, 'e, 'a) prog" where
  "ret \<equiv> State_Monad.return"

definition emit :: "'e \<Rightarrow> ('s, 'e, unit) prog" where
  "emit e = State (\<lambda>w. ((), w\<lparr>trace := trace w @ [e]\<rparr>))"

text \<open>One interaction with the environment: \<open>f\<close> is the environment's behaviour, \<open>ev\<close> what is
  logged of the interaction, given the environment's answer.\<close>

definition ask :: "('s \<Rightarrow> 'a \<times> 's) \<Rightarrow> ('a \<Rightarrow> 'e list) \<Rightarrow> ('s, 'e, 'a) prog" where
  "ask f ev = State (\<lambda>w. let (r, c) = f (cluster w)
                          in (r, w\<lparr>cluster := c, trace := trace w @ ev r\<rparr>))"

lemma run_emit [simp]: "run_state (emit e) w = ((), w\<lparr>trace := trace w @ [e]\<rparr>)"
  by (simp add: emit_def)

lemma run_ask [simp]:
  "run_state (ask f ev) w =
     (fst (f (cluster w)), w\<lparr>cluster := snd (f (cluster w)), trace := trace w @ ev (fst (f (cluster w)))\<rparr>)"
  by (simp add: ask_def Let_def split: prod.split)

definition obeys :: "('s, 'e, 'a) prog \<Rightarrow> ('a \<Rightarrow> 'e list \<Rightarrow> bool) \<Rightarrow> bool" where
  "obeys m Q \<longleftrightarrow>
     (\<forall>w. \<exists>es. trace (snd (run_state m w)) = trace w @ es \<and> Q (fst (run_state m w)) es)"

definition emits :: "('e \<Rightarrow> bool) \<Rightarrow> ('s, 'e, 'a) prog \<Rightarrow> bool" where
  "emits P m \<longleftrightarrow> obeys m (\<lambda>_ es. list_all P es)"

lemma obeysI:
  assumes "\<And>w. \<exists>es. trace (snd (run_state m w)) = trace w @ es \<and> Q (fst (run_state m w)) es"
  shows "obeys m Q"
  using assms by (simp add: obeys_def)

lemma obeysD:
  assumes "obeys m Q" and "run_state m w = (r, w')"
  shows "\<exists>es. trace w' = trace w @ es \<and> Q r es"
  using assms unfolding obeys_def by (metis fst_conv snd_conv)

lemma obeys_answer: "obeys m (\<lambda>x _. R x) \<Longrightarrow> fst (run_state m w) = x \<Longrightarrow> R x"
  unfolding obeys_def by metis

lemma obeys_mono:
  assumes "obeys m Q" and "\<And>x es. Q x es \<Longrightarrow> R x es"
  shows "obeys m R"
  using assms unfolding obeys_def by blast

lemma obeys_conj:
  assumes "obeys m Q" and "obeys m R"
  shows "obeys m (\<lambda>x es. Q x es \<and> R x es)"
  unfolding obeys_def
proof
  fix w
  obtain es where es: "trace (snd (run_state m w)) = trace w @ es" "Q (fst (run_state m w)) es"
    using assms(1) unfolding obeys_def by blast
  obtain es' where es': "trace (snd (run_state m w)) = trace w @ es'" "R (fst (run_state m w)) es'"
    using assms(2) unfolding obeys_def by blast
  from es(1) es'(1) have "es = es'" by simp
  with es es' show "\<exists>es. trace (snd (run_state m w)) = trace w @ es \<and>
      Q (fst (run_state m w)) es \<and> R (fst (run_state m w)) es" by blast
qed

lemma obeys_trace: "obeys m Q \<Longrightarrow> obeys m (\<lambda>_ _. True)"
  by (erule obeys_mono) simp

lemma obeys_all:
  assumes "\<And>k. obeys m (\<lambda>x es. Q k x es)"
  shows "obeys m (\<lambda>x es. \<forall>k. Q k x es)"
  using assms unfolding obeys_def by (metis append_same_eq same_append_eq)

lemma obeys_imp:
  assumes "obeys m (\<lambda>_ _. True)" and "A \<Longrightarrow> obeys m Q"
  shows "obeys m (\<lambda>x es. A \<longrightarrow> Q x es)"
  using assms unfolding obeys_def by blast

lemma obeys_return [obeys_rules]: "Q x [] \<Longrightarrow> obeys (ret x) Q"
  by (simp add: obeys_def)

lemma obeys_emit [obeys_rules]: "Q () [e] \<Longrightarrow> obeys (emit e) Q"
  by (simp add: obeys_def)

text \<open>The answer is one the environment can give in some state.\<close>

lemma obeys_ask [obeys_rules]: "(\<And>r c. fst (f c) = r \<Longrightarrow> Q r (ev r)) \<Longrightarrow> obeys (ask f ev) Q"
  by (auto simp: obeys_def)

lemma obeys_bind [obeys_rules]:
  assumes "obeys m (\<lambda>x es. obeys (f x) (\<lambda>y es'. Q y (es @ es')))"
  shows "obeys (State_Monad.bind m f) Q"
proof (rule obeysI)
  fix w
  obtain x v where m: "run_state m w = (x, v)" by (cases "run_state m w")
  with obeysD [OF assms m] obtain es where es: "trace v = trace w @ es"
    and f: "obeys (f x) (\<lambda>y es'. Q y (es @ es'))" by blast
  obtain y u where n: "run_state (f x) v = (y, u)" by (cases "run_state (f x) v")
  from obeysD [OF f n] obtain es' where "trace u = trace v @ es'" "Q y (es @ es')" by blast
  with es m n show "\<exists>es. trace (snd (run_state (State_Monad.bind m f) w)) = trace w @ es \<and>
      Q (fst (run_state (State_Monad.bind m f) w)) es" by simp
qed

lemma emits_mono: "emits P m \<Longrightarrow> (\<And>e. P e \<Longrightarrow> P' e) \<Longrightarrow> emits P' m"
  unfolding emits_def by (erule obeys_mono) (auto simp: list_all_iff)

lemma emits_return [emits_rules]: "emits P (ret x)"
  by (simp add: emits_def obeys_return)

lemma emits_emit [emits_rules]: "P e \<Longrightarrow> emits P (emit e)"
  by (simp add: emits_def obeys_emit)

lemma emits_ask [emits_rules]: "(\<And>r. list_all P (ev r)) \<Longrightarrow> emits P (ask f ev)"
  by (simp add: emits_def obeys_ask)

lemma emits_bind [emits_rules]:
  assumes "emits P m" and "\<And>x. emits P (f x)"
  shows "emits P (State_Monad.bind m f)"
  unfolding emits_def
  by (rule obeys_bind, rule obeys_mono [OF assms(1) [unfolded emits_def]],
      rule obeys_mono [OF assms(2) [unfolded emits_def]]) simp

text \<open>The same with the answer of the first computation at hand.\<close>

lemma emits_bind_answer:
  assumes "emits P m" and "\<And>x w. fst (run_state m w) = x \<Longrightarrow> emits P (f x)"
  shows "emits P (State_Monad.bind m f)"
proof -
  have "obeys m (\<lambda>x es. list_all P es \<and> (\<exists>w. fst (run_state m w) = x))"
    using assms(1) unfolding emits_def obeys_def by blast
  then show ?thesis
    unfolding emits_def
    by (intro obeys_bind, rule obeys_mono) (auto intro!: obeys_mono [OF assms(2) [unfolded emits_def]])
qed

text \<open>From \<open>emits\<close> back to the trace of a concrete run.\<close>

lemma emitsD:
  assumes "emits P m" and "run_state m w = (r, w')"
  shows "\<exists>es. trace w' = trace w @ es \<and> list_all P es"
  using obeysD [OF assms(1) [unfolded emits_def] assms(2)] .

lemma emits_conj_obeys:
  "emits P m \<Longrightarrow> obeys m Q \<Longrightarrow> obeys m (\<lambda>x es. Q x es \<and> list_all P es)"
  unfolding emits_def by (rule obeys_mono [OF obeys_conj]) auto

text \<open>Branching constructs.\<close>

lemma emits_if [emits_rules]:
  "(b \<Longrightarrow> emits P m) \<Longrightarrow> (\<not> b \<Longrightarrow> emits P n) \<Longrightarrow> emits P (if b then m else n)"
  by simp

lemma emits_case_sum [emits_rules]:
  "(\<And>e. r = Inl e \<Longrightarrow> emits P (f e)) \<Longrightarrow> (\<And>x. r = Inr x \<Longrightarrow> emits P (g x)) \<Longrightarrow>
   emits P (case r of Inl e \<Rightarrow> f e | Inr x \<Rightarrow> g x)"
  by (cases r) auto

lemma emits_case_option [emits_rules]:
  "(r = None \<Longrightarrow> emits P f) \<Longrightarrow> (\<And>x. r = Some x \<Longrightarrow> emits P (g x)) \<Longrightarrow>
   emits P (case r of None \<Rightarrow> f | Some x \<Rightarrow> g x)"
  by (cases r) auto

lemma emits_case_prod [emits_rules]:
  "(\<And>x y. r = (x, y) \<Longrightarrow> emits P (f x y)) \<Longrightarrow> emits P (case r of (x, y) \<Rightarrow> f x y)"
  by (cases r) auto

lemma emits_let [emits_rules]: "(\<And>x. x = v \<Longrightarrow> emits P (f x)) \<Longrightarrow> emits P (let x = v in f x)"
  by simp

lemma obeys_if [obeys_rules]:
  "(b \<Longrightarrow> obeys m Q) \<Longrightarrow> (\<not> b \<Longrightarrow> obeys n Q) \<Longrightarrow> obeys (if b then m else n) Q"
  by simp

lemma obeys_case_sum [obeys_rules]:
  "(\<And>e. r = Inl e \<Longrightarrow> obeys (f e) Q) \<Longrightarrow> (\<And>x. r = Inr x \<Longrightarrow> obeys (g x) Q) \<Longrightarrow>
   obeys (case r of Inl e \<Rightarrow> f e | Inr x \<Rightarrow> g x) Q"
  by (cases r) auto

lemma obeys_case_option [obeys_rules]:
  "(r = None \<Longrightarrow> obeys f Q) \<Longrightarrow> (\<And>x. r = Some x \<Longrightarrow> obeys (g x) Q) \<Longrightarrow>
   obeys (case r of None \<Rightarrow> f | Some x \<Rightarrow> g x) Q"
  by (cases r) auto

lemma obeys_case_prod [obeys_rules]:
  "(\<And>x y. r = (x, y) \<Longrightarrow> obeys (f x y) Q) \<Longrightarrow> obeys (case r of (x, y) \<Rightarrow> f x y) Q"
  by (cases r) auto

lemma obeys_let [obeys_rules]: "(\<And>x. x = v \<Longrightarrow> obeys (f x) Q) \<Longrightarrow> obeys (let x = v in f x) Q"
  by simp

section \<open>Stable sorting by a key\<close>

text \<open>\<open>sort.SliceStable\<close> with a comparison of keys is \<open>sort_key\<close>: the only stable rearrangement of
  the slice that is ascending in the key.\<close>

lemma take_sort_key_le:
  assumes "x \<in> set (take n (sort_key f xs))" and "y \<in> set (drop n (sort_key f xs))"
  shows "f x \<le> f y"
proof -
  let ?ys = "map f (sort_key f xs)"
  have "sorted ?ys" by simp
  then have "sorted (take n ?ys @ drop n ?ys)" by simp
  then have "\<forall>a\<in>set (take n ?ys). \<forall>b\<in>set (drop n ?ys). a \<le> b"
    unfolding sorted_append by blast
  with assms show ?thesis by (simp add: take_map drop_map)
qed

end
