(* ===== verification/Api_Types.thy ===== *)
theory Api_Types
  imports Puc_Prelude
begin

text \<open>
  The data the operator works on: the custom resources of \<open>api/v1alpha1\<close> (PerUserApp, Workspace)
  and the Kubernetes objects they embed or the operator reads and writes, restricted to the fields
  the operator's code names. A Go struct is a record, a pointer an \<open>option\<close>, a string type with a
  closed set of constants a datatype. A value the operator only copies from the custom resource
  into a rendered object (tolerations, resource requirements, security contexts) is a \<open>raw\<close>, the
  text of the value. A \<open>resource.Quantity\<close> is the number it stands for.
\<close>

section \<open>Constants of the API group\<close>

definition LabelApp :: string where [puc_consts]:
  "LabelApp = ''puc.kettleofketchup/app''"
definition LabelUserKey :: string where [puc_consts]:
  "LabelUserKey = ''puc.kettleofketchup/user-key''"
definition LabelComponent :: string where [puc_consts]:
  "LabelComponent = ''puc.kettleofketchup/component''"
definition AnnUserDisplay :: string where [puc_consts]:
  "AnnUserDisplay = ''puc.kettleofketchup/user-display''"
definition AnnReclaiming :: string where [puc_consts]:
  "AnnReclaiming = ''puc.kettleofketchup/reclaiming''"
definition AnnSpecHash :: string where [puc_consts]:
  "AnnSpecHash = ''puc.kettleofketchup/spec-hash''"
definition ComponentRouter :: string where [puc_consts]:
  "ComponentRouter = ''router''"
definition ComponentWorkspace :: string where [puc_consts]:
  "ComponentWorkspace = ''workspace''"
definition LabelPartOf :: string where [puc_consts]:
  "LabelPartOf = ''app.kubernetes.io/part-of''"
definition PartOfValue :: string where [puc_consts]:
  "PartOfValue = ''per-user-container-operator''"
definition OperatorServiceAccountName :: string where [puc_consts]:
  "OperatorServiceAccountName = ''per-user-container-operator''"
definition PVCVolumeName :: string where [puc_consts]:
  "PVCVolumeName = ''puc-workspace''"
definition RouterRoleName :: string where [puc_consts]:
  "RouterRoleName = ''per-user-container-operator-router''"
definition RouterPort :: int where [puc_consts]:
  "RouterPort = 8080"
definition MetricsPort :: int where [puc_consts]:
  "MetricsPort = 9090"
definition CondConfigValid :: string where [puc_consts]:
  "CondConfigValid = ''ConfigValid''"
definition CondWorkspaceLimitReached :: string where [puc_consts]:
  "CondWorkspaceLimitReached = ''WorkspaceLimitReached''"
definition CondMigrationComplete :: string where [puc_consts]:
  "CondMigrationComplete = ''MigrationComplete''"
definition CondStorageSpecDrift :: string where [puc_consts]:
  "CondStorageSpecDrift = ''StorageSpecDrift''"
definition CondStorageShrinkRejected :: string where [puc_consts]:
  "CondStorageShrinkRejected = ''StorageShrinkRejected''"
definition CondAmbiguousVolume :: string where [puc_consts]:
  "CondAmbiguousVolume = ''AmbiguousVolume''"
definition ReasonConfigInvalid :: string where [puc_consts]:
  "ReasonConfigInvalid = ''ConfigInvalid''"
definition StartFailureOrphaned :: string where [puc_consts]:
  "StartFailureOrphaned = ''start_orphaned''"
definition StartFailureTimeout :: string where [puc_consts]:
  "StartFailureTimeout = ''startup_timeout''"
definition StartFailureCrash :: string where [puc_consts]:
  "StartFailureCrash = ''crashloop''"
definition ReapReasonIdle :: string where [puc_consts]:
  "ReapReasonIdle = ''idle''"
definition ReapReasonLRU :: string where [puc_consts]:
  "ReapReasonLRU = ''lru''"
definition RejectHoldExpired :: string where [puc_consts]:
  "RejectHoldExpired = ''hold_expired''"
definition RejectBackoff :: string where [puc_consts]:
  "RejectBackoff = ''backoff''"
definition RejectRWOPConflict :: string where [puc_consts]:
  "RejectRWOPConflict = ''rwop_conflict''"
definition RejectWorkspaceLimit :: string where [puc_consts]:
  "RejectWorkspaceLimit = ''workspace_limit''"
definition RejectTerminating :: string where [puc_consts]:
  "RejectTerminating = ''terminating''"
definition WaitingRWOPConflict :: string where [puc_consts]:
  "WaitingRWOPConflict = ''RWOPConflict''"

datatype Phase = PhaseNone | PhasePending | PhaseStarting | PhaseReady | PhaseIdle | PhaseFailed
  | PhaseOther string

fun phaseString :: "Phase \<Rightarrow> string" where
  "phaseString PhaseNone = []"
| "phaseString PhasePending = ''Pending''"
| "phaseString PhaseStarting = ''Starting''"
| "phaseString PhaseReady = ''Ready''"
| "phaseString PhaseIdle = ''Idle''"
| "phaseString PhaseFailed = ''Failed''"
| "phaseString (PhaseOther s) = s"

section \<open>Object metadata and conditions\<close>

type_synonym raw = string
type_synonym quantity = int

record ownerReference =
  orAPIVersion :: string
  orKind :: string
  orName :: string
  orUID :: string
  orController :: bool

record objectMeta =
  Name :: string
  Namespace :: string
  UID :: string
  Generation :: int
  ResourceVersion :: string
  CreationTimestamp :: gotime
  DeletionTimestamp :: "gotime option"
  Finalizers :: "string list"
  Labels :: strmap
  Annotations :: strmap
  OwnerReferences :: "ownerReference list"

text \<open>The zero value of the Go struct; a literal sets fields on top of it.\<close>

definition zeroMeta :: objectMeta where
  "zeroMeta = \<lparr>Name = [], Namespace = [], UID = [], Generation = 0, ResourceVersion = [],
     CreationTimestamp = zeroTime, DeletionTimestamp = None, Finalizers = [], Labels = [],
     Annotations = [], OwnerReferences = []\<rparr>"

datatype conditionStatus = ConditionTrue | ConditionFalse | ConditionUnknown

record condition =
  cdType :: string
  cdStatus :: conditionStatus
  cdReason :: string
  cdMessage :: string
  cdObservedGeneration :: int
  cdLastTransitionTime :: gotime

section \<open>Workspace\<close>

record workspaceSpec =
  wsAppRef :: string
  wsUserKey :: string

record connectionEntry =
  ceCount :: int
  ceHeartbeatAt :: gotime

record workspaceStatus =
  ObservedGeneration :: int
  wsPhase :: Phase
  ScaledDown :: bool
  LastActivity :: "gotime option"
  Connections :: "(string \<times> connectionEntry) list"
  WakeRequestedAt :: "gotime option"
  EnqueuedAt :: "gotime option"
  ConsecutiveFailures :: int
  BackoffUntil :: "gotime option"
  StartDeadline :: "gotime option"
  WaitingReason :: string
  LargestObservedSize :: "quantity option"
  Conditions :: "condition list"
  PodRef :: string
  ServiceRef :: string
  PVCRef :: string

record workspace =
  wsMeta :: objectMeta
  wsSpec :: workspaceSpec
  wsStatus :: workspaceStatus

definition zeroStatus :: workspaceStatus where
  "zeroStatus = \<lparr>ObservedGeneration = 0, wsPhase = PhaseNone, ScaledDown = False,
     LastActivity = None, Connections = [], WakeRequestedAt = None, EnqueuedAt = None,
     ConsecutiveFailures = 0, BackoffUntil = None, StartDeadline = None, WaitingReason = [],
     LargestObservedSize = None, Conditions = [], PodRef = [], ServiceRef = [], PVCRef = []\<rparr>"

text \<open>Assignment to a status field of a Workspace, \<open>ws.Status.F = v\<close>.\<close>

definition setStatus :: "(workspaceStatus \<Rightarrow> workspaceStatus) \<Rightarrow> workspace \<Rightarrow> workspace" where
  "setStatus f ws = ws\<lparr>wsStatus := f (wsStatus ws)\<rparr>"

lemma setStatus_simps [simp]:
  "wsMeta (setStatus f ws) = wsMeta ws"
  "wsSpec (setStatus f ws) = wsSpec ws"
  "wsStatus (setStatus f ws) = f (wsStatus ws)"
  "setStatus f (setStatus g ws) = setStatus (\<lambda>s. f (g s)) ws"
  by (simp_all add: setStatus_def)

abbreviation phase :: "workspace \<Rightarrow> Phase" where
  "phase ws \<equiv> wsPhase (wsStatus ws)"

definition wsKey :: "workspace \<Rightarrow> string \<times> string" where
  "wsKey w = (Namespace (wsMeta w), Name (wsMeta w))"

lemma wsKey_setStatus [simp]: "wsKey (setStatus f ws) = wsKey ws"
  by (simp add: wsKey_def)

section \<open>Pod templates\<close>

datatype intOrString = IntVal int | StrVal string

record envVar =
  evName :: string
  evValue :: string
  evFieldPath :: "string option"

record volumeMount =
  vmName :: string
  vmMountPath :: string
  vmReadOnly :: bool

record probe =
  prHTTPGetPort :: "intOrString option"
  prRest :: raw

record emptyDirSource =
  edMedium :: string
  edSizeLimit :: "quantity option"

record secretSource =
  ssSecretName :: string
  ssItems :: "(string \<times> string) list"

record projection =
  pjServiceAccountToken :: "raw option"
  pjRest :: raw

text \<open>A \<open>VolumeSource\<close> is a struct of pointers; \<open>vsOther\<close> lists the non-nil pointer fields other
  than the ones the code reads, by field name.\<close>

record volumeSource =
  vsConfigMap :: "raw option"
  vsSecret :: "secretSource option"
  vsEmptyDir :: "emptyDirSource option"
  vsProjected :: "projection list option"
  vsPersistentVolumeClaim :: "string option"
  vsOther :: "(string \<times> raw) list"

definition zeroVolumeSource :: volumeSource where
  "zeroVolumeSource = \<lparr>vsConfigMap = None, vsSecret = None, vsEmptyDir = None, vsProjected = None,
     vsPersistentVolumeClaim = None, vsOther = []\<rparr>"

record volume =
  volName :: string
  volSource :: volumeSource

record container =
  ctName :: string
  ctImage :: string
  ctImagePullPolicy :: string
  ctPorts :: "(string \<times> int) list"
  ctEnv :: "envVar list"
  ctEnvFrom :: raw
  ctResources :: raw
  ctSecurityContext :: "raw option"
  ctCommand :: "string list"
  ctArgs :: "string list"
  ctReadinessProbe :: "probe option"
  ctLivenessProbe :: "probe option"
  ctVolumeMounts :: "volumeMount list"

definition zeroContainer :: container where
  "zeroContainer = \<lparr>ctName = [], ctImage = [], ctImagePullPolicy = [], ctPorts = [], ctEnv = [],
     ctEnvFrom = [], ctResources = [], ctSecurityContext = None, ctCommand = [], ctArgs = [],
     ctReadinessProbe = None, ctLivenessProbe = None, ctVolumeMounts = []\<rparr>"

record podSecurityContext =
  FSGroup :: "int option"
  RunAsNonRoot :: "bool option"
  RunAsUser :: "int option"
  pscRest :: raw

record podSpec =
  psServiceAccountName :: string
  psAutomountServiceAccountToken :: "bool option"
  psSecurityContext :: "podSecurityContext option"
  psInitContainers :: "container list"
  psContainers :: "container list"
  psVolumes :: "volume list"
  psNodeSelector :: raw
  psTolerations :: raw
  psTerminationGracePeriodSeconds :: "int option"

section \<open>PerUserApp\<close>

record secretHeaderRef =
  shSecretName :: string
  shSecretKey :: string
  shHeader :: string
  shScheme :: string

record identitySpec =
  idHeader :: string
  idMaxLength :: int

record workspaceTemplateSpec =
  wtImage :: string
  wtImagePullPolicy :: string
  wtPort :: int
  wtEnv :: "envVar list"
  wtEnvFrom :: raw
  wtResources :: raw
  wtUpstreamAuth :: "secretHeaderRef option"
  wtPodSecurityContext :: podSecurityContext
  wtSecurityContext :: raw
  wtServiceAccountName :: string
  wtAutomountServiceAccountToken :: "bool option"
  wtVolumes :: "volume list"
  wtVolumeMounts :: "volumeMount list"
  wtInitContainers :: "container list"
  wtCommand :: "string list"
  wtArgs :: "string list"
  wtReadinessProbe :: "probe option"
  wtLivenessProbe :: "probe option"
  wtNodeSelector :: raw
  wtTolerations :: raw
  wtTerminationGracePeriodSeconds :: "int option"

record labelSelector =
  MatchLabels :: strmap
  MatchExpressions :: "raw list"

record networkPolicyPeer =
  IPBlock :: "(string \<times> string list) option"
  PodSelector :: "labelSelector option"
  NamespaceSelector :: "labelSelector option"

record networkPolicyPort =
  npProtocol :: "string option"
  npPort :: "intOrString option"

record egressRule =
  egTo :: "networkPolicyPeer list"
  egPorts :: "networkPolicyPort list"

record ingressRule =
  igFrom :: "networkPolicyPeer list"
  igPorts :: "networkPolicyPort list"

record routerIngressSpec =
  FromTraefik :: bool
  riFrom :: "networkPolicyPeer list"

record networkSpec =
  WorkspaceEgress :: "egressRule list"
  RouterIngress :: routerIngressSpec

record seedSpec =
  StagingMountPath :: string
  seedFrom :: string

record storageSpec =
  stSize :: quantity
  stStorageClassName :: string
  stMountPath :: string
  stSeed :: "seedSpec option"

record limitsSpec =
  MaxWorkspaces :: int
  MaxConcurrentStarts :: int

record lifecycleSpec =
  IdleTimeout :: duration
  StartupTimeout :: duration
  BackoffMax :: duration
  ReapInterval :: duration
  ConnectionHeartbeatInterval :: duration

record reclaimSpec =
  rcEnabled :: bool
  TargetWorkspaces :: int
  MinIdleAge :: duration
  rcInterval :: duration
  DeleteVolumeData :: bool

record routerSpec =
  rtReplicas :: int
  rtResources :: raw
  rtImage :: string
  ColdStartHoldSeconds :: int
  SharedPaths :: "string list"

record perUserAppSpec =
  spIdentity :: identitySpec
  spCallerAuth :: secretHeaderRef
  spWorkspace :: workspaceTemplateSpec
  spNetwork :: networkSpec
  spStorage :: storageSpec
  spLimits :: limitsSpec
  spLifecycle :: lifecycleSpec
  spRouter :: routerSpec
  spReclaim :: "reclaimSpec option"

record perUserAppStatus =
  apObservedGeneration :: int
  RouterReady :: bool
  apConditions :: "condition list"

record perUserApp =
  appMeta :: objectMeta
  appSpec :: perUserAppSpec
  appStatus :: perUserAppStatus

abbreviation appName :: "perUserApp \<Rightarrow> string" where
  "appName app \<equiv> Name (appMeta app)"

section \<open>Kubernetes objects the operator manages\<close>

record deploymentSpec =
  dsReplicas :: "int option"
  dsSelector :: strmap
  dsStrategy :: string
  dsTemplateLabels :: strmap
  dsPodSpec :: podSpec

record deployment =
  depMeta :: objectMeta
  depSpec :: deploymentSpec
  depReadyReplicas :: int

record servicePort =
  spName :: string
  spPort :: int
  spTargetPort :: intOrString

record service =
  svcMeta :: objectMeta
  svcType :: string
  svcSelector :: strmap
  svcPorts :: "servicePort list"
  svcClusterIP :: string

datatype policyType = PolicyTypeIngress | PolicyTypeEgress

record networkPolicy =
  npMeta :: objectMeta
  npPodSelector :: strmap
  npPolicyTypes :: "policyType list"
  npIngress :: "ingressRule list"
  npEgress :: "egressRule list"

record persistentVolumeClaim =
  pvcMeta :: objectMeta
  pvcAccessModes :: "string list"
  pvcStorageClassName :: "string option"
  pvcRequest :: "quantity option"
  pvcVolumeName :: string
  pvcPhase :: string
  pvcCapacity :: "quantity option"

definition zeroPVC :: persistentVolumeClaim where
  "zeroPVC = \<lparr>pvcMeta = zeroMeta, pvcAccessModes = [], pvcStorageClassName = None,
     pvcRequest = None, pvcVolumeName = [], pvcPhase = [], pvcCapacity = None\<rparr>"

record persistentVolume =
  pvMeta :: objectMeta
  pvReclaimPolicy :: string

text \<open>Of a pod: its phase, per container the \<open>state.waiting.reason\<close> if the container waits, and
  the status of each pod condition.\<close>

record pod =
  podMeta :: objectMeta
  podPhase :: string
  podContainerStatuses :: "string option list"
  podConditions :: "conditionStatus list"

record endpoint =
  epAddresses :: "string list"
  epReady :: "bool option"

record endpointSlice =
  esMeta :: objectMeta
  esEndpoints :: "endpoint list"

record storageClass =
  scMeta :: objectMeta
  scReclaimPolicy :: "string option"

record serviceAccount =
  saMeta :: objectMeta

record roleBinding =
  rbMeta :: objectMeta
  rbSubjects :: "(string \<times> string \<times> string) list"
  rbRoleRef :: "string \<times> string \<times> string"

end
