(* ===== verification/Cluster.thy ===== *)
theory Cluster
  imports Api_Types
begin

text \<open>
  The environment the operator runs in, as a parameter of the model, and the record of what the
  operator does to it.

  The API server, the controller-runtime client in front of it, the clock and the apimachinery
  helpers are code outside the repository. They are the fields of an \<open>env\<close>: functions on an
  abstract state \<open>'s\<close> of which nothing is assumed. Each wrapper below performs one client call
  and appends the call, with its outcome, to the trace; metric updates are events of the same
  trace. A theorem that quantifies over the environment therefore covers every answer the API
  server may give, errors and conflicts included.

  What some theorems do rely on of the helpers is stated as a locale at the end
  (\<open>status_conditions\<close>: what apimachinery documents of SetStatusCondition,
  RemoveStatusCondition and FindStatusCondition) and interpreted on a list implementation of it.
\<close>

section \<open>Errors\<close>

text \<open>The classes of API errors the code distinguishes; \<open>Wrapped\<close> is \<open>fmt.Errorf\<close> with \<open>%w\<close>,
  which the classification functions look through.\<close>

datatype error = NotFound | AlreadyExists | Conflict | OtherError string | Wrapped string error

fun IsNotFound :: "error \<Rightarrow> bool" where
  "IsNotFound NotFound = True"
| "IsNotFound (Wrapped _ e) = IsNotFound e"
| "IsNotFound _ = False"

fun IsAlreadyExists :: "error \<Rightarrow> bool" where
  "IsAlreadyExists AlreadyExists = True"
| "IsAlreadyExists (Wrapped _ e) = IsAlreadyExists e"
| "IsAlreadyExists _ = False"

fun IsConflict :: "error \<Rightarrow> bool" where
  "IsConflict Conflict = True"
| "IsConflict (Wrapped _ e) = IsConflict e"
| "IsConflict _ = False"

fun errOf :: "error + 'a \<Rightarrow> error option" where
  "errOf (Inl e) = Some e"
| "errOf (Inr _) = None"

section \<open>The environment\<close>

type_synonym key = "string \<times> string"

record ('s, 'o) resource =
  rGet :: "key \<Rightarrow> 's \<Rightarrow> (error + 'o) \<times> 's"
  rList :: "string \<Rightarrow> strmap \<Rightarrow> 's \<Rightarrow> (error + 'o list) \<times> 's"
  rCreate :: "'o \<Rightarrow> 's \<Rightarrow> (error + 'o) \<times> 's"
  rUpdate :: "'o \<Rightarrow> 's \<Rightarrow> (error + 'o) \<times> 's"
  rPatch :: "'o \<Rightarrow> 'o \<Rightarrow> 's \<Rightarrow> (error + 'o) \<times> 's"
  rStatusUpdate :: "'o \<Rightarrow> 's \<Rightarrow> (error + 'o) \<times> 's"
  rStatusPatch :: "'o \<Rightarrow> 'o \<Rightarrow> 's \<Rightarrow> (error + 'o) \<times> 's"
  rDelete :: "'o \<Rightarrow> 's \<Rightarrow> (error + unit) \<times> 's"
  rCreateOrUpdate :: "'o \<Rightarrow> ('o \<Rightarrow> 'o) \<Rightarrow> 's \<Rightarrow> (error + unit) \<times> 's"

record 's env =
  clock :: "'s \<Rightarrow> gotime \<times> 's"
  workspaces :: "('s, workspace) resource"
  perUserApps :: "('s, perUserApp) resource"
  deployments :: "('s, deployment) resource"
  services :: "('s, service) resource"
  networkPolicies :: "('s, networkPolicy) resource"
  claims :: "('s, persistentVolumeClaim) resource"
  volumes :: "('s, persistentVolume) resource"
  pods :: "('s, pod) resource"
  endpointSlices :: "('s, endpointSlice) resource"
  storageClasses :: "('s, storageClass) resource"
  serviceAccounts :: "('s, serviceAccount) resource"
  roleBindings :: "('s, roleBinding) resource"
  setStatusCondition :: "condition list \<Rightarrow> condition \<Rightarrow> 's \<Rightarrow> condition list \<times> 's"
  removeStatusCondition :: "condition list \<Rightarrow> string \<Rightarrow> condition list"
  findStatusCondition :: "condition list \<Rightarrow> string \<Rightarrow> condition option"
  containsFinalizer :: "string list \<Rightarrow> string \<Rightarrow> bool"
  addFinalizer :: "string list \<Rightarrow> string \<Rightarrow> string list"
  removeFinalizer :: "string list \<Rightarrow> string \<Rightarrow> string list"
  jsonMarshal :: "deploymentSpec \<Rightarrow> string"
  quantityString :: "quantity \<Rightarrow> string"

section \<open>Events\<close>

datatype kind = KWorkspace | KPerUserApp | KDeployment | KService | KNetworkPolicy | KPVC | KPV
  | KPod | KEndpointSlice | KStorageClass

datatype obj = WsObj workspace | AppObj perUserApp | DepObj deployment | SvcObj service
  | NpObj networkPolicy | PvcObj persistentVolumeClaim | PvObj persistentVolume
  | SaObj serviceAccount | RbObj roleBinding

datatype call = Get kind key | ListCall kind string strmap
  | Create obj | Update obj | Patch obj obj | StatusUpdate obj | StatusPatch obj obj
  | Delete obj | CreateOrUpdate obj

datatype metric =
    SetWorkspacesByPhase string string string int
  | SetWorkspacePVCsTotal string string int
  | SetWorkspaceUserInfo string string string string bool
  | DeleteWorkspaceUserInfo string string string string
  | RecordWorkspaceStart string string string
  | ObserveWorkspaceStartSeconds string string duration
  | RecordReconcileError string string string
  | RecordStartFailureMetric string string string
  | RecordWorkspaceReaped string string string
  | SetReaperLastCompletion string string int
  | RecordRouterRequest string string string
  | RecordIdentityRejection string string string
  | RecordRequestRejection string string string
  | SetOpenUpgradedConnections string string string int
  | SetWatchedNamespaceReady string bool
  | SetLeader string bool

text \<open>Besides API calls and metric updates: the router hands a request to the reverse proxy for
  an address, with the request's headers as the upstream sees them; the app reconciler records a
  Kubernetes Event.\<close>

datatype event = Api call "error option" | Metric metric
  | Forwarded string "(string \<times> string list) list"
  | Recorded string

fun is_read :: "call \<Rightarrow> bool" where
  "is_read (Get _ _) = True"
| "is_read (ListCall _ _ _) = True"
| "is_read _ = False"

text \<open>An event that leaves the cluster as it is.\<close>

fun read_only :: "event \<Rightarrow> bool" where
  "read_only (Api c _) = is_read c"
| "read_only (Metric _) = True"
| "read_only _ = False"

type_synonym ('s, 'a) m = "('s, event, 'a) prog"

section \<open>Client calls\<close>

definition now :: "('s, 'x) env_scheme \<Rightarrow> ('s, gotime) m" where
  "now env = ask (clock env) (\<lambda>_. [])"

definition doGet :: "('s, 'o) resource \<Rightarrow> kind \<Rightarrow> key \<Rightarrow> ('s, error + 'o) m" where
  "doGet res k key = ask (rGet res key) (\<lambda>r. [Api (Get k key) (errOf r)])"

definition doList :: "('s, 'o) resource \<Rightarrow> kind \<Rightarrow> string \<Rightarrow> strmap \<Rightarrow> ('s, error + 'o list) m" where
  "doList res k ns ls = ask (rList res ns ls) (\<lambda>r. [Api (ListCall k ns ls) (errOf r)])"

definition doCreate :: "('s, 'o) resource \<Rightarrow> ('o \<Rightarrow> obj) \<Rightarrow> 'o \<Rightarrow> ('s, error + 'o) m" where
  "doCreate res mk x = ask (rCreate res x) (\<lambda>r. [Api (Create (mk x)) (errOf r)])"

definition doUpdate :: "('s, 'o) resource \<Rightarrow> ('o \<Rightarrow> obj) \<Rightarrow> 'o \<Rightarrow> ('s, error + 'o) m" where
  "doUpdate res mk x = ask (rUpdate res x) (\<lambda>r. [Api (Update (mk x)) (errOf r)])"

text \<open>\<open>Patch\<close> with \<open>client.MergeFrom(base)\<close>: the request is the difference of \<open>base\<close> and \<open>x\<close>.\<close>

definition doPatch :: "('s, 'o) resource \<Rightarrow> ('o \<Rightarrow> obj) \<Rightarrow> 'o \<Rightarrow> 'o \<Rightarrow> ('s, error + 'o) m" where
  "doPatch res mk base x = ask (rPatch res base x) (\<lambda>r. [Api (Patch (mk base) (mk x)) (errOf r)])"

definition doStatusUpdate :: "('s, 'o) resource \<Rightarrow> ('o \<Rightarrow> obj) \<Rightarrow> 'o \<Rightarrow> ('s, error + 'o) m" where
  "doStatusUpdate res mk x = ask (rStatusUpdate res x) (\<lambda>r. [Api (StatusUpdate (mk x)) (errOf r)])"

definition doStatusPatch :: "('s, 'o) resource \<Rightarrow> ('o \<Rightarrow> obj) \<Rightarrow> 'o \<Rightarrow> 'o \<Rightarrow> ('s, error + 'o) m" where
  "doStatusPatch res mk base x =
     ask (rStatusPatch res base x) (\<lambda>r. [Api (StatusPatch (mk base) (mk x)) (errOf r)])"

definition doDelete :: "('s, 'o) resource \<Rightarrow> ('o \<Rightarrow> obj) \<Rightarrow> 'o \<Rightarrow> ('s, error + unit) m" where
  "doDelete res mk x = ask (rDelete res x) (\<lambda>r. [Api (Delete (mk x)) (errOf r)])"

text \<open>\<open>controllerutil.CreateOrUpdate\<close> on an object that carries only its name and namespace; the
  trace records that object after the mutation.\<close>

definition doCreateOrUpdate ::
    "('s, 'o) resource \<Rightarrow> ('o \<Rightarrow> obj) \<Rightarrow> 'o \<Rightarrow> ('o \<Rightarrow> 'o) \<Rightarrow> ('s, error + unit) m" where
  "doCreateOrUpdate res mk x f =
     ask (rCreateOrUpdate res x f) (\<lambda>r. [Api (CreateOrUpdate (mk (f x))) (errOf r)])"

definition record_metric :: "metric \<Rightarrow> ('s, unit) m" where
  "record_metric mt = emit (Metric mt)"

lemmas client_defs = now_def doGet_def doList_def doCreate_def doUpdate_def doPatch_def
  doStatusUpdate_def doStatusPatch_def doDelete_def doCreateOrUpdate_def record_metric_def

section \<open>Program-logic rules of the calls\<close>

lemma answer_now [simp]: "fst (run_state (now env) w) = fst (clock env (cluster w))"
  by (simp add: now_def)

lemma answer_doGet [simp]: "fst (run_state (doGet res k key) w) = fst (rGet res key (cluster w))"
  by (simp add: doGet_def)

lemma answer_doList [simp]: "fst (run_state (doList res k ns ls) w) = fst (rList res ns ls (cluster w))"
  by (simp add: doList_def)

lemma obeys_now [obeys_rules]: "(\<And>t c. fst (clock env c) = t \<Longrightarrow> Q t []) \<Longrightarrow> obeys (now env) Q"
  by (simp add: now_def obeys_ask)

lemma obeys_doGet [obeys_rules]:
  "(\<And>r c. fst (rGet res key c) = r \<Longrightarrow> Q r [Api (Get k key) (errOf r)]) \<Longrightarrow> obeys (doGet res k key) Q"
  by (simp add: doGet_def obeys_ask)

lemma obeys_doList [obeys_rules]:
  "(\<And>r c. fst (rList res ns ls c) = r \<Longrightarrow> Q r [Api (ListCall k ns ls) (errOf r)]) \<Longrightarrow> obeys (doList res k ns ls) Q"
  by (simp add: doList_def obeys_ask)

lemma obeys_doCreate [obeys_rules]:
  "(\<And>r c. fst (rCreate res x c) = r \<Longrightarrow> Q r [Api (Create (mk x)) (errOf r)]) \<Longrightarrow> obeys (doCreate res mk x) Q"
  by (simp add: doCreate_def obeys_ask)

lemma obeys_doUpdate [obeys_rules]:
  "(\<And>r c. fst (rUpdate res x c) = r \<Longrightarrow> Q r [Api (Update (mk x)) (errOf r)]) \<Longrightarrow> obeys (doUpdate res mk x) Q"
  by (simp add: doUpdate_def obeys_ask)

lemma obeys_doPatch [obeys_rules]:
  "(\<And>r c. fst (rPatch res b x c) = r \<Longrightarrow> Q r [Api (Patch (mk b) (mk x)) (errOf r)]) \<Longrightarrow> obeys (doPatch res mk b x) Q"
  by (simp add: doPatch_def obeys_ask)

lemma obeys_doStatusUpdate [obeys_rules]:
  "(\<And>r c. fst (rStatusUpdate res x c) = r \<Longrightarrow> Q r [Api (StatusUpdate (mk x)) (errOf r)]) \<Longrightarrow> obeys (doStatusUpdate res mk x) Q"
  by (simp add: doStatusUpdate_def obeys_ask)

lemma obeys_doStatusPatch [obeys_rules]:
  "(\<And>r c. fst (rStatusPatch res b x c) = r \<Longrightarrow> Q r [Api (StatusPatch (mk b) (mk x)) (errOf r)]) \<Longrightarrow> obeys (doStatusPatch res mk b x) Q"
  by (simp add: doStatusPatch_def obeys_ask)

lemma obeys_doDelete [obeys_rules]:
  "(\<And>r c. fst (rDelete res x c) = r \<Longrightarrow> Q r [Api (Delete (mk x)) (errOf r)]) \<Longrightarrow> obeys (doDelete res mk x) Q"
  by (simp add: doDelete_def obeys_ask)

lemma obeys_doCreateOrUpdate [obeys_rules]:
  "(\<And>r c. fst (rCreateOrUpdate res x f c) = r \<Longrightarrow> Q r [Api (CreateOrUpdate (mk (f x))) (errOf r)]) \<Longrightarrow> obeys (doCreateOrUpdate res mk x f) Q"
  by (simp add: doCreateOrUpdate_def obeys_ask)

lemma obeys_record_metric [obeys_rules]: "Q () [Metric mt] \<Longrightarrow> obeys (record_metric mt) Q"
  by (simp add: record_metric_def obeys_emit)

lemma emits_calls [emits_rules]:
  "emits P (now env)"
  "(\<And>er. P (Api (Get k key) er)) \<Longrightarrow> emits P (doGet res k key)"
  "(\<And>er. P (Api (ListCall k ns ls) er)) \<Longrightarrow> emits P (doList res k ns ls)"
  "(\<And>er. P (Api (Create (mk x)) er)) \<Longrightarrow> emits P (doCreate res mk x)"
  "(\<And>er. P (Api (Update (mk x)) er)) \<Longrightarrow> emits P (doUpdate res mk x)"
  "(\<And>er. P (Api (Patch (mk b) (mk x)) er)) \<Longrightarrow> emits P (doPatch res mk b x)"
  "(\<And>er. P (Api (StatusUpdate (mk x)) er)) \<Longrightarrow> emits P (doStatusUpdate res mk x)"
  "(\<And>er. P (Api (StatusPatch (mk b) (mk x)) er)) \<Longrightarrow> emits P (doStatusPatch res mk b x)"
  "(\<And>er. P (Api (Delete (mk x)) er)) \<Longrightarrow> emits P (doDelete res mk x)"
  "(\<And>er. P (Api (CreateOrUpdate (mk (f x))) er)) \<Longrightarrow> emits P (doCreateOrUpdate res mk x f)"
  "P (Metric mt) \<Longrightarrow> emits P (record_metric mt)"
  by (simp_all add: client_defs emits_ask emits_emit)

section \<open>Status conditions\<close>

text \<open>What apimachinery documents: SetStatusCondition sets the condition of the given type and
  leaves the other types alone, RemoveStatusCondition removes the condition of the given type and
  leaves the others alone, FindStatusCondition finds the condition of a type.\<close>

locale status_conditions =
  fixes setc :: "condition list \<Rightarrow> condition \<Rightarrow> 's \<Rightarrow> condition list \<times> 's"
    and removec :: "condition list \<Rightarrow> string \<Rightarrow> condition list"
    and findc :: "condition list \<Rightarrow> string \<Rightarrow> condition option"
  assumes find_set: "\<exists>c'. findc (fst (setc cs c s)) (cdType c) = Some c' \<and>
      cdStatus c' = cdStatus c \<and> cdReason c' = cdReason c \<and> cdMessage c' = cdMessage c"
    and find_set_other: "t \<noteq> cdType c \<Longrightarrow> findc (fst (setc cs c s)) t = findc cs t"
    and find_remove: "findc (removec cs t) t = None"
    and find_remove_other: "t' \<noteq> t \<Longrightarrow> findc (removec cs t) t' = findc cs t'"
begin

lemma find_after_remove: "findc (removec cs t) t' = (if t' = t then None else findc cs t')"
  by (simp add: find_remove find_remove_other)

lemma find_after_set:
  "findc (fst (setc cs c s)) t \<noteq> None \<longleftrightarrow> t = cdType c \<or> findc cs t \<noteq> None"
  using find_set [of cs c s] find_set_other [of t c cs s] by (cases "t = cdType c") auto

end

text \<open>The list implementation: the first condition of the type is updated in place, a new type is
  appended; the transition time moves only when the status changes.\<close>

fun listSetCondition :: "gotime \<Rightarrow> condition list \<Rightarrow> condition \<Rightarrow> condition list" where
  "listSetCondition t [] c = [c\<lparr>cdLastTransitionTime := t\<rparr>]"
| "listSetCondition t (d # ds) c =
     (if cdType d = cdType c
      then c\<lparr>cdLastTransitionTime := (if cdStatus d = cdStatus c then cdLastTransitionTime d else t)\<rparr> # ds
      else d # listSetCondition t ds c)"

definition listRemoveCondition :: "condition list \<Rightarrow> string \<Rightarrow> condition list" where
  "listRemoveCondition cs t = filter (\<lambda>c. cdType c \<noteq> t) cs"

definition listFindCondition :: "condition list \<Rightarrow> string \<Rightarrow> condition option" where
  "listFindCondition cs t = find (\<lambda>c. cdType c = t) cs"

interpretation list_conditions: status_conditions
  "\<lambda>cs c s. (listSetCondition (clk s) cs c, s)" listRemoveCondition listFindCondition for clk
proof unfold_locales
  fix cs and c :: condition and s :: 'a
  show "\<exists>c'. listFindCondition (fst (listSetCondition (clk s) cs c, s)) (cdType c) = Some c' \<and>
      cdStatus c' = cdStatus c \<and> cdReason c' = cdReason c \<and> cdMessage c' = cdMessage c"
    by (induction cs) (auto simp: listFindCondition_def)
next
  fix t cs and c :: condition and s :: 'a
  assume "t \<noteq> cdType c"
  then show "listFindCondition (fst (listSetCondition (clk s) cs c, s)) t = listFindCondition cs t"
    by (induction cs) (auto simp: listFindCondition_def)
next
  fix cs t
  show "listFindCondition (listRemoveCondition cs t) t = None"
    by (simp add: listFindCondition_def listRemoveCondition_def find_None_iff)
next
  fix t' t :: string and cs
  assume "t' \<noteq> t"
  then show "listFindCondition (listRemoveCondition cs t) t' = listFindCondition cs t'"
    by (induction cs) (auto simp: listFindCondition_def listRemoveCondition_def)
qed

end
