(* ===== verification/Samples.thy ===== *)
theory Samples
  imports Cluster
begin

text \<open>
  Concrete objects for the witnesses: an app shaped like the example custom resource of the
  repository, workspaces in a given phase, a claim, a deployment, and a small in-memory cluster
  to run whole handlers on.
\<close>

definition sampleSecret :: secretHeaderRef where
  "sampleSecret = \<lparr>shSecretName = ''caller'', shSecretKey = ''token'', shHeader = ''Authorization'',
     shScheme = ''Bearer''\<rparr>"

definition sampleTemplate :: workspaceTemplateSpec where
  "sampleTemplate = \<lparr>wtImage = ''workspace-app:1'', wtImagePullPolicy = ''IfNotPresent'', wtPort = 8888,
     wtEnv = [], wtEnvFrom = [], wtResources = [], wtUpstreamAuth = None,
     wtPodSecurityContext = \<lparr>FSGroup = Some 1000, RunAsNonRoot = Some True, RunAsUser = Some 1000, pscRest = []\<rparr>,
     wtSecurityContext = [], wtServiceAccountName = [], wtAutomountServiceAccountToken = None,
     wtVolumes = [], wtVolumeMounts = [], wtInitContainers = [], wtCommand = [], wtArgs = [],
     wtReadinessProbe = None, wtLivenessProbe = None, wtNodeSelector = [], wtTolerations = [],
     wtTerminationGracePeriodSeconds = None\<rparr>"

definition sampleReclaim :: reclaimSpec where
  "sampleReclaim = \<lparr>rcEnabled = True, TargetWorkspaces = 1, MinIdleAge = 60 * second,
     rcInterval = 300 * second, DeleteVolumeData = True\<rparr>"

definition sampleSpec :: perUserAppSpec where
  "sampleSpec = \<lparr>spIdentity = \<lparr>idHeader = ''X-User'', idMaxLength = 64\<rparr>, spCallerAuth = sampleSecret,
     spWorkspace = sampleTemplate,
     spNetwork = \<lparr>WorkspaceEgress = [], RouterIngress = \<lparr>FromTraefik = True, riFrom = []\<rparr>\<rparr>,
     spStorage = \<lparr>stSize = 10, stStorageClassName = ''fast'', stMountPath = ''/home'', stSeed = None\<rparr>,
     spLimits = \<lparr>MaxWorkspaces = 3, MaxConcurrentStarts = 2\<rparr>,
     spLifecycle = \<lparr>IdleTimeout = 1800 * second, StartupTimeout = 120 * second, BackoffMax = 300 * second,
       ReapInterval = 60 * second, ConnectionHeartbeatInterval = 30 * second\<rparr>,
     spRouter = \<lparr>rtReplicas = 2, rtResources = [], rtImage = ''router:1'', ColdStartHoldSeconds = 45,
       SharedPaths = []\<rparr>,
     spReclaim = Some sampleReclaim\<rparr>"

definition sampleApp :: perUserApp where
  "sampleApp = \<lparr>appMeta = zeroMeta\<lparr>Name := ''app'', Namespace := ''ns'', UID := ''uid-app'', Generation := 1\<rparr>,
     appSpec = sampleSpec,
     appStatus = \<lparr>apObservedGeneration = 1, RouterReady = True, apConditions = []\<rparr>\<rparr>"

definition sampleWs :: "string \<Rightarrow> workspaceStatus \<Rightarrow> workspace" where
  "sampleWs u st = \<lparr>wsMeta = zeroMeta\<lparr>Name := ''app-'' @ u, Namespace := ''ns'', UID := ''uid-'' @ u,
       Labels := [(LabelApp, ''app''), (LabelUserKey, u)]\<rparr>,
     wsSpec = \<lparr>wsAppRef = ''app'', wsUserKey = u\<rparr>, wsStatus = st\<rparr>"

definition startingWs :: "string \<Rightarrow> workspace" where
  "startingWs u = sampleWs u (zeroStatus\<lparr>wsPhase := PhaseStarting, StartDeadline := Some (120 * second)\<rparr>)"

definition pendingWs :: "string \<Rightarrow> gotime \<Rightarrow> workspace" where
  "pendingWs u t = sampleWs u (zeroStatus\<lparr>wsPhase := PhasePending, EnqueuedAt := Some t\<rparr>)"

definition readyWs :: "string \<Rightarrow> gotime \<Rightarrow> workspace" where
  "readyWs u t = sampleWs u (zeroStatus\<lparr>wsPhase := PhaseReady, LastActivity := Some t\<rparr>)"

definition idleWs :: "string \<Rightarrow> gotime \<Rightarrow> workspace" where
  "idleWs u t = sampleWs u (zeroStatus\<lparr>wsPhase := PhaseIdle, ScaledDown := True, LastActivity := Some t\<rparr>)"

definition samplePVC :: "string \<Rightarrow> persistentVolumeClaim" where
  "samplePVC u = zeroPVC\<lparr>pvcMeta := zeroMeta\<lparr>Name := ''app-'' @ u, Namespace := ''ns''\<rparr>,
     pvcAccessModes := [''ReadWriteOncePod''], pvcStorageClassName := Some ''fast'', pvcRequest := Some 10,
     pvcVolumeName := ''pv-'' @ u, pvcPhase := ''Bound'', pvcCapacity := Some 10\<rparr>"

lemmas sample_defs = sampleApp_def sampleSpec_def sampleTemplate_def sampleSecret_def sampleReclaim_def
  sampleWs_def startingWs_def pendingWs_def readyWs_def idleWs_def samplePVC_def zeroMeta_def
  zeroStatus_def zeroPVC_def zeroTime_def

section \<open>A cluster that holds lists of objects\<close>

text \<open>A resource whose every call is answered with fixed values; the pieces of the sample
  environment that a witness does not exercise refuse every call.\<close>

definition refusing :: "('s, 'o) resource" where
  "refusing = \<lparr>rGet = \<lambda>_ s. (Inl NotFound, s), rList = \<lambda>_ _ s. (Inr [], s),
     rCreate = \<lambda>x s. (Inr x, s), rUpdate = \<lambda>x s. (Inr x, s), rPatch = \<lambda>_ x s. (Inr x, s),
     rStatusUpdate = \<lambda>x s. (Inr x, s), rStatusPatch = \<lambda>_ x s. (Inr x, s), rDelete = \<lambda>_ s. (Inr (), s),
     rCreateOrUpdate = \<lambda>_ _ s. (Inr (), s)\<rparr>"

text \<open>The state of the sample cluster: the clock's reading and the workspaces it lists.\<close>

definition sampleEnv :: "(gotime \<times> workspace list) env" where
  "sampleEnv = \<lparr>clock = \<lambda>s. (fst s, s),
     workspaces = refusing\<lparr>rList := \<lambda>_ _ s. (Inr (snd s), s)\<rparr>,
     perUserApps = refusing\<lparr>rGet := \<lambda>_ s. (Inr sampleApp, s), rList := \<lambda>_ _ s. (Inr [sampleApp], s)\<rparr>,
     deployments = refusing, services = refusing, networkPolicies = refusing,
     claims = refusing\<lparr>rGet := \<lambda>_ s. (Inr (samplePVC ''u1''), s)\<rparr>,
     volumes = refusing\<lparr>rGet := \<lambda>k s. (Inr \<lparr>pvMeta = zeroMeta\<lparr>Name := snd k\<rparr>, pvReclaimPolicy = ''Retain''\<rparr>, s)\<rparr>,
     pods = refusing, endpointSlices = refusing, storageClasses = refusing, serviceAccounts = refusing,
     roleBindings = refusing,
     setStatusCondition = \<lambda>cs c s. (listSetCondition (fst s) cs c, s),
     removeStatusCondition = listRemoveCondition, findStatusCondition = listFindCondition,
     containsFinalizer = \<lambda>fs f. f \<in> set fs, addFinalizer = \<lambda>fs f. if f \<in> set fs then fs else fs @ [f],
     removeFinalizer = \<lambda>fs f. removeAll f fs, jsonMarshal = \<lambda>_. [], quantityString = \<lambda>_. []\<rparr>"

lemmas sample_env_defs = sampleEnv_def refusing_def

end
