(* ===== verification/Go_Std.thy ===== *)
theory Go_Std
  imports Puc_Prelude "HOL-Library.Sublist"
begin

text \<open>
  What the operator uses of Go's standard library on strings and HTTP headers. A Go string is a
  sequence of bytes, a \<open>char\<close> here. An \<open>http.Header\<close> is a map from canonical header names to
  lists of values, an association list here.
\<close>

definition byteval :: "char \<Rightarrow> int" where
  "byteval c = of_char c"

definition printable :: "char \<Rightarrow> bool" where
  "printable c \<longleftrightarrow> 0x20 \<le> byteval c \<and> byteval c \<le> 0x7e"

section \<open>strings\<close>

text \<open>The UTF-8 encodings of the code points that \<open>unicode.IsSpace\<close> accepts.\<close>

definition spaceEncodings :: "string list" where
  "spaceEncodings =
     [[CHR 0x09], [CHR 0x0A], [CHR 0x0B], [CHR 0x0C], [CHR 0x0D], [CHR 0x20],
      [CHR 0xC2, CHR 0x85], [CHR 0xC2, CHR 0xA0], [CHR 0xE1, CHR 0x9A, CHR 0x80]] @
     map (\<lambda>c. [CHR 0xE2, CHR 0x80, c])
       [CHR 0x80, CHR 0x81, CHR 0x82, CHR 0x83, CHR 0x84, CHR 0x85, CHR 0x86, CHR 0x87, CHR 0x88,
        CHR 0x89, CHR 0x8A, CHR 0xA8, CHR 0xA9, CHR 0xAF] @
     [[CHR 0xE2, CHR 0x81, CHR 0x9F], [CHR 0xE3, CHR 0x80, CHR 0x80]]"

definition spaceLen :: "string list \<Rightarrow> string \<Rightarrow> nat" where
  "spaceLen encs s =
     (case find (\<lambda>e. e \<noteq> [] \<and> prefix e s) encs of None \<Rightarrow> 0 | Some e \<Rightarrow> length e)"

lemma spaceLen_le: "spaceLen encs s \<le> length s"
  by (auto simp: spaceLen_def find_Some_iff prefix_length_le split: option.split)

function trimLeft :: "string list \<Rightarrow> string \<Rightarrow> string" where
  "trimLeft encs s =
     (if spaceLen encs s = 0 then s else trimLeft encs (drop (spaceLen encs s) s))"
  by pat_completeness auto
termination
proof (relation "measure (\<lambda>(encs, s). length s)", goal_cases)
  case (2 encs s)
  then show ?case using spaceLen_le [of encs s] by simp
qed simp

declare trimLeft.simps [simp del]

definition TrimSpace :: "string \<Rightarrow> string" where
  "TrimSpace s = rev (trimLeft (map rev spaceEncodings) (rev (trimLeft spaceEncodings s)))"

fun Split :: "char \<Rightarrow> string \<Rightarrow> string list" where
  "Split sep [] = [[]]"
| "Split sep (c # s) =
     (if c = sep then [] # Split sep s
      else case Split sep s of [] \<Rightarrow> [[c]] | p # ps \<Rightarrow> (c # p) # ps)"

definition HasPrefix :: "string \<Rightarrow> string \<Rightarrow> bool" where
  "HasPrefix s p \<longleftrightarrow> take (length p) s = p"

definition TrimPrefix :: "string \<Rightarrow> string \<Rightarrow> string" where
  "TrimPrefix s p = (if HasPrefix s p then drop (length p) s else s)"

definition HasSuffix :: "string \<Rightarrow> string \<Rightarrow> bool" where
  "HasSuffix s p \<longleftrightarrow> suffix p s"

definition toLowerASCII :: "char \<Rightarrow> char" where
  "toLowerASCII c = (if 0x41 \<le> byteval c \<and> byteval c \<le> 0x5A then char_of (byteval c + 32) else c)"

definition toUpperASCII :: "char \<Rightarrow> char" where
  "toUpperASCII c = (if 0x61 \<le> byteval c \<and> byteval c \<le> 0x7A then char_of (byteval c - 32) else c)"

text \<open>\<open>strings.EqualFold\<close> against a word of ASCII letters none of which has a non-ASCII case
  variant (every letter but k and s).\<close>

definition EqualFold :: "string \<Rightarrow> string \<Rightarrow> bool" where
  "EqualFold s t \<longleftrightarrow> map toLowerASCII s = map toLowerASCII t"

text \<open>\<open>bytes.TrimRight(b, "\n")\<close>\<close>

definition TrimRightNL :: "string \<Rightarrow> string" where
  "TrimRightNL s = rev (dropWhile (\<lambda>c. c = CHR 0x0A) (rev s))"

section \<open>strconv, net\<close>

function itoa_nat :: "nat \<Rightarrow> string" where
  "itoa_nat n =
     (let d = char_of (48 + n mod 10) in if n < 10 then [d] else itoa_nat (n div 10) @ [d])"
  by pat_completeness auto
termination by (relation "measure id") auto

declare itoa_nat.simps [simp del]

definition Itoa :: "int \<Rightarrow> string" where
  "Itoa i = (if i < 0 then CHR ''-'' # itoa_nat (nat (- i)) else itoa_nat (nat i))"

text \<open>\<open>Time.UTC().Format(time.RFC3339)\<close>: the proleptic Gregorian date from the number of days since
  1970, counted in 400-year eras of 146097 days that start in March.\<close>

definition civilDate :: "int \<Rightarrow> int \<times> int \<times> int" where
  "civilDate days =
     (let z = days + 719468; era = z div 146097; doe = z mod 146097;
          yoe = (doe - doe div 1460 + doe div 36524 - doe div 146096) div 365;
          doy = doe - (365 * yoe + yoe div 4 - yoe div 100);
          mp = (5 * doy + 2) div 153;
          month = (if mp < 10 then mp + 3 else mp - 9)
      in (yoe + era * 400 + (if month \<le> 2 then 1 else 0), month, doy - (153 * mp + 2) div 5 + 1))"

definition padTo :: "nat \<Rightarrow> int \<Rightarrow> string" where
  "padTo n i = (let s = Itoa i in replicate (n - length s) (CHR ''0'') @ s)"

definition FormatRFC3339 :: "gotime \<Rightarrow> string" where
  "FormatRFC3339 t =
     (let secs = timeUnix t; (y, mo, d) = civilDate (secs div 86400); sod = secs mod 86400 in
      padTo 4 y @ ''-'' @ padTo 2 mo @ ''-'' @ padTo 2 d @ ''T'' @
      padTo 2 (sod div 3600) @ '':'' @ padTo 2 (sod div 60 mod 60) @ '':'' @ padTo 2 (sod mod 60) @ ''Z'')"

definition JoinHostPort :: "string \<Rightarrow> string \<Rightarrow> string" where
  "JoinHostPort host port =
     (if CHR '':'' \<in> set host then ''['' @ host @ '']:'' @ port
      else host @ '':'' @ port)"

section \<open>net/http headers\<close>

type_synonym header = "(string \<times> string list) list"

definition validHeaderFieldByte :: "char \<Rightarrow> bool" where
  "validHeaderFieldByte c \<longleftrightarrow>
     c \<in> set ''!#$%&'' \<or> c = CHR 0x27 \<or> c \<in> set ''*+-.^_`|~'' \<or>
     (0x30 \<le> byteval c \<and> byteval c \<le> 0x39) \<or> (0x41 \<le> byteval c \<and> byteval c \<le> 0x5A) \<or>
     (0x61 \<le> byteval c \<and> byteval c \<le> 0x7A)"

fun canonLetters :: "bool \<Rightarrow> string \<Rightarrow> string" where
  "canonLetters upper [] = []"
| "canonLetters upper (c # s) =
     (let d = (if upper then toUpperASCII c else toLowerASCII c)
      in d # canonLetters (d = CHR ''-'') s)"

definition CanonicalHeaderKey :: "string \<Rightarrow> string" where
  "CanonicalHeaderKey s = (if list_all validHeaderFieldByte s then canonLetters True s else s)"

definition Values :: "header \<Rightarrow> string \<Rightarrow> string list" where
  "Values h key = (case map_of h (CanonicalHeaderKey key) of None \<Rightarrow> [] | Some vs \<Rightarrow> vs)"

definition HeaderGet :: "header \<Rightarrow> string \<Rightarrow> string" where
  "HeaderGet h key = (case Values h key of [] \<Rightarrow> [] | v # _ \<Rightarrow> v)"

definition HeaderDel :: "header \<Rightarrow> string \<Rightarrow> header" where
  "HeaderDel h key = AList.delete (CanonicalHeaderKey key) h"

definition HeaderSet :: "header \<Rightarrow> string \<Rightarrow> string \<Rightarrow> header" where
  "HeaderSet h key v = AList.update (CanonicalHeaderKey key) [v] h"

section \<open>Lemmas\<close>

lemma Values_HeaderDel:
  "Values (HeaderDel h key) k =
     (if CanonicalHeaderKey k = CanonicalHeaderKey key then [] else Values h k)"
  by (simp add: Values_def HeaderDel_def delete_conv')

lemma Values_HeaderSet:
  "Values (HeaderSet h key v) k =
     (if CanonicalHeaderKey k = CanonicalHeaderKey key then [v] else Values h k)"
  by (simp add: Values_def HeaderSet_def update_conv')

lemma spaceEncodings_no_printable:
  "list_all (\<lambda>e. e = '' '' \<or> list_ex (\<lambda>c. \<not> printable c) e) spaceEncodings"
  by (simp add: spaceEncodings_def printable_def byteval_def)

lemma spaceLen_printable:
  assumes "list_all printable s" and "encs = spaceEncodings \<or> encs = map rev spaceEncodings"
  shows "spaceLen encs s = (case s of [] \<Rightarrow> 0 | c # _ \<Rightarrow> if c = CHR '' '' then 1 else 0)"
proof -
  have only: "e = '' ''" if "e \<in> set encs" "e \<noteq> []" "prefix e s" for e
  proof (rule ccontr)
    assume ne: "e \<noteq> '' ''"
    from that(1) assms(2) obtain e' where e': "e' \<in> set spaceEncodings" "e = e' \<or> e = rev e'" by auto
    with ne have "e' \<noteq> '' ''" by auto
    with e' spaceEncodings_no_printable have "\<exists>c \<in> set e. \<not> printable c"
      by (auto simp: list_all_iff list_ex_iff)
    moreover have "set e \<subseteq> set s" using that(3) by (rule set_mono_prefix)
    ultimately show False using assms(1) by (auto simp: list_all_iff)
  qed
  have sp: "'' '' \<in> set encs" using assms(2) by (auto simp: spaceEncodings_def)
  show ?thesis
  proof (cases "find (\<lambda>e. e \<noteq> [] \<and> prefix e s) encs")
    case None
    with sp have "\<not> prefix '' '' s" by (auto simp: find_None_iff)
    with None show ?thesis by (auto simp: spaceLen_def split: list.split)
  next
    case (Some e)
    then have "e \<in> set encs" "e \<noteq> []" "prefix e s" by (auto simp: find_Some_iff)
    then have "e = '' ''" by (rule only)
    with Some \<open>prefix e s\<close> show ?thesis by (auto simp: spaceLen_def split: list.split)
  qed
qed

lemma trimLeft_printable:
  assumes "list_all printable s" and "encs = spaceEncodings \<or> encs = map rev spaceEncodings"
  shows "trimLeft encs s = dropWhile (\<lambda>c. c = CHR '' '') s"
  using assms(1)
proof (induction s)
  case Nil
  then show ?case using assms(2) by (simp add: trimLeft.simps spaceLen_printable)
next
  case (Cons c s)
  have "spaceLen encs (c # s) = (if c = CHR '' '' then 1 else 0)"
    using spaceLen_printable [OF Cons.prems assms(2)] by simp
  then show ?case using Cons by (subst trimLeft.simps) auto
qed

lemma TrimSpace_empty_printable:
  assumes "list_all printable s"
  shows "TrimSpace s = [] \<longleftrightarrow> (\<forall>c \<in> set s. c = CHR '' '')"
proof -
  let ?d = "dropWhile (\<lambda>c. c = CHR '' '')"
  have "list_all printable (rev (?d s))"
    using assms by (auto simp: list_all_iff dest: set_dropWhileD)
  with assms have "TrimSpace s = rev (?d (rev (?d s)))"
    by (simp add: TrimSpace_def trimLeft_printable)
  then have "TrimSpace s = [] \<longleftrightarrow> (\<forall>c \<in> set (?d s). c = CHR '' '')"
    by simp
  also have "\<dots> \<longleftrightarrow> ?d s = []"
    using hd_dropWhile [of "\<lambda>c. c = CHR '' ''" s] by (metis hd_in_set list.set(1) empty_iff)
  also have "\<dots> \<longleftrightarrow> (\<forall>c \<in> set s. c = CHR '' '')"
    by simp
  finally show ?thesis .
qed

end
