(* ===== verification/Sha256.thy ===== *)
theory Sha256
  imports Main "HOL-Library.Word"
begin

text \<open>
  The part of Go's standard library that \<open>internal/identity/userkey.go\<close> and
  \<open>WorkspaceSpecHash\<close> call: \<open>crypto/sha256.Sum256\<close> and \<open>encoding/hex.EncodeToString\<close>.
  SHA-256 is the standard's algorithm on \<open>32 word\<close>; a byte is an \<open>int\<close>, so that the kernel
  evaluates a digest with binary arithmetic. The lemmas \<open>sha_eval\<close> are rewrite rules that keep
  every intermediate word reduced modulo \<open>2 ^ 32\<close> during such an evaluation.
\<close>

unbundle bit_operations_syntax

type_synonym u32 = "32 word"

definition rotr :: "nat \<Rightarrow> u32 \<Rightarrow> u32" where
  "rotr n x = drop_bit n x OR push_bit (32 - n) x"

definition bsig0 :: "u32 \<Rightarrow> u32" where
  "bsig0 x = (rotr 2 x XOR rotr 13 x) XOR rotr 22 x"

definition bsig1 :: "u32 \<Rightarrow> u32" where
  "bsig1 x = (rotr 6 x XOR rotr 11 x) XOR rotr 25 x"

definition ssig0 :: "u32 \<Rightarrow> u32" where
  "ssig0 x = (rotr 7 x XOR rotr 18 x) XOR drop_bit 3 x"

definition ssig1 :: "u32 \<Rightarrow> u32" where
  "ssig1 x = (rotr 17 x XOR rotr 19 x) XOR drop_bit 10 x"

definition sha_ch :: "u32 \<Rightarrow> u32 \<Rightarrow> u32 \<Rightarrow> u32" where
  "sha_ch x y z = (x AND y) XOR (NOT x AND z)"

definition sha_maj :: "u32 \<Rightarrow> u32 \<Rightarrow> u32 \<Rightarrow> u32" where
  "sha_maj x y z = ((x AND y) XOR (x AND z)) XOR (y AND z)"

text \<open>The standard's round constants (FIPS 180-4, section 4.2.2), in decimal.\<close>

definition round_constants :: "u32 list" where
  "round_constants =
    [1116352408, 1899447441, 3049323471, 3921009573, 961987163, 1508970993,
     2453635748, 2870763221, 3624381080, 310598401, 607225278, 1426881987,
     1925078388, 2162078206, 2614888103, 3248222580, 3835390401, 4022224774,
     264347078, 604807628, 770255983, 1249150122, 1555081692, 1996064986,
     2554220882, 2821834349, 2952996808, 3210313671, 3336571891, 3584528711,
     113926993, 338241895, 666307205, 773529912, 1294757372, 1396182291,
     1695183700, 1986661051, 2177026350, 2456956037, 2730485921, 2820302411,
     3259730800, 3345764771, 3516065817, 3600352804, 4094571909, 275423344,
     430227734, 506948616, 659060556, 883997877, 958139571, 1322822218,
     1537002063, 1747873779, 1955562222, 2024104815, 2227730452, 2361852424,
     2428436474, 2756734187, 3204031479, 3329325298]"

record sha_state =
  h_a :: u32
  h_b :: u32
  h_c :: u32
  h_d :: u32
  h_e :: u32
  h_f :: u32
  h_g :: u32
  h_h :: u32

definition initial_hash :: sha_state where
  "initial_hash = \<lparr>h_a = 0x6a09e667, h_b = 0xbb67ae85, h_c = 0x3c6ef372, h_d = 0xa54ff53a,
                   h_e = 0x510e527f, h_f = 0x9b05688c, h_g = 0x1f83d9ab, h_h = 0x5be0cd19\<rparr>"

type_synonym byte = int

definition be_word :: "byte list \<Rightarrow> u32" where
  "be_word bs = of_int (foldl (\<lambda>acc b. acc * 256 + b) 0 bs)"

fun blocks_of :: "nat \<Rightarrow> nat \<Rightarrow> 'a list \<Rightarrow> 'a list list" where
  "blocks_of 0 n xs = []"
| "blocks_of (Suc k) n xs = take n xs # blocks_of k n (drop n xs)"

definition be64 :: "int \<Rightarrow> byte list" where
  "be64 n = map (\<lambda>d. (n div d) mod 256)
     [256 ^ 7, 256 ^ 6, 256 ^ 5, 256 ^ 4, 256 ^ 3, 256 ^ 2, 256, 1]"

definition sha_pad :: "byte list \<Rightarrow> byte list" where
  "sha_pad bs = bs @ [128] @ replicate ((119 - length bs mod 64) mod 64) 0 @ be64 (8 * int (length bs))"

fun extend_schedule :: "nat \<Rightarrow> u32 list \<Rightarrow> u32 list" where
  "extend_schedule 0 rws = rev rws"
| "extend_schedule (Suc n) rws =
     extend_schedule n ((ssig1 (rws ! 1) + rws ! 6 + ssig0 (rws ! 14) + rws ! 15) # rws)"

definition schedule :: "byte list \<Rightarrow> u32 list" where
  "schedule block = extend_schedule 48 (rev (map be_word (blocks_of 16 4 block)))"

definition sha_round :: "u32 \<times> u32 \<Rightarrow> sha_state \<Rightarrow> sha_state" where
  "sha_round kw s =
     (let t1 = h_h s + bsig1 (h_e s) + sha_ch (h_e s) (h_f s) (h_g s) + fst kw + snd kw;
          t2 = bsig0 (h_a s) + sha_maj (h_a s) (h_b s) (h_c s)
      in \<lparr>h_a = t1 + t2, h_b = h_a s, h_c = h_b s, h_d = h_c s,
          h_e = h_d s + t1, h_f = h_e s, h_g = h_f s, h_h = h_g s\<rparr>)"

definition compress :: "byte list \<Rightarrow> sha_state \<Rightarrow> sha_state" where
  "compress block h =
     (let s = fold sha_round (zip round_constants (schedule block)) h
      in \<lparr>h_a = h_a h + h_a s, h_b = h_b h + h_b s, h_c = h_c h + h_c s, h_d = h_d h + h_d s,
          h_e = h_e h + h_e s, h_f = h_f h + h_f s, h_g = h_g h + h_g s, h_h = h_h h + h_h s\<rparr>)"

definition word_bytes :: "u32 \<Rightarrow> byte list" where
  "word_bytes w = map (\<lambda>d. (uint w div d) mod 256) [16777216, 65536, 256, 1]"

definition Sum256 :: "byte list \<Rightarrow> byte list" where
  "Sum256 bs =
     (let p = sha_pad bs; s = fold compress (blocks_of (length p div 64) 64 p) initial_hash
      in concat (map word_bytes [h_a s, h_b s, h_c s, h_d s, h_e s, h_f s, h_g s, h_h s]))"

definition hex_digit :: "byte \<Rightarrow> char" where
  "hex_digit n = ''0123456789abcdef'' ! nat (n mod 16)"

definition EncodeToString :: "byte list \<Rightarrow> string" where
  "EncodeToString bs = concat (map (\<lambda>b. [hex_digit (b div 16), hex_digit (b mod 16)]) bs)"


definition u32_norm :: "u32 \<Rightarrow> u32" where
  "u32_norm x = x"

lemma u32_norm_of_int: "u32_norm (of_int i) = of_int (i mod 4294967296)"
proof -
  have "take_bit 32 (i mod 4294967296) = take_bit 32 i"
    using take_bit_eq_mod [of 32 i] take_bit_eq_mod [of 32 "i mod 4294967296"] by simp
  then show ?thesis by (simp add: u32_norm_def word_of_int_eq_iff)
qed

lemma u32_norm_eval:
  "u32_norm (numeral n) = of_int (numeral n mod 4294967296)" "u32_norm 0 = 0" "u32_norm 1 = 1"
  using u32_norm_of_int [of "numeral n"] by (simp_all only: of_int_numeral u32_norm_def)

lemma sha_round_u32_norm:
  "sha_round (k, w) \<lparr>h_a = a, h_b = b, h_c = c, h_d = d, h_e = e, h_f = f, h_g = g, h_h = h\<rparr> =
     (let t1 = u32_norm (h + u32_norm (bsig1 e) + u32_norm (sha_ch e f g) + k + w);
          t2 = u32_norm (u32_norm (bsig0 a) + u32_norm (sha_maj a b c))
      in \<lparr>h_a = u32_norm (t1 + t2), h_b = a, h_c = b, h_d = c, h_e = u32_norm (d + t1), h_f = e, h_g = f, h_h = g\<rparr>)"
  by (simp add: sha_round_def u32_norm_def Let_def)

lemma extend_schedule_numeral:
  "extend_schedule (numeral k) rws = extend_schedule (pred_numeral k)
     (u32_norm (ssig1 (rws ! 1) + rws ! 6 + ssig0 (rws ! 14) + rws ! 15) # rws)"
  by (simp add: numeral_eq_Suc u32_norm_def)

lemma blocks_of_numeral:
  "blocks_of (numeral k) n xs = take n xs # blocks_of (pred_numeral k) n (drop n xs)"
  by (simp add: numeral_eq_Suc)

lemma rotr_u32_norm: "rotr n x = u32_norm (drop_bit n x OR push_bit (32 - n) x)"
  by (simp add: rotr_def u32_norm_def)

lemma replicate_numeral_unfold:
  "replicate (numeral k) x = x # replicate (pred_numeral k) x"
  by (simp add: numeral_eq_Suc)

lemmas sha_eval = replicate_numeral_unfold u32_norm_eval sha_round_u32_norm
  bsig0_def bsig1_def ssig0_def ssig1_def rotr_u32_norm sha_ch_def sha_maj_def
  extend_schedule_numeral blocks_of_numeral be_word_def sha_pad_def be64_def schedule_def
  round_constants_def initial_hash_def compress_def word_bytes_def

section \<open>Shape of digests and of their hexadecimal text\<close>

lemma length_Sum256 [simp]: "length (Sum256 bs) = 32"
  by (simp add: Sum256_def Let_def word_bytes_def)

lemma length_EncodeToString [simp]: "length (EncodeToString bs) = 2 * length bs"
  by (induction bs) (simp_all add: EncodeToString_def)

definition is_hex :: "char \<Rightarrow> bool" where
  "is_hex c \<longleftrightarrow> c \<in> set ''0123456789abcdef''"

lemma is_hex_hex_digit: "is_hex (hex_digit n)"
proof -
  have "nat (n mod 16) < length ''0123456789abcdef''" by simp
  then show ?thesis unfolding is_hex_def hex_digit_def by (rule nth_mem)
qed

lemma is_hex_EncodeToString: "list_all is_hex (EncodeToString bs)"
  by (induction bs) (simp_all add: EncodeToString_def is_hex_hex_digit)

end
