(* ===== verification/Identity.thy ===== *)
theory Identity
  imports Go_Std Sha256
begin

text \<open>
  \<open>internal/identity\<close>: how a caller's identity is read off the request (\<open>Extract\<close>, fail-closed)
  and how a user's key and the names of the user's child resources are derived from it
  (\<open>UserKey\<close>, \<open>ChildName\<close>).

  Shown here: \<open>Extract\<close> accepts exactly the values the package comment promises and never the
  reserved identity; a user key is always \<open>u-\<close> and 16 hexadecimal digits; the hashed text
  determines its three components; child names determine the app and the key, never collide with
  the router's names and fit the pod name budget.
\<close>

section \<open>Extract\<close>

datatype Reason = ReasonMissing | ReasonEmpty | ReasonTooLong | ReasonDuplicate | ReasonInvalid
  | ReasonReserved

fun reasonString :: "Reason \<Rightarrow> string" where
  "reasonString ReasonMissing = ''missing''"
| "reasonString ReasonEmpty = ''empty''"
| "reasonString ReasonTooLong = ''too_long''"
| "reasonString ReasonDuplicate = ''duplicate''"
| "reasonString ReasonInvalid = ''invalid''"
| "reasonString ReasonReserved = ''reserved''"

definition Shared :: string where
  "Shared = ''__shared__''"

record Rejection =
  rejReason :: Reason
  rejStatus :: int

definition StatusUnauthorized :: int where
  "StatusUnauthorized = 401"
definition StatusBadRequest :: int where
  "StatusBadRequest = 400"

definition reject_identity :: "Reason \<Rightarrow> int \<Rightarrow> Rejection + string" where
  "reject_identity reason status = Inl \<lparr>rejReason = reason, rejStatus = status\<rparr>"

definition Extract :: "header \<Rightarrow> string \<Rightarrow> int \<Rightarrow> Rejection + string" where
  "Extract h hdr maxLength =
     (let values = Values h hdr in
      if length values = 0 then reject_identity ReasonMissing StatusUnauthorized
      else if length values > 1 then reject_identity ReasonDuplicate StatusBadRequest
      else let raw = hd values in
        if CHR '','' \<in> set raw then reject_identity ReasonDuplicate StatusBadRequest
        else if TrimSpace raw = [] then reject_identity ReasonEmpty StatusUnauthorized
        else if int (length raw) > maxLength then reject_identity ReasonTooLong StatusUnauthorized
        else if list_ex (\<lambda>c. byteval c < 0x20 \<or> byteval c > 0x7e) raw
          then reject_identity ReasonInvalid StatusBadRequest
        else if raw = Shared then reject_identity ReasonReserved StatusBadRequest
        else Inr raw)"

section \<open>UserKey and ChildName\<close>

definition userKeyInput :: "string \<Rightarrow> string \<Rightarrow> string \<Rightarrow> string" where
  "userKeyInput namespace app rawIdentity =
     namespace @ [CHR 0x00] @ app @ [CHR 0x00] @ rawIdentity"

definition UserKey :: "string \<Rightarrow> string \<Rightarrow> string \<Rightarrow> string" where
  "UserKey namespace app rawIdentity =
     ''u-'' @ take 16 (EncodeToString (Sum256 (map byteval (userKeyInput namespace app rawIdentity))))"

definition ChildName :: "string \<Rightarrow> string \<Rightarrow> string" where
  "ChildName app userKey = app @ ''-'' @ userKey"

section \<open>Properties\<close>

lemma Extract_single:
  assumes "Values h hdr = [raw]"
  shows "Extract h hdr n = Inr r \<longleftrightarrow>
     r = raw \<and> CHR '','' \<notin> set raw \<and> TrimSpace raw \<noteq> [] \<and> int (length raw) \<le> n \<and>
     list_all printable raw \<and> raw \<noteq> Shared"
proof -
  have ex: "list_ex (\<lambda>c. byteval c < 0x20 \<or> byteval c > 0x7e) raw \<longleftrightarrow> \<not> list_all printable raw"
    by (auto simp: list_ex_iff list_all_iff printable_def not_le)
  show ?thesis using assms
    by (auto simp: Extract_def reject_identity_def ex Let_def)
qed

lemma Extract_not_single: "length (Values h hdr) \<noteq> 1 \<Longrightarrow> \<exists>rej. Extract h hdr n = Inl rej"
  by (cases "Values h hdr") (auto simp: Extract_def reject_identity_def Let_def)

text \<open>The exact set of accepted headers: one value, printable ASCII, not blank, no comma, within the
  length limit, not the reserved identity; and the value is returned unchanged.\<close>

lemma extract_accepts_iff:
  "Extract h hdr maxLength = Inr raw \<longleftrightarrow>
     Values h hdr = [raw] \<and> list_all printable raw \<and> (\<exists>c\<in>set raw. c \<noteq> CHR '' '') \<and>
     CHR '','' \<notin> set raw \<and> int (length raw) \<le> maxLength \<and> raw \<noteq> Shared"
proof (cases "\<exists>v. Values h hdr = [v]")
  case True
  then obtain v where v: "Values h hdr = [v]" ..
  show ?thesis
    by (subst Extract_single [OF v]) (use v TrimSpace_empty_printable [of raw] in auto)
next
  case False
  then have "length (Values h hdr) \<noteq> 1" by (cases "Values h hdr") auto
  from Extract_not_single [OF this] False show ?thesis by (metis sum.distinct(1))
qed

lemma length_UserKey: "length (UserKey ns app raw) = 18"
  by (simp add: UserKey_def)

lemma UserKey_shape:
  "\<exists>ds. UserKey ns app raw = ''u-'' @ ds \<and> length ds = 16 \<and> list_all is_hex ds"
proof -
  let ?ds = "take 16 (EncodeToString (Sum256 (map byteval (userKeyInput ns app raw))))"
  have "list_all is_hex ?ds"
    using is_hex_EncodeToString by (metis append_take_drop_id list_all_append)
  then show ?thesis by (intro exI [of _ ?ds]) (simp add: UserKey_def)
qed

lemma split_at_first:
  assumes "a @ [x] @ b = a' @ [x] @ b'" and "x \<notin> set a" and "x \<notin> set a'"
  shows "a = a' \<and> b = b'"
  using assms
proof (induction a arbitrary: a')
  case Nil
  then show ?case by (cases a') auto
next
  case (Cons y a)
  then show ?case by (cases a') auto
qed

lemma userKeyInput_inject:
  assumes "userKeyInput ns app raw = userKeyInput ns' app' raw'"
    and "CHR 0x00 \<notin> set ns \<union> set app" and "CHR 0x00 \<notin> set ns' \<union> set app'"
  shows "ns = ns' \<and> app = app' \<and> raw = raw'"
proof -
  from assms have "ns = ns' \<and> app @ [CHR 0x00] @ raw = app' @ [CHR 0x00] @ raw'"
    unfolding userKeyInput_def by (intro split_at_first) auto
  moreover from this assms have "app = app' \<and> raw = raw'"
    by (intro split_at_first [of _ "CHR 0x00"]) auto
  ultimately show ?thesis by simp
qed

lemma ChildName_inject:
  assumes "ChildName app (UserKey ns x raw) = ChildName app' (UserKey ns' x' raw')"
  shows "app = app' \<and> UserKey ns x raw = UserKey ns' x' raw'"
proof -
  have "length (''-'' @ UserKey ns x raw) = length (''-'' @ UserKey ns' x' raw')"
    by (simp add: length_UserKey)
  with assms show ?thesis unfolding ChildName_def by auto
qed

lemma ChildName_not_router: "ChildName app (UserKey ns x raw) \<noteq> app' @ ''-router''"
proof
  assume eq: "ChildName app (UserKey ns x raw) = app' @ ''-router''"
  obtain ds where ds: "UserKey ns x raw = ''u-'' @ ds" "length ds = 16" "list_all is_hex ds"
    using UserKey_shape by blast
  have "last (ChildName app (UserKey ns x raw)) = last ds"
    using ds by (auto simp: ChildName_def)
  moreover have "is_hex (last ds)" using ds by (metis last_in_set length_0_conv list_all_iff zero_neq_numeral)
  ultimately have "is_hex (last (app' @ ''-router''))" using eq by simp
  then show False by (simp add: is_hex_def)
qed

section \<open>What the router relies on\<close>

text \<open>Claim C28. Identity extraction is exact: a header is accepted if and only if it has exactly one value,
  which is printable ASCII, not blank, free of commas, within the length limit and not the reserved
  identity; and the identity is that value, unchanged.\<close>

theorem identity_exact:
  "Extract h hdr maxLength = Inr raw \<longleftrightarrow>
     Values h hdr = [raw] \<and> list_all printable raw \<and> (\<exists>c\<in>set raw. c \<noteq> CHR '' '') \<and>
     CHR '','' \<notin> set raw \<and> int (length raw) \<le> maxLength \<and> raw \<noteq> Shared"
  by (rule extract_accepts_iff)

text \<open>Claim C29. Users' objects are kept apart: two users' child names are equal exactly if the apps and the user keys
  are, even when one app's name is a prefix of the other's; a child name is 19 characters longer than the app's
  name, and none is the name of a router. And the text a user key is the hash of determines namespace, app
  and identity, so two users share a key only if the truncated SHA-256 collides: namespaces and app names contain no
  zero byte (they are DNS names), whatever the identity contains.\<close>

theorem child_names_separate:
  assumes "CHR 0x00 \<notin> set ns \<union> set app" and "CHR 0x00 \<notin> set ns' \<union> set app'"
  shows "(ChildName app (UserKey ns app raw) = ChildName app' (UserKey ns' app' raw') \<longleftrightarrow>
      app = app' \<and> UserKey ns app raw = UserKey ns' app' raw') \<and>
    length (ChildName app (UserKey ns app raw)) = length app + 19 \<and>
    ChildName app (UserKey ns app raw) \<noteq> app' @ ''-router'' \<and>
    (userKeyInput ns app raw = userKeyInput ns' app' raw' \<longleftrightarrow> ns = ns' \<and> app = app' \<and> raw = raw')"
  using ChildName_inject ChildName_not_router userKeyInput_inject [OF _ assms] by (auto simp: ChildName_def length_UserKey)

theorem child_names_separate_witness:
  "ChildName ''app'' (UserKey ''prod'' ''app'' ''alice'') \<noteq> ''app2-router'' \<and>
   userKeyInput ''prod'' ''app'' ''alice'' \<noteq> userKeyInput ''prod'' ''app2'' ''alice''"
  using child_names_separate [of "''prod''" "''app''" "''prod''" "''app2''" "''alice''" "''alice''"] by simp

end
