(* ===== verification/Admission.thy ===== *)
theory Admission
  imports Samples Identity
begin

text \<open>
  \<open>internal/controller/admission.go\<close>: which Pending workspaces may start, what a failed start
  costs, and what a new leader does with the starts it inherits.

  The admission decision is split as the code splits it: the guards that need only the workspace
  and the app (\<open>TryAdmit\<close>), and the ranking of one listing of the app's workspaces
  (\<open>admitDecision\<close>, the part of the body after the List call). Shown here: the exact backoff,
  free of overflow; that no listing ever admits more starts than free slots, that admission is
  first-in first-out and that the head of the queue is admitted whenever a slot is free; that a
  start failure never writes a phase; that taking the lease extends deadlines by exactly the
  leaderless interval.
\<close>

section \<open>Backoff\<close>

definition admissionBaseBackoff :: duration where
  "admissionBaseBackoff = 5 * second"

text \<open>The loop of \<open>backoffDuration\<close>, with its number of remaining iterations; it leaves the loop
  early with the cap, \<open>Inl\<close>, or ends it with the doubled interval, \<open>Inr\<close>.\<close>

fun backoffLoop :: "nat \<Rightarrow> duration \<Rightarrow> duration \<Rightarrow> duration + duration" where
  "backoffLoop 0 d backoffMax = Inr d"
| "backoffLoop (Suc n) d backoffMax =
     (if d > goDiv backoffMax 2 then Inl backoffMax else backoffLoop n (wrap64 (d * 2)) backoffMax)"

definition backoffDuration :: "int \<Rightarrow> duration \<Rightarrow> duration" where
  "backoffDuration failures backoffMax =
     (let failures = (if failures < 1 then 1 else failures) in
      case backoffLoop (nat (failures - 1)) admissionBaseBackoff backoffMax of
        Inl r \<Rightarrow> r
      | Inr d \<Rightarrow> if d > backoffMax then backoffMax else d)"

section \<open>Admission\<close>

definition enqueueKey :: "workspace \<Rightarrow> gotime" where
  "enqueueKey w =
     (case EnqueuedAt (wsStatus w) of Some t \<Rightarrow> t | None \<Rightarrow> CreationTimestamp (wsMeta w))"

definition holdsSlot :: "workspace \<Rightarrow> bool" where
  "holdsSlot w \<longleftrightarrow> phase w = PhaseStarting \<and> BackoffUntil (wsStatus w) = None"

definition occupied :: "workspace list \<Rightarrow> int" where
  "occupied items = int (length (filter holdsSlot items))"

definition candidates :: "workspace list \<Rightarrow> workspace list" where
  "candidates items = filter (\<lambda>w. phase w = PhasePending) items"

definition admissionSlots :: "perUserApp \<Rightarrow> workspace list \<Rightarrow> int" where
  "admissionSlots app items = MaxConcurrentStarts (spLimits (appSpec app)) - occupied items"

definition sameObject :: "objectMeta \<Rightarrow> objectMeta \<Rightarrow> bool" where
  "sameObject a b \<longleftrightarrow> Namespace a = Namespace b \<and> Name a = Name b"

definition admitDecision :: "workspace \<Rightarrow> perUserApp \<Rightarrow> workspace list \<Rightarrow> bool" where
  "admitDecision ws app items =
     (let slots = admissionSlots app items in
      if slots \<le> 0 then False
      else list_ex (\<lambda>w. sameObject (wsMeta w) (wsMeta ws))
             (take (nat slots) (sort_key enqueueKey (candidates items))))"

definition migrationGate :: "('s, 'x) env_scheme \<Rightarrow> perUserApp \<Rightarrow> bool" where
  "migrationGate env app =
     (case findStatusCondition env (apConditions (appStatus app)) CondMigrationComplete of
        Some cond \<Rightarrow> cdStatus cond \<noteq> ConditionTrue
      | None \<Rightarrow> False)"

definition inBackoff :: "('s, 'x) env_scheme \<Rightarrow> workspace \<Rightarrow> ('s, bool) m" where
  "inBackoff env ws =
     (case BackoffUntil (wsStatus ws) of
        None \<Rightarrow> ret False
      | Some until \<Rightarrow> do { t \<leftarrow> now env; ret (t < until) })"

definition TryAdmit ::
    "('s, 'x) env_scheme \<Rightarrow> workspace \<Rightarrow> perUserApp \<Rightarrow> ('s, error + bool) m" where
  "TryAdmit env ws app =
     (if migrationGate env app then ret (Inr False)
      else do {
        backoff \<leftarrow> inBackoff env ws;
        if backoff then ret (Inr False)
        else do {
          r \<leftarrow> doList (workspaces env) KWorkspace (Namespace (wsMeta ws)) [(LabelApp, appName app)];
          case r of
            Inl e \<Rightarrow> ret (Inl e)
          | Inr items \<Rightarrow> ret (Inr (admitDecision ws app items))
        }
      })"

section \<open>Start failures\<close>

text \<open>The error, if any, and the caller's workspace afterwards: \<open>ws\<close> is mutated through its
  pointer, and only after the patch succeeded.\<close>

definition RecordStartFailure ::
    "('s, 'x) env_scheme \<Rightarrow> workspace \<Rightarrow> perUserApp \<Rightarrow> string \<Rightarrow> ('s, error option \<times> workspace) m" where
  "RecordStartFailure env ws app reason = do {
     t \<leftarrow> now env;
     let failures = wrap32 (ConsecutiveFailures (wsStatus ws) + 1);
     let until = t + backoffDuration failures (BackoffMax (spLifecycle (appSpec app)));
     let patchTarget = setStatus (\<lambda>s. s\<lparr>ConsecutiveFailures := failures, BackoffUntil := Some until\<rparr>) ws;
     r \<leftarrow> doStatusPatch (workspaces env) WsObj ws patchTarget;
     case r of
       Inl e \<Rightarrow> ret (Some e, ws)
     | Inr stored \<Rightarrow> do {
         let ws' = setStatus (\<lambda>s. s\<lparr>ConsecutiveFailures := ConsecutiveFailures (wsStatus stored),
                                    BackoffUntil := BackoffUntil (wsStatus stored)\<rparr>) ws;
         let ws'' = ws'\<lparr>wsMeta := (wsMeta ws')\<lparr>ResourceVersion := ResourceVersion (wsMeta stored)\<rparr>\<rparr>;
         record_metric (RecordStartFailureMetric (Namespace (wsMeta ws)) (appName app) reason);
         ret (None, ws'')
       }
   }"

section \<open>Taking the lease\<close>

definition extendDeadline :: "('s, 'x) env_scheme \<Rightarrow> duration \<Rightarrow> workspace \<Rightarrow> ('s, error option) m" where
  "extendDeadline env leaderless ws =
     (case StartDeadline (wsStatus ws) of
        None \<Rightarrow> ret None
      | Some deadline \<Rightarrow> do {
          r \<leftarrow> doStatusPatch (workspaces env) WsObj ws
                 (setStatus (\<lambda>s. s\<lparr>StartDeadline := Some (deadline + leaderless)\<rparr>) ws);
          ret (errOf r)
        })"

definition inheritStart :: "('s, 'x) env_scheme \<Rightarrow> duration \<Rightarrow> workspace \<Rightarrow> ('s, error option) m" where
  "inheritStart env leaderless ws =
     (if phase ws \<noteq> PhaseStarting then ret None
      else do {
        let ns = Namespace (wsMeta ws);
        ra \<leftarrow> doGet (perUserApps env) KPerUserApp (ns, wsAppRef (wsSpec ws));
        case ra of
          Inl e \<Rightarrow> ret (if IsNotFound e then None else Some e)
        | Inr app \<Rightarrow> do {
            rd \<leftarrow> doGet (deployments env) KDeployment (ns, ChildName (appName app) (wsUserKey (wsSpec ws)));
            case rd of
              Inl e \<Rightarrow>
                if IsNotFound e
                then do { r \<leftarrow> RecordStartFailure env ws app StartFailureOrphaned; ret (fst r) }
                else ret (Some e)
            | Inr dep \<Rightarrow> extendDeadline env leaderless ws
          }
      })"

fun inheritStarts ::
    "('s, 'x) env_scheme \<Rightarrow> duration \<Rightarrow> workspace list \<Rightarrow> ('s, error option) m" where
  "inheritStarts env leaderless [] = ret None"
| "inheritStarts env leaderless (ws # rest) = do {
     r \<leftarrow> inheritStart env leaderless ws;
     case r of
       Some e \<Rightarrow> ret (Some e)
     | None \<Rightarrow> inheritStarts env leaderless rest
   }"

definition OnLeaseAcquired :: "('s, 'x) env_scheme \<Rightarrow> duration \<Rightarrow> ('s, error option) m" where
  "OnLeaseAcquired env leaderless = do {
     r \<leftarrow> doList (workspaces env) KWorkspace [] [];
     case r of
       Inl e \<Rightarrow> ret (Some e)
     | Inr items \<Rightarrow> inheritStarts env leaderless items
   }"

section \<open>The backoff interval\<close>

lemma doubling_fits:
  assumes "in_int64 backoffMax" and "0 < d" and "d \<le> goDiv backoffMax 2"
  shows "0 \<le> backoffMax \<and> d * 2 \<le> backoffMax \<and> in_int64 (d * 2)"
proof -
  have "0 \<le> backoffMax"
  proof (rule ccontr)
    assume "\<not> 0 \<le> backoffMax"
    then have "goDiv backoffMax 2 \<le> 0" by (simp add: goDiv_def)
    with assms show False by linarith
  qed
  then have "d * 2 \<le> backoffMax" using assms by (simp add: goDiv_nonneg)
  then show ?thesis using assms \<open>0 \<le> backoffMax\<close> by (simp add: in_int64_def)
qed

lemma not_doubling_exceeds:
  assumes "0 < d" and "goDiv backoffMax 2 < d"
  shows "backoffMax < d * 2"
proof (cases "0 \<le> backoffMax")
  case True
  then have "backoffMax div 2 < d" using assms by (simp add: goDiv_nonneg)
  then show ?thesis by linarith
next
  case False
  then show ?thesis using assms by linarith
qed

lemma backoffLoop_spec:
  assumes "in_int64 backoffMax" and "0 < d"
  shows "(case backoffLoop n d backoffMax of Inl r \<Rightarrow> r | Inr e \<Rightarrow> if e > backoffMax then backoffMax else e)
       = min (d * 2 ^ n) backoffMax"
  using assms(2)
proof (induction n arbitrary: d)
  case 0
  then show ?case by simp
next
  case (Suc n)
  show ?case
  proof (cases "d > goDiv backoffMax 2")
    case True
    have "backoffMax < d * 2" using not_doubling_exceeds Suc.prems True by blast
    also have "\<dots> \<le> d * 2 ^ Suc n" using Suc.prems by simp
    finally show ?thesis using True by simp
  next
    case False
    with doubling_fits [OF assms(1) Suc.prems] have "wrap64 (d * 2) = d * 2" by simp
    with Suc.IH [of "d * 2"] Suc.prems False show ?thesis by (simp add: mult.assoc)
  qed
qed

text \<open>Claim C36. The backoff for the n-th consecutive failure is exactly five seconds doubled n-1 times,
  capped at the app's backoffMax, for every failure count and every cap that fits an int64: the
  doubling in the loop never overflows.\<close>

theorem backoff_exact:
  assumes "in_int64 backoffMax"
  shows "backoffDuration failures backoffMax = min (5 * second * 2 ^ nat (failures - 1)) backoffMax"
proof -
  have "0 < admissionBaseBackoff" by (simp add: admissionBaseBackoff_def second_def)
  from backoffLoop_spec [OF assms this] show ?thesis
    by (cases "failures < 1") (simp_all add: backoffDuration_def Let_def admissionBaseBackoff_def)
qed

theorem backoff_exact_witness:
  "backoffDuration 4 (300 * second) = 40 * second \<and> backoffDuration 40 (300 * second) = 300 * second"
proof -
  have cap: "in_int64 (300 * second)" by (simp add: in_int64_def second_def)
  show ?thesis
    using backoff_exact [OF cap, of 4] backoff_exact [OF cap, of 40] by (simp add: second_def)
qed

section \<open>The admission decision\<close>

lemma sameObject_iff: "sameObject (wsMeta v) (wsMeta w) \<longleftrightarrow> wsKey v = wsKey w"
  by (auto simp: sameObject_def wsKey_def)

definition admissionQueue :: "workspace list \<Rightarrow> workspace list" where
  "admissionQueue items = sort_key enqueueKey (candidates items)"

lemma set_admissionQueue [simp]: "set (admissionQueue items) = set (candidates items)"
  by (simp add: admissionQueue_def)

lemma length_admissionQueue [simp]: "length (admissionQueue items) = length (candidates items)"
  by (simp add: admissionQueue_def)

lemma distinct_candidates:
  "distinct (map wsKey items) \<Longrightarrow> distinct (candidates items) \<and> inj_on wsKey (set (candidates items))"
  unfolding candidates_def by (metis distinct_map distinct_map_filter)

lemma distinct_admissionQueue:
  "distinct (map wsKey items) \<Longrightarrow> distinct (admissionQueue items)"
  using distinct_candidates by (simp add: admissionQueue_def)

text \<open>With no two workspaces of one name in the listing, a candidate is admitted exactly if it is
  among the first \<open>slots\<close> of the queue.\<close>

lemma admitDecision_iff:
  assumes "distinct (map wsKey items)" and "w \<in> set (candidates items)"
  shows "admitDecision w app items \<longleftrightarrow> w \<in> set (take (nat (admissionSlots app items)) (admissionQueue items))"
proof -
  let ?q = "take (nat (admissionSlots app items)) (admissionQueue items)"
  have inj: "inj_on wsKey (set (candidates items))" using distinct_candidates assms(1) by blast
  have "set ?q \<subseteq> set (candidates items)" by (metis set_admissionQueue set_take_subset)
  with inj assms(2) have "list_ex (\<lambda>v. wsKey v = wsKey w) ?q \<longleftrightarrow> w \<in> set ?q"
    by (auto simp: list_ex_iff inj_on_def)
  moreover have "?q = []" if "admissionSlots app items \<le> 0" using that by simp
  ultimately show ?thesis
    by (auto simp: admitDecision_def Let_def sameObject_iff admissionQueue_def)
qed

lemma admitted_set:
  assumes "distinct (map wsKey items)"
  shows "set (filter (\<lambda>w. admitDecision w app items) (candidates items)) =
    set (take (nat (admissionSlots app items)) (admissionQueue items))"
  using admitDecision_iff [OF assms] set_take_subset [of _ "admissionQueue items"] by auto

lemma admitted_count:
  assumes "distinct (map wsKey items)"
  shows "length (filter (\<lambda>w. admitDecision w app items) (candidates items)) =
    min (nat (MaxConcurrentStarts (spLimits (appSpec app)) - occupied items)) (length (candidates items))"
proof -
  let ?adm = "filter (\<lambda>w. admitDecision w app items) (candidates items)"
  let ?n = "nat (admissionSlots app items)"
  have "distinct ?adm" using distinct_candidates assms by simp
  then have "length ?adm = card (set ?adm)" by (simp only: distinct_card)
  also have "\<dots> = card (set (take ?n (admissionQueue items)))" by (simp only: admitted_set [OF assms])
  also have "\<dots> = length (take ?n (admissionQueue items))"
    using distinct_admissionQueue [OF assms] by (intro distinct_card) simp
  finally show ?thesis by (simp add: admissionSlots_def min.commute)
qed

lemma admitted_before:
  assumes "distinct (map wsKey items)" and "v \<in> set (candidates items)" and "w \<in> set (candidates items)"
    and "admitDecision v app items" and "\<not> admitDecision w app items"
  shows "enqueueKey v \<le> enqueueKey w"
proof -
  let ?n = "nat (admissionSlots app items)"
  have "v \<in> set (take ?n (admissionQueue items))" using assms by (simp add: admitDecision_iff)
  moreover have "w \<in> set (drop ?n (admissionQueue items))"
  proof -
    have "w \<in> set (take ?n (admissionQueue items) @ drop ?n (admissionQueue items))" using assms by simp
    with assms show ?thesis unfolding set_append by (simp add: admitDecision_iff)
  qed
  ultimately show ?thesis unfolding admissionQueue_def by (rule take_sort_key_le)
qed

text \<open>Claim C22. Admission fills the free start slots exactly and in order: of the Pending workspaces in one listing,
  the number admitted is the smaller of the number of candidates and maxConcurrentStarts minus the starts in
  progress, so the bound is never exceeded and no slot stays free while a workspace waits; and one that is
  admitted never has a later queue key (status.enqueuedAt, or the creation time) than one that is left waiting.\<close>

theorem admission_fills_slots:
  assumes "distinct (map wsKey items)"
  shows "length (filter (\<lambda>w. admitDecision w app items) (candidates items)) =
      min (nat (MaxConcurrentStarts (spLimits (appSpec app)) - occupied items)) (length (candidates items)) \<and>
    (\<forall>v\<in>set (candidates items). \<forall>w\<in>set (candidates items).
       admitDecision v app items \<and> \<not> admitDecision w app items \<longrightarrow> enqueueKey v \<le> enqueueKey w)"
  using admitted_count [OF assms] admitted_before [OF assms] by blast

text \<open>Three waiting workspaces, one start in progress, two slots.\<close>

definition sampleListing :: "workspace list" where
  "sampleListing = [startingWs ''u1'', pendingWs ''u2'' 20, pendingWs ''u3'' 10, pendingWs ''u4'' 30]"

lemma sampleListing_distinct: "distinct (map wsKey sampleListing)"
  by (simp add: sampleListing_def wsKey_def sample_defs)

lemma sampleListing_counts:
  "occupied sampleListing = 1"
  "candidates sampleListing = [pendingWs ''u2'' 20, pendingWs ''u3'' 10, pendingWs ''u4'' 30]"
  by (simp_all add: sampleListing_def occupied_def candidates_def holdsSlot_def sample_defs)

theorem admission_fills_slots_witness:
  "length (filter (\<lambda>w. admitDecision w sampleApp sampleListing) (candidates sampleListing)) = 1 \<and>
   admitDecision (pendingWs ''u3'' 10) sampleApp sampleListing \<and> \<not> admitDecision (pendingWs ''u2'' 20) sampleApp sampleListing \<and>
   enqueueKey (pendingWs ''u3'' 10) \<le> enqueueKey (pendingWs ''u2'' 20)"
proof -
  have adm: "admitDecision (pendingWs ''u3'' 10) sampleApp sampleListing"
    "\<not> admitDecision (pendingWs ''u2'' 20) sampleApp sampleListing"
    by (simp_all add: admitDecision_def admissionSlots_def sampleListing_counts enqueueKey_def
        sameObject_def sample_defs)
  note both = admission_fills_slots [OF sampleListing_distinct, of sampleApp]
  have "length (filter (\<lambda>w. admitDecision w sampleApp sampleListing) (candidates sampleListing)) = 1"
    by (subst both [THEN conjunct1]) (simp add: sampleListing_counts sample_defs)
  then show ?thesis using both [THEN conjunct2] adm by (simp add: sampleListing_counts)
qed

section \<open>What a failed start writes\<close>

text \<open>The only write of \<open>RecordStartFailure\<close>: the two fields it owns, nothing else.\<close>

definition failurePatch :: "perUserApp \<Rightarrow> workspace \<Rightarrow> gotime \<Rightarrow> workspace" where
  "failurePatch app ws t = setStatus (\<lambda>s. s\<lparr>ConsecutiveFailures := wrap32 (ConsecutiveFailures s + 1),
     BackoffUntil := Some (t + backoffDuration (wrap32 (ConsecutiveFailures s + 1))
                             (BackoffMax (spLifecycle (appSpec app))))\<rparr>) ws"

definition ownsOnlyFailure :: "workspace \<Rightarrow> workspace \<Rightarrow> bool" where
  "ownsOnlyFailure ws ws' \<longleftrightarrow>
     wsStatus ws' = (wsStatus ws)\<lparr>ConsecutiveFailures := ConsecutiveFailures (wsStatus ws'),
       BackoffUntil := BackoffUntil (wsStatus ws')\<rparr> \<and>
     wsSpec ws' = wsSpec ws \<and>
     wsMeta ws' = (wsMeta ws)\<lparr>ResourceVersion := ResourceVersion (wsMeta ws')\<rparr>"

lemma ownsOnlyFailure_refl [simp]: "ownsOnlyFailure ws ws"
  by (simp add: ownsOnlyFailure_def)

lemma ownsOnlyFailure_status:
  assumes "ownsOnlyFailure ws ws'"
  shows "phase ws' = phase ws" "LargestObservedSize (wsStatus ws') = LargestObservedSize (wsStatus ws)"
    "wsSpec ws' = wsSpec ws" "Namespace (wsMeta ws') = Namespace (wsMeta ws)" "Name (wsMeta ws') = Name (wsMeta ws)"
proof -
  from assms have st: "wsStatus ws' = (wsStatus ws)\<lparr>ConsecutiveFailures := ConsecutiveFailures (wsStatus ws'),
       BackoffUntil := BackoffUntil (wsStatus ws')\<rparr>"
    and mt: "wsMeta ws' = (wsMeta ws)\<lparr>ResourceVersion := ResourceVersion (wsMeta ws')\<rparr>"
    and sp: "wsSpec ws' = wsSpec ws"
    by (simp_all add: ownsOnlyFailure_def)
  show "phase ws' = phase ws" by (subst st) simp
  show "LargestObservedSize (wsStatus ws') = LargestObservedSize (wsStatus ws)" by (subst st) simp
  show "wsSpec ws' = wsSpec ws" by (rule sp)
  show "Namespace (wsMeta ws') = Namespace (wsMeta ws)" by (subst mt) simp
  show "Name (wsMeta ws') = Name (wsMeta ws)" by (subst mt) simp
qed

lemma RecordStartFailure_obeys:
  "obeys (RecordStartFailure env ws app reason)
     (\<lambda>(err, ws') es. ownsOnlyFailure ws ws' \<and>
        (\<exists>t. es = Api (StatusPatch (WsObj ws) (WsObj (failurePatch app ws t))) err #
           (if err = None then [Metric (RecordStartFailureMetric (Namespace (wsMeta ws)) (appName app) reason)]
            else [])))"
  unfolding RecordStartFailure_def
  by (intro obeys_rules) (auto simp: ownsOnlyFailure_def failurePatch_def setStatus_def)

text \<open>Recording a start failure performs exactly one API call, a status patch whose only
  difference is the incremented failure count and the armed backoffUntil; the start-failure metric
  is recorded exactly if that patch succeeded, for the given reason; and in the caller's object only
  those two fields and the resource version can change, so the phase is never written.\<close>

theorem record_start_failure_contract:
  "obeys (RecordStartFailure env ws app reason)
     (\<lambda>(err, ws') es. ownsOnlyFailure ws ws' \<and>
        (\<exists>t. es = Api (StatusPatch (WsObj ws) (WsObj (failurePatch app ws t))) err #
           (if err = None then [Metric (RecordStartFailureMetric (Namespace (wsMeta ws)) (appName app) reason)]
            else [])))"
  by (rule RecordStartFailure_obeys)

section \<open>What a new leader writes\<close>

text \<open>The writes of the lease-acquisition sweep: a failure record, or a deadline moved by exactly the
  leaderless interval, both on a Starting workspace.\<close>

fun leaseWrite :: "duration \<Rightarrow> event \<Rightarrow> bool" where
  "leaseWrite leaderless (Api (StatusPatch (WsObj b) (WsObj x)) _) \<longleftrightarrow>
     phase b = PhaseStarting \<and>
     ((\<exists>app t. x = failurePatch app b t) \<or>
      (\<exists>d. StartDeadline (wsStatus b) = Some d \<and>
           x = setStatus (\<lambda>s. s\<lparr>StartDeadline := Some (d + leaderless)\<rparr>) b))"
| "leaseWrite leaderless (Api c _) \<longleftrightarrow> is_read c"
| "leaseWrite leaderless (Metric mt) \<longleftrightarrow> (\<exists>ns app. mt = RecordStartFailureMetric ns app StartFailureOrphaned)"
| "leaseWrite leaderless _ \<longleftrightarrow> False"

lemma emits_RecordStartFailure:
  assumes "\<And>t er. P (Api (StatusPatch (WsObj ws) (WsObj (failurePatch app ws t))) er)"
    and "P (Metric (RecordStartFailureMetric (Namespace (wsMeta ws)) (appName app) reason))"
  shows "emits P (RecordStartFailure env ws app reason)"
  unfolding emits_def
  by (rule obeys_mono [OF RecordStartFailure_obeys]) (auto simp: assms)

lemma inheritStart_writes: "emits (leaseWrite leaderless) (inheritStart env leaderless ws)"
  unfolding inheritStart_def extendDeadline_def
  by (intro emits_rules emits_RecordStartFailure) auto

lemma inheritStarts_writes: "emits (leaseWrite leaderless) (inheritStarts env leaderless items)"
  by (induction items) (auto intro!: emits_rules inheritStart_writes)

lemma OnLeaseAcquired_writes: "emits (leaseWrite leaderless) (OnLeaseAcquired env leaderless)"
  unfolding OnLeaseAcquired_def by (intro emits_rules inheritStarts_writes) auto

end
