(* ===== verification/Render.thy ===== *)
theory Render
  imports Cluster Identity
begin

text \<open>
  \<open>internal/controller/render.go\<close>: the pure functions from a PerUserApp and a Workspace to the
  Kubernetes objects of one user (Deployment, Service, PersistentVolumeClaim, NetworkPolicies) and
  of the app's router, and the validation of a PerUserApp. One definition per Go function.
  \<open>json.Marshal\<close> of a Deployment spec is the environment's \<open>jsonMarshal\<close>, since the encoding is
  that of the Kubernetes API types; an error or warning of \<open>ValidateApp\<close> is a constructor that
  carries what its text names.
\<close>

section \<open>Labels, owners, names\<close>

definition RouterPodLabels :: "string \<Rightarrow> strmap" where
  "RouterPodLabels app =
     [(LabelApp, app), (LabelComponent, ComponentRouter), (LabelPartOf, PartOfValue)]"

definition WorkspacePodLabels :: "string \<Rightarrow> string \<Rightarrow> strmap" where
  "WorkspacePodLabels app userKey =
     [(LabelApp, app), (LabelUserKey, userKey), (LabelComponent, ComponentWorkspace),
      (LabelPartOf, PartOfValue)]"

definition groupVersion :: string where
  "groupVersion = ''apps.kettleofketchup/v1alpha1''"

definition controllerRef :: "objectMeta \<Rightarrow> string \<Rightarrow> ownerReference" where
  "controllerRef m k = \<lparr>orAPIVersion = groupVersion, orKind = k, orName = Name m, orUID = UID m,
     orController = True\<rparr>"

definition workspaceOwnerRef :: "workspace \<Rightarrow> ownerReference" where
  "workspaceOwnerRef ws = controllerRef (wsMeta ws) ''Workspace''"

definition appOwnerRef :: "perUserApp \<Rightarrow> ownerReference" where
  "appOwnerRef app = controllerRef (appMeta app) ''PerUserApp''"

definition childName :: "perUserApp \<Rightarrow> workspace \<Rightarrow> string" where
  "childName app ws = ChildName (appName app) (wsUserKey (wsSpec ws))"

definition routerServiceAccountName :: "perUserApp \<Rightarrow> string" where
  "routerServiceAccountName app = appName app @ ''-router''"
definition routerName :: "perUserApp \<Rightarrow> string" where
  "routerName app = appName app @ ''-router''"
definition workspaceServiceAccountName :: "perUserApp \<Rightarrow> string" where
  "workspaceServiceAccountName app = appName app @ ''-workspace''"

section \<open>The seeder's command\<close>

text \<open>\<open>strings.ReplaceAll(s, "'", "'\\''")\<close> between single quotes.\<close>

definition quoteChar :: char where
  "quoteChar = CHR 0x27"

definition shellSingleQuote :: "string \<Rightarrow> string" where
  "shellSingleQuote s =
     [quoteChar] @
     concat (map (\<lambda>c. if c = quoteChar then [quoteChar, CHR 0x5C, quoteChar, quoteChar] else [c]) s) @
     [quoteChar]"

definition seedScript :: "string \<Rightarrow> string \<Rightarrow> string" where
  "seedScript from stagingMountPath =
     (let src = shellSingleQuote from; dst = shellSingleQuote (stagingMountPath @ ''/'') in
      if from = ''.'' \<or> HasSuffix from ''/.'' then
        ''set -e'' @ [CHR 0x0A] @ ''cd '' @ src @ [CHR 0x0A] @
        ''for e in .[!.]* ..?* *; do [ -e '' @ [CHR 0x22] @ ''$e'' @ [CHR 0x22] @
        '' ] || continue; cp -an '' @ [CHR 0x22] @ ''$e'' @ [CHR 0x22] @ '' '' @ dst @ ''; done''
      else ''cp -an '' @ src @ '' '' @ dst)"

section \<open>The workspace Deployment\<close>

definition defaultTerminationGracePeriodSeconds :: int where
  "defaultTerminationGracePeriodSeconds = 10"

text \<open>\<open>resource.MustParse("16Mi")\<close>\<close>

definition defaultMemoryEmptyDirSizeLimit :: quantity where
  "defaultMemoryEmptyDirSizeLimit = 16 * 1024 * 1024"

definition withDefaultedMemoryEmptyDir :: "volume list \<Rightarrow> volume list" where
  "withDefaultedMemoryEmptyDir vols =
     map (\<lambda>v. case vsEmptyDir (volSource v) of
            Some ed \<Rightarrow>
              if edMedium ed = ''Memory'' \<and> edSizeLimit ed = None
              then v\<lparr>volSource := (volSource v)\<lparr>vsEmptyDir :=
                     Some (ed\<lparr>edSizeLimit := Some defaultMemoryEmptyDirSizeLimit\<rparr>)\<rparr>\<rparr>
              else v
          | None \<Rightarrow> v) vols"

definition resolveProbePort :: "perUserApp \<Rightarrow> int" where
  "resolveProbePort app =
     (let wt = spWorkspace (appSpec app) in
      case wtReadinessProbe wt of
        None \<Rightarrow> wtPort wt
      | Some p \<Rightarrow> (case prHTTPGetPort p of
            None \<Rightarrow> wtPort wt
          | Some (IntVal i) \<Rightarrow> if i > 0 then i else wtPort wt
          | Some (StrVal _) \<Rightarrow> wtPort wt))"

definition WorkspaceSpecHash :: "('s, 'x) env_scheme \<Rightarrow> deploymentSpec \<Rightarrow> string" where
  "WorkspaceSpecHash env spec =
     EncodeToString (Sum256 (map byteval (jsonMarshal env (spec\<lparr>dsReplicas := None\<rparr>))))"

definition seedContainer :: "perUserApp \<Rightarrow> seedSpec \<Rightarrow> container" where
  "seedContainer app seed =
     (let wt = spWorkspace (appSpec app) in
      zeroContainer\<lparr>ctName := ''seed'', ctImage := wtImage wt,
        ctImagePullPolicy := wtImagePullPolicy wt,
        ctCommand := [''sh'', ''-c'', seedScript (seedFrom seed) (StagingMountPath seed)],
        ctVolumeMounts := [\<lparr>vmName = PVCVolumeName, vmMountPath = StagingMountPath seed, vmReadOnly = False\<rparr>]\<rparr>)"

definition workspaceContainer :: "perUserApp \<Rightarrow> container" where
  "workspaceContainer app =
     (let wt = spWorkspace (appSpec app) in
      \<lparr>ctName = ''workspace'', ctImage = wtImage wt, ctImagePullPolicy = wtImagePullPolicy wt,
       ctPorts = [(''http'', wtPort wt)], ctEnv = wtEnv wt, ctEnvFrom = wtEnvFrom wt,
       ctResources = wtResources wt, ctSecurityContext = Some (wtSecurityContext wt),
       ctCommand = wtCommand wt, ctArgs = wtArgs wt, ctReadinessProbe = wtReadinessProbe wt,
       ctLivenessProbe = wtLivenessProbe wt,
       ctVolumeMounts = \<lparr>vmName = PVCVolumeName, vmMountPath = stMountPath (spStorage (appSpec app)),
                         vmReadOnly = False\<rparr> # wtVolumeMounts wt\<rparr>)"

definition workspaceDeploymentSpec :: "perUserApp \<Rightarrow> workspace \<Rightarrow> deploymentSpec" where
  "workspaceDeploymentSpec app ws =
     (let wt = spWorkspace (appSpec app);
          podLabels = WorkspacePodLabels (appName app) (wsUserKey (wsSpec ws));
          termGrace = (case wtTerminationGracePeriodSeconds wt of
                         None \<Rightarrow> Some defaultTerminationGracePeriodSeconds | Some g \<Rightarrow> Some g);
          pvcVolume = \<lparr>volName = PVCVolumeName,
                       volSource = zeroVolumeSource\<lparr>vsPersistentVolumeClaim := Some (childName app ws)\<rparr>\<rparr>;
          initContainers = (case stSeed (spStorage (appSpec app)) of
                              None \<Rightarrow> [] | Some seed \<Rightarrow> [seedContainer app seed]) @ wtInitContainers wt;
          sa = (if wtServiceAccountName wt = [] then appName app @ ''-workspace''
                else wtServiceAccountName wt)
      in \<lparr>dsReplicas = Some (if ScaledDown (wsStatus ws) then 0 else 1),
          dsSelector = podLabels, dsStrategy = ''Recreate'', dsTemplateLabels = podLabels,
          dsPodSpec =
            \<lparr>psServiceAccountName = sa, psAutomountServiceAccountToken = Some False,
             psSecurityContext = Some (wtPodSecurityContext wt), psInitContainers = initContainers,
             psContainers = [workspaceContainer app],
             psVolumes = pvcVolume # withDefaultedMemoryEmptyDir (wtVolumes wt),
             psNodeSelector = wtNodeSelector wt, psTolerations = wtTolerations wt,
             psTerminationGracePeriodSeconds = termGrace\<rparr>\<rparr>)"

definition RenderWorkspaceDeployment ::
    "('s, 'x) env_scheme \<Rightarrow> perUserApp \<Rightarrow> workspace \<Rightarrow> deployment" where
  "RenderWorkspaceDeployment env app ws =
     \<lparr>depMeta = zeroMeta\<lparr>Name := childName app ws, Namespace := Namespace (wsMeta ws),
        Labels := WorkspacePodLabels (appName app) (wsUserKey (wsSpec ws)),
        OwnerReferences := [workspaceOwnerRef ws],
        Annotations := [(AnnSpecHash, WorkspaceSpecHash env (workspaceDeploymentSpec app ws))]\<rparr>,
      depSpec = workspaceDeploymentSpec app ws,
      depReadyReplicas = 0\<rparr>"

section \<open>Service and PersistentVolumeClaim\<close>

definition RenderWorkspaceService :: "perUserApp \<Rightarrow> workspace \<Rightarrow> service" where
  "RenderWorkspaceService app ws =
     (let podLabels = WorkspacePodLabels (appName app) (wsUserKey (wsSpec ws)) in
      \<lparr>svcMeta = zeroMeta\<lparr>Name := childName app ws, Namespace := Namespace (wsMeta ws),
         Labels := podLabels, OwnerReferences := [workspaceOwnerRef ws]\<rparr>,
       svcType = ''ClusterIP'', svcSelector = podLabels,
       svcPorts = [\<lparr>spName = ''http'', spPort = wtPort (spWorkspace (appSpec app)),
                    spTargetPort = StrVal ''http''\<rparr>],
       svcClusterIP = []\<rparr>)"

definition ReadWriteOncePod :: string where
  "ReadWriteOncePod = ''ReadWriteOncePod''"

definition RenderWorkspacePVC :: "perUserApp \<Rightarrow> workspace \<Rightarrow> persistentVolumeClaim" where
  "RenderWorkspacePVC app ws =
     zeroPVC\<lparr>pvcMeta := zeroMeta\<lparr>Name := childName app ws, Namespace := Namespace (wsMeta ws),
         Labels := [(LabelApp, appName app), (LabelUserKey, wsUserKey (wsSpec ws))],
         Annotations := [(''argocd.argoproj.io/sync-options'', ''Prune=false''),
                         (''helm.sh/resource-policy'', ''keep''),
                         (AnnUserDisplay, lookupStr (Annotations (wsMeta ws)) AnnUserDisplay)]\<rparr>,
       pvcAccessModes := [ReadWriteOncePod],
       pvcStorageClassName := Some (stStorageClassName (spStorage (appSpec app))),
       pvcRequest := Some (stSize (spStorage (appSpec app)))\<rparr>"

section \<open>NetworkPolicies\<close>

definition zeroPeer :: networkPolicyPeer where
  "zeroPeer = \<lparr>IPBlock = None, PodSelector = None, NamespaceSelector = None\<rparr>"

definition podPeer :: "strmap \<Rightarrow> networkPolicyPeer" where
  "podPeer ls = zeroPeer\<lparr>PodSelector := Some \<lparr>MatchLabels = ls, MatchExpressions = []\<rparr>\<rparr>"

definition cidrPeer :: "string \<Rightarrow> networkPolicyPeer" where
  "cidrPeer cidr = zeroPeer\<lparr>IPBlock := Some (cidr, [])\<rparr>"

definition portOnly :: "int \<Rightarrow> networkPolicyPort" where
  "portOnly p = \<lparr>npProtocol = None, npPort = Some (IntVal p)\<rparr>"

definition dnsEgressRule :: egressRule where
  "dnsEgressRule = \<lparr>egTo = [],
     egPorts = [\<lparr>npProtocol = Some ''UDP'', npPort = Some (IntVal 53)\<rparr>,
                \<lparr>npProtocol = Some ''TCP'', npPort = Some (IntVal 53)\<rparr>]\<rparr>"

definition workspaceIngressPolicy :: "perUserApp \<Rightarrow> workspace \<Rightarrow> string \<Rightarrow> networkPolicy" where
  "workspaceIngressPolicy app ws nodeCIDR =
     \<lparr>npMeta = zeroMeta\<lparr>Name := childName app ws @ ''-ingress'', Namespace := Namespace (wsMeta ws),
        OwnerReferences := [workspaceOwnerRef ws]\<rparr>,
      npPodSelector = WorkspacePodLabels (appName app) (wsUserKey (wsSpec ws)),
      npPolicyTypes = [PolicyTypeIngress],
      npIngress =
        [\<lparr>igFrom = [podPeer (RouterPodLabels (appName app))],
          igPorts = [portOnly (wtPort (spWorkspace (appSpec app)))]\<rparr>,
         \<lparr>igFrom = [cidrPeer nodeCIDR], igPorts = [portOnly (resolveProbePort app)]\<rparr>],
      npEgress = []\<rparr>"

definition workspaceEgressPolicy :: "perUserApp \<Rightarrow> workspace \<Rightarrow> networkPolicy" where
  "workspaceEgressPolicy app ws =
     \<lparr>npMeta = zeroMeta\<lparr>Name := childName app ws @ ''-egress'', Namespace := Namespace (wsMeta ws),
        OwnerReferences := [workspaceOwnerRef ws]\<rparr>,
      npPodSelector = WorkspacePodLabels (appName app) (wsUserKey (wsSpec ws)),
      npPolicyTypes = [PolicyTypeEgress], npIngress = [],
      npEgress = dnsEgressRule # WorkspaceEgress (spNetwork (appSpec app))\<rparr>"

definition RenderWorkspaceNetworkPolicies ::
    "perUserApp \<Rightarrow> workspace \<Rightarrow> string \<Rightarrow> string \<Rightarrow> networkPolicy list" where
  "RenderWorkspaceNetworkPolicies app ws podCIDR nodeCIDR =
     [workspaceIngressPolicy app ws nodeCIDR, workspaceEgressPolicy app ws]"

definition RenderRouterNetworkPolicy :: "perUserApp \<Rightarrow> string \<Rightarrow> string \<Rightarrow> networkPolicy" where
  "RenderRouterNetworkPolicy app podCIDR nodeCIDR =
     (let ri = RouterIngress (spNetwork (appSpec app));
          from = riFrom ri @
            (if FromTraefik ri
             then [zeroPeer\<lparr>NamespaceSelector := Some
                     \<lparr>MatchLabels = [(''kubernetes.io/metadata.name'', ''traefik'')], MatchExpressions = []\<rparr>\<rparr>]
             else [])
      in \<lparr>npMeta = zeroMeta\<lparr>Name := appName app @ ''-router'', Namespace := Namespace (appMeta app),
            OwnerReferences := [appOwnerRef app]\<rparr>,
          npPodSelector = RouterPodLabels (appName app),
          npPolicyTypes = [PolicyTypeIngress, PolicyTypeEgress],
          npIngress = [\<lparr>igFrom = from, igPorts = [portOnly RouterPort]\<rparr>,
                       \<lparr>igFrom = [cidrPeer podCIDR], igPorts = [portOnly MetricsPort]\<rparr>],
          npEgress = [dnsEgressRule, \<lparr>egTo = [cidrPeer nodeCIDR], egPorts = []\<rparr>,
                      \<lparr>egTo = [cidrPeer podCIDR], egPorts = []\<rparr>]\<rparr>)"

section \<open>Router Service and identity objects\<close>

definition RenderRouterService :: "perUserApp \<Rightarrow> service" where
  "RenderRouterService app =
     (let labels = RouterPodLabels (appName app) in
      \<lparr>svcMeta = zeroMeta\<lparr>Name := routerName app, Namespace := Namespace (appMeta app),
         Labels := labels, OwnerReferences := [appOwnerRef app]\<rparr>,
       svcType = ''ClusterIP'', svcSelector = labels,
       svcPorts = [\<lparr>spName = ''http'', spPort = RouterPort, spTargetPort = IntVal RouterPort\<rparr>,
                   \<lparr>spName = ''metrics'', spPort = MetricsPort, spTargetPort = IntVal MetricsPort\<rparr>],
       svcClusterIP = []\<rparr>)"

definition RenderWorkspaceServiceAccount :: "perUserApp \<Rightarrow> serviceAccount" where
  "RenderWorkspaceServiceAccount app =
     \<lparr>saMeta = zeroMeta\<lparr>Name := workspaceServiceAccountName app, Namespace := Namespace (appMeta app),
        Labels := [(LabelApp, appName app), (LabelPartOf, PartOfValue)],
        OwnerReferences := [appOwnerRef app]\<rparr>\<rparr>"

definition RenderRouterServiceAccount :: "perUserApp \<Rightarrow> serviceAccount" where
  "RenderRouterServiceAccount app =
     \<lparr>saMeta = zeroMeta\<lparr>Name := routerServiceAccountName app, Namespace := Namespace (appMeta app),
        Labels := RouterPodLabels (appName app), OwnerReferences := [appOwnerRef app]\<rparr>\<rparr>"

definition RenderRouterRoleBinding :: "perUserApp \<Rightarrow> roleBinding" where
  "RenderRouterRoleBinding app =
     \<lparr>rbMeta = zeroMeta\<lparr>Name := routerName app, Namespace := Namespace (appMeta app),
        Labels := RouterPodLabels (appName app), OwnerReferences := [appOwnerRef app]\<rparr>,
      rbSubjects = [(''ServiceAccount'', routerServiceAccountName app, Namespace (appMeta app))],
      rbRoleRef = (''rbac.authorization.k8s.io'', ''Role'', RouterRoleName)\<rparr>"

section \<open>ValidateApp\<close>

text \<open>The non-nil pointer fields of a volume source, by name, in no particular order: what the
  reflection loop counts.\<close>

definition setSources :: "volumeSource \<Rightarrow> string list" where
  "setSources vs =
     (if vsConfigMap vs \<noteq> None then [''ConfigMap''] else []) @
     (if vsSecret vs \<noteq> None then [''Secret''] else []) @
     (if vsEmptyDir vs \<noteq> None then [''EmptyDir''] else []) @
     (if vsProjected vs \<noteq> None then [''Projected''] else []) @
     (if vsPersistentVolumeClaim vs \<noteq> None then [''PersistentVolumeClaim''] else []) @
     map fst (vsOther vs)"

definition allowedVolumeSource :: "volumeSource \<Rightarrow> bool" where
  "allowedVolumeSource vs =
     (case setSources vs of
        [f] \<Rightarrow> f \<in> set [''ConfigMap'', ''Secret'', ''EmptyDir'', ''Projected'']
      | _ \<Rightarrow> False)"

definition isEmptyLabelSelector :: "labelSelector \<Rightarrow> bool" where
  "isEmptyLabelSelector sel \<longleftrightarrow> length (MatchLabels sel) = 0 \<and> length (MatchExpressions sel) = 0"

datatype configError = VolumeNameReserved | VolumeSourceNotAllowed string
  | ProjectedTokenForbidden string | OperatorServiceAccountForbidden | AutomountTokenRejected
  | FSGroupRequired | RunAsUserRequired | EgressToEmpty nat | EgressPeerUnset nat nat
  | EgressPodSelectorEmpty nat nat | EgressNamespaceSelectorEmpty nat nat
  | EgressAllAddresses nat nat string | RouterIngressOpen | CallerAuthMissing

datatype configWarning = EmptyWorkspaceEgress | NestedMount string string

fun validateVolumes :: "volume list \<Rightarrow> configError option" where
  "validateVolumes [] = None"
| "validateVolumes (v # vs) =
     (if volName v = PVCVolumeName then Some VolumeNameReserved
      else if \<not> allowedVolumeSource (volSource v) then Some (VolumeSourceNotAllowed (volName v))
      else if (case vsProjected (volSource v) of None \<Rightarrow> False
               | Some srcs \<Rightarrow> list_ex (\<lambda>s. pjServiceAccountToken s \<noteq> None) srcs)
        then Some (ProjectedTokenForbidden (volName v))
      else validateVolumes vs)"

fun validatePeers :: "nat \<Rightarrow> nat \<Rightarrow> networkPolicyPeer list \<Rightarrow> configError option" where
  "validatePeers i j [] = None"
| "validatePeers i j (p # ps) =
     (if IPBlock p = None \<and> PodSelector p = None \<and> NamespaceSelector p = None
        then Some (EgressPeerUnset i j)
      else if (case PodSelector p of None \<Rightarrow> False | Some sel \<Rightarrow> isEmptyLabelSelector sel)
              \<and> NamespaceSelector p = None
        then Some (EgressPodSelectorEmpty i j)
      else if (case NamespaceSelector p of None \<Rightarrow> False | Some sel \<Rightarrow> isEmptyLabelSelector sel)
              \<and> (case PodSelector p of None \<Rightarrow> True | Some sel \<Rightarrow> isEmptyLabelSelector sel)
        then Some (EgressNamespaceSelectorEmpty i j)
      else if (case IPBlock p of None \<Rightarrow> False
               | Some (cidr, _) \<Rightarrow> cidr = ''0.0.0.0/0'' \<or> cidr = ''::/0'')
        then Some (EgressAllAddresses i j (case IPBlock p of None \<Rightarrow> [] | Some (cidr, _) \<Rightarrow> cidr))
      else validatePeers i (Suc j) ps)"

fun validateEgress :: "nat \<Rightarrow> egressRule list \<Rightarrow> configError option" where
  "validateEgress i [] = None"
| "validateEgress i (r # rs) =
     (if length (egTo r) = 0 then Some (EgressToEmpty i)
      else case validatePeers i 0 (egTo r) of
             Some e \<Rightarrow> Some e
           | None \<Rightarrow> validateEgress (Suc i) rs)"

definition nestedMountWarnings :: "perUserApp \<Rightarrow> configWarning list" where
  "nestedMountWarnings app =
     (let mp = stMountPath (spStorage (appSpec app)) in
      if mp = [] then []
      else map (\<lambda>v. NestedMount (vmMountPath v) mp)
             (filter (\<lambda>v. HasPrefix (vmMountPath v) (mp @ ''/''))
                (wtVolumeMounts (spWorkspace (appSpec app)))))"

definition ValidateApp :: "perUserApp \<Rightarrow> configError + configWarning list" where
  "ValidateApp app =
     (let wt = spWorkspace (appSpec app); psc = wtPodSecurityContext wt;
          net = spNetwork (appSpec app); ca = spCallerAuth (appSpec app) in
      case validateVolumes (wtVolumes wt) of
        Some e \<Rightarrow> Inl e
      | None \<Rightarrow>
        if wtServiceAccountName wt = OperatorServiceAccountName
          then Inl OperatorServiceAccountForbidden
        else if wtAutomountServiceAccountToken wt = Some True then Inl AutomountTokenRejected
        else if FSGroup psc = None then Inl FSGroupRequired
        else if RunAsNonRoot psc = Some True \<and> RunAsUser psc = None then Inl RunAsUserRequired
        else case validateEgress 0 (WorkspaceEgress net) of
               Some e \<Rightarrow> Inl e
             | None \<Rightarrow>
               if length (riFrom (RouterIngress net)) = 0 \<and> \<not> FromTraefik (RouterIngress net)
                 then Inl RouterIngressOpen
               else if shHeader ca = [] \<or> shSecretName ca = [] then Inl CallerAuthMissing
               else Inr ((if length (WorkspaceEgress net) = 0 then [EmptyWorkspaceEgress] else []) @
                         nestedMountWarnings app))"

end
