(* ===== verification/Workspace_Controller.thy ===== *)
theory Workspace_Controller
  imports Admission Render
begin

text \<open>
  \<open>internal/controller/workspace_controller.go\<close>: the reconciler of one Workspace, the state machine
  Pending, Starting, Ready, Idle, Failed and the user's storage.

  A handler of the code mutates the Workspace it is given through a pointer and returns a result
  or an error; the caller persists the mutated status whether or not there was an error. So a
  handler here returns the pair of its result (\<open>Inl\<close> the error) and the Workspace afterwards.
  \<open>andThen\<close> is the code's \<open>if err != nil { return ctrl.Result{}, err }\<close>.

  The reconciler's admission seam, the Go interface WorkspaceAdmitter, is the record \<open>admitter\<close>
  with its contract as the locale \<open>workspace_admitter\<close>; the reconciler's safety lemmas are proved
  from that contract alone and then instantiated with the real admitter of theory Admission.
\<close>

section \<open>The reconciler and its seam\<close>

record 's admitter =
  tryAdmit :: "workspace \<Rightarrow> perUserApp \<Rightarrow> ('s, error + bool) m"
  recordStartFailure :: "workspace \<Rightarrow> perUserApp \<Rightarrow> string \<Rightarrow> ('s, error option \<times> workspace) m"

definition NewAdmitter :: "('s, 'x) env_scheme \<Rightarrow> 's admitter" where
  "NewAdmitter env = \<lparr>tryAdmit = TryAdmit env, recordStartFailure = RecordStartFailure env\<rparr>"

record 's wsReconciler =
  rAdmitter :: "'s admitter"
  PodCIDR :: string
  NodeCIDR :: string
  PendingRetryInterval :: duration
  StartingPollInterval :: duration
  SteadyStateInterval :: duration

datatype result = Done | RequeueAfter duration

definition defaultPendingRetryInterval :: duration where
  "defaultPendingRetryInterval = 3 * second"
definition defaultStartingPollInterval :: duration where
  "defaultStartingPollInterval = 2 * second"
definition defaultSteadyStateInterval :: duration where
  "defaultSteadyStateInterval = 30 * second"

definition pendingRetryInterval :: "'s wsReconciler \<Rightarrow> duration" where
  "pendingRetryInterval r =
     (if PendingRetryInterval r > 0 then PendingRetryInterval r else defaultPendingRetryInterval)"
definition startingPollInterval :: "'s wsReconciler \<Rightarrow> duration" where
  "startingPollInterval r =
     (if StartingPollInterval r > 0 then StartingPollInterval r else defaultStartingPollInterval)"
definition steadyStateInterval :: "'s wsReconciler \<Rightarrow> duration" where
  "steadyStateInterval r =
     (if SteadyStateInterval r > 0 then SteadyStateInterval r else defaultSteadyStateInterval)"

definition workspaceFinalizer :: string where
  "workspaceFinalizer = ''puc.kettleofketchup/workspace-cleanup''"
definition crashLoopBackOffReason :: string where
  "crashLoopBackOffReason = ''CrashLoopBackOff''"

type_synonym ('s, 'a) handler = "('s, (error + 'a) \<times> workspace) m"

definition andThen ::
    "('s, 'a) handler \<Rightarrow> ('a \<Rightarrow> workspace \<Rightarrow> ('s, 'b) handler) \<Rightarrow> ('s, 'b) handler" where
  "andThen h f = do {
     x \<leftarrow> h;
     case fst x of
       Inl e \<Rightarrow> ret (Inl e, snd x)
     | Inr a \<Rightarrow> f a (snd x)
   }"

section \<open>Conditions, observed size, pod inspection\<close>

definition setCondition ::
    "('s, 'x) env_scheme \<Rightarrow> workspace \<Rightarrow> string \<Rightarrow> conditionStatus \<Rightarrow> string \<Rightarrow> string \<Rightarrow> ('s, workspace) m" where
  "setCondition env ws condType status reason message = do {
     cs \<leftarrow> ask (setStatusCondition env (Conditions (wsStatus ws))
            \<lparr>cdType = condType, cdStatus = status, cdReason = reason, cdMessage = message,
             cdObservedGeneration = Generation (wsMeta ws), cdLastTransitionTime = 0\<rparr>) (\<lambda>_. []);
     ret (setStatus (\<lambda>s. s\<lparr>Conditions := cs\<rparr>) ws)
   }"

definition clearCondition :: "('s, 'x) env_scheme \<Rightarrow> workspace \<Rightarrow> string \<Rightarrow> workspace" where
  "clearCondition env ws condType =
     setStatus (\<lambda>s. s\<lparr>Conditions := removeStatusCondition env (Conditions s) condType\<rparr>) ws"

definition raiseLargestObserved :: "workspace \<Rightarrow> quantity \<Rightarrow> workspace" where
  "raiseLargestObserved ws candidate =
     (case LargestObservedSize (wsStatus ws) of
        None \<Rightarrow> setStatus (\<lambda>s. s\<lparr>LargestObservedSize := Some candidate\<rparr>) ws
      | Some largest \<Rightarrow>
          if candidate > largest
          then setStatus (\<lambda>s. s\<lparr>LargestObservedSize := Some candidate\<rparr>) ws
          else ws)"

fun firstWaiting :: "string option list \<Rightarrow> string" where
  "firstWaiting [] = []"
| "firstWaiting (Some reason # _) = reason"
| "firstWaiting (None # cs) = firstWaiting cs"

definition firstWaitingReason :: "pod \<Rightarrow> string" where
  "firstWaitingReason p = firstWaiting (podContainerStatuses p)"

definition isRWOPConflictPending :: "pod \<Rightarrow> bool" where
  "isRWOPConflictPending p =
     (if podPhase p \<noteq> ''Pending'' \<or> length (podContainerStatuses p) \<noteq> 0 then False
      else list_ex (\<lambda>c. c \<noteq> ConditionTrue) (podConditions p))"

section \<open>Storage\<close>

definition ClaimBound :: string where
  "ClaimBound = ''Bound''"

text \<open>An absent key of a resource list reads as the zero quantity.\<close>

definition quantityOr0 :: "quantity option \<Rightarrow> quantity" where
  "quantityOr0 q = (case q of None \<Rightarrow> 0 | Some v \<Rightarrow> v)"

text \<open>The end of \<open>reconcileExistingPVC\<close>: a bound claim's capacity raises the observed size.\<close>

definition observeCapacity :: "workspace \<Rightarrow> persistentVolumeClaim \<Rightarrow> workspace" where
  "observeCapacity ws existing =
     (if pvcPhase existing = ClaimBound
      then raiseLargestObserved ws
             (case pvcCapacity existing of Some c \<Rightarrow> c | None \<Rightarrow> quantityOr0 (pvcRequest existing))
      else ws)"

definition reconcileExistingPVC ::
    "('s, 'x) env_scheme \<Rightarrow> workspace \<Rightarrow> perUserApp \<Rightarrow> persistentVolumeClaim \<Rightarrow> ('s, bool) handler" where
  "reconcileExistingPVC env ws0 app existing = do {
     let ws = setStatus (\<lambda>s. s\<lparr>PVCRef := Name (pvcMeta existing)\<rparr>) ws0;
     let desired = RenderWorkspacePVC app ws;
     let classMismatch = (strPtrVal (pvcStorageClassName existing) \<noteq> strPtrVal (pvcStorageClassName desired));
     let accessMismatch = (pvcAccessModes existing \<noteq> pvcAccessModes desired);
     let existingSize = quantityOr0 (pvcRequest existing);
     let desiredSize = quantityOr0 (pvcRequest desired);
     if desiredSize > existingSize then
       if pvcPhase existing \<noteq> ClaimBound then ret (Inr False, observeCapacity ws existing)
       else do {
         r \<leftarrow> doPatch (claims env) PvcObj existing (existing\<lparr>pvcRequest := Some desiredSize\<rparr>);
         case r of
           Inl e \<Rightarrow> ret (Inl e, ws)
         | Inr stored \<Rightarrow>
             ret (Inr False,
                  observeCapacity (clearCondition env (raiseLargestObserved ws desiredSize) CondStorageSpecDrift)
                    stored)
       }
     else if desiredSize = existingSize then
       if classMismatch \<or> accessMismatch then do {
         ws \<leftarrow> setCondition env ws CondStorageSpecDrift ConditionTrue ''SpecMismatch''
           ''existing PersistentVolumeClaim's immutable fields no longer match this PerUserApp's storage spec'';
         ret (Inr False, observeCapacity ws existing)
       }
       else ret (Inr False, observeCapacity (clearCondition env ws CondStorageSpecDrift) existing)
     else do {
       ws \<leftarrow> setCondition env ws CondStorageSpecDrift ConditionTrue ''SpecMismatch''
         ''existing PersistentVolumeClaim requests more storage than this PerUserApp currently declares'';
       ret (Inr False, observeCapacity ws existing)
     }
   }"

definition shrinkMessage :: "('s, 'x) env_scheme \<Rightarrow> quantity \<Rightarrow> quantity \<Rightarrow> string" where
  "shrinkMessage env desired largest =
     ''spec.storage.size='' @ quantityString env desired @
     '' is below the largest size this workspace's volume has ever held ('' @ quantityString env largest @
     ''); refusing rather than stranding the bound volume''"

definition ambiguousMessage :: "nat \<Rightarrow> string \<Rightarrow> string \<Rightarrow> string" where
  "ambiguousMessage n app userKey =
     Itoa (int n) @ '' PersistentVolumeClaims match app='' @ app @ '' user-key='' @ userKey @
     ''; refusing to choose one for this workspace''"

definition shrinks :: "workspace \<Rightarrow> perUserApp \<Rightarrow> bool" where
  "shrinks ws app =
     (case LargestObservedSize (wsStatus ws) of
        None \<Rightarrow> False
      | Some largest \<Rightarrow> stSize (spStorage (appSpec app)) < largest)"

text \<open>After the Create call; on success the claim is the server's copy.\<close>

definition claimCreated :: "('s, 'x) env_scheme \<Rightarrow> workspace \<Rightarrow> persistentVolumeClaim \<Rightarrow> workspace" where
  "claimCreated env ws pvc =
     clearCondition env
       (raiseLargestObserved (setStatus (\<lambda>s. s\<lparr>PVCRef := Name (pvcMeta pvc)\<rparr>) ws) (quantityOr0 (pvcRequest pvc)))
       CondStorageSpecDrift"

definition reconcilePVC ::
    "('s, 'x) env_scheme \<Rightarrow> workspace \<Rightarrow> perUserApp \<Rightarrow> bool \<Rightarrow> ('s, bool) handler" where
  "reconcilePVC env ws0 app allowCreate =
     (if shrinks ws0 app then do {
        ws \<leftarrow> setCondition env ws0 CondStorageShrinkRejected ConditionTrue ''ShrinkRejected''
          (shrinkMessage env (stSize (spStorage (appSpec app)))
             (quantityOr0 (LargestObservedSize (wsStatus ws0))));
        ret (Inr True, ws)
      }
      else do {
        let ws = clearCondition env ws0 CondStorageShrinkRejected;
        r \<leftarrow> doList (claims env) KPVC (Namespace (wsMeta ws))
               [(LabelApp, appName app), (LabelUserKey, wsUserKey (wsSpec ws))];
        case r of
          Inl e \<Rightarrow> ret (Inl e, ws)
        | Inr items \<Rightarrow>
            if length items = 0 then do {
              let ws = clearCondition env ws CondAmbiguousVolume;
              if \<not> allowCreate then ret (Inr False, ws)
              else do {
                let desired = RenderWorkspacePVC app ws;
                c \<leftarrow> doCreate (claims env) PvcObj desired;
                case c of
                  Inl e \<Rightarrow>
                    if \<not> IsAlreadyExists e then ret (Inl e, ws)
                    else ret (Inr False, claimCreated env ws desired)
                | Inr stored \<Rightarrow> ret (Inr False, claimCreated env ws stored)
              }
            }
            else if length items = 1 then
              reconcileExistingPVC env (clearCondition env ws CondAmbiguousVolume) app (hd items)
            else do {
              ws \<leftarrow> setCondition env ws CondAmbiguousVolume ConditionTrue ''MultipleClaims''
                (ambiguousMessage (length items) (appName app) (wsUserKey (wsSpec ws)));
              ret (Inr True, ws)
            }
      })"

section \<open>Child objects\<close>

definition policyBase :: "networkPolicy \<Rightarrow> networkPolicy" where
  "policyBase desired = \<lparr>npMeta = zeroMeta\<lparr>Name := Name (npMeta desired), Namespace := Namespace (npMeta desired)\<rparr>,
     npPodSelector = [], npPolicyTypes = [], npIngress = [], npEgress = []\<rparr>"

text \<open>The mutate function of CreateOrUpdate: labels, owner references and the whole spec.\<close>

definition policyMutate :: "networkPolicy \<Rightarrow> networkPolicy \<Rightarrow> networkPolicy" where
  "policyMutate desired np =
     np\<lparr>npMeta := (npMeta np)\<lparr>Labels := Labels (npMeta desired),
                              OwnerReferences := OwnerReferences (npMeta desired)\<rparr>,
        npPodSelector := npPodSelector desired, npPolicyTypes := npPolicyTypes desired,
        npIngress := npIngress desired, npEgress := npEgress desired\<rparr>"

fun ensurePolicies :: "('s, 'x) env_scheme \<Rightarrow> networkPolicy list \<Rightarrow> ('s, error option) m" where
  "ensurePolicies env [] = ret None"
| "ensurePolicies env (desired # rest) = do {
     r \<leftarrow> doCreateOrUpdate (networkPolicies env) NpObj (policyBase desired) (policyMutate desired);
     case errOf r of
       Some e \<Rightarrow> ret (Some e)
     | None \<Rightarrow> ensurePolicies env rest
   }"

definition ensureWorkspaceNetworkPolicies ::
    "('s, 'x) env_scheme \<Rightarrow> 's wsReconciler \<Rightarrow> workspace \<Rightarrow> perUserApp \<Rightarrow> ('s, unit) handler" where
  "ensureWorkspaceNetworkPolicies env r ws app = do {
     e \<leftarrow> ensurePolicies env (RenderWorkspaceNetworkPolicies app ws (PodCIDR r) (NodeCIDR r));
     ret (case e of Some e \<Rightarrow> Inl e | None \<Rightarrow> Inr (), ws)
   }"

text \<open>The comparison and the patched object of \<open>ensureDeployment\<close>.\<close>

definition specStale :: "deployment \<Rightarrow> deployment \<Rightarrow> bool" where
  "specStale desired dep \<longleftrightarrow>
     lookupStr (Annotations (depMeta dep)) AnnSpecHash \<noteq> lookupStr (Annotations (depMeta desired)) AnnSpecHash"

definition replicasDiffer :: "deployment \<Rightarrow> int \<Rightarrow> bool" where
  "replicasDiffer dep want \<longleftrightarrow> dsReplicas (depSpec dep) \<noteq> Some want"

definition bringForward :: "deployment \<Rightarrow> deployment \<Rightarrow> int \<Rightarrow> deployment" where
  "bringForward desired dep want =
     (let dep = (if specStale desired dep
                 then dep\<lparr>depSpec := (depSpec desired)\<lparr>dsSelector := dsSelector (depSpec dep)\<rparr>,
                          depMeta := (depMeta dep)\<lparr>Annotations :=
                            AList.update AnnSpecHash (lookupStr (Annotations (depMeta desired)) AnnSpecHash)
                              (Annotations (depMeta dep))\<rparr>\<rparr>
                 else dep)
      in dep\<lparr>depSpec := (depSpec dep)\<lparr>dsReplicas := Some want\<rparr>\<rparr>)"

definition ensureDeployment ::
    "('s, 'x) env_scheme \<Rightarrow> workspace \<Rightarrow> perUserApp \<Rightarrow> int \<Rightarrow> ('s, unit) handler" where
  "ensureDeployment env ws app want = do {
     r \<leftarrow> doGet (deployments env) KDeployment
            (Namespace (wsMeta ws), ChildName (appName app) (wsUserKey (wsSpec ws)));
     case r of
       Inl e \<Rightarrow> ret (if IsNotFound e then Inr () else Inl e, ws)
     | Inr dep \<Rightarrow>
         let desired = RenderWorkspaceDeployment env app ws in
         if \<not> specStale desired dep \<and> \<not> replicasDiffer dep want then ret (Inr (), ws)
         else do {
           p \<leftarrow> doPatch (deployments env) DepObj dep (bringForward desired dep want);
           ret (case p of Inl e \<Rightarrow> Inl e | Inr _ \<Rightarrow> Inr (), ws)
         }
   }"

section \<open>The phase handlers\<close>

definition transitionToReady ::
    "('s, 'x) env_scheme \<Rightarrow> workspace \<Rightarrow> perUserApp \<Rightarrow> pod option \<Rightarrow> ('s, workspace) m" where
  "transitionToReady env ws app p = do {
     _ \<leftarrow> (case StartDeadline (wsStatus ws) of
             None \<Rightarrow> ret ()
           | Some deadline \<Rightarrow> do {
               t \<leftarrow> now env;
               record_metric (ObserveWorkspaceStartSeconds (Namespace (wsMeta ws)) (appName app)
                 (timeSub t (deadline + wrap64 (- StartupTimeout (spLifecycle (appSpec app))))))
             });
     let name = ChildName (appName app) (wsUserKey (wsSpec ws));
     ret (setStatus (\<lambda>s. s\<lparr>wsPhase := PhaseReady, ServiceRef := name, PVCRef := name,
            PodRef := (case p of None \<Rightarrow> PodRef s | Some q \<Rightarrow> Name (podMeta q)),
            StartDeadline := None, ConsecutiveFailures := 0, WaitingReason := []\<rparr>) ws)
   }"

definition failStarting ::
    "('s, 'x) env_scheme \<Rightarrow> 's wsReconciler \<Rightarrow> workspace \<Rightarrow> perUserApp \<Rightarrow> string \<Rightarrow> ('s, workspace) m" where
  "failStarting env r ws0 app reason = do {
     let ws = setStatus (\<lambda>s. s\<lparr>wsPhase := PhaseFailed\<rparr>) ws0;
     x \<leftarrow> recordStartFailure (rAdmitter r) ws app reason;
     case fst x of
       None \<Rightarrow> ret (snd x)
     | Some e \<Rightarrow> do {
         record_metric (RecordReconcileError (Namespace (wsMeta (snd x))) (appName app) ''record_start_failure'');
         ret (snd x)
       }
   }"

text \<open>The children created at admission, after the claim: Deployment, Service, NetworkPolicies.\<close>

definition startPolicies ::
    "('s, 'x) env_scheme \<Rightarrow> 's wsReconciler \<Rightarrow> workspace \<Rightarrow> perUserApp \<Rightarrow> ('s, result) handler" where
  "startPolicies env r ws app =
     andThen (ensureWorkspaceNetworkPolicies env r ws app)
       (\<lambda>_ ws. do {
          record_metric (RecordWorkspaceStart (Namespace (wsMeta ws)) (appName app) ''admitted'');
          ret (Inr Done, ws)
        })"

definition startChildren ::
    "('s, 'x) env_scheme \<Rightarrow> 's wsReconciler \<Rightarrow> workspace \<Rightarrow> perUserApp \<Rightarrow> ('s, result) handler" where
  "startChildren env r ws app =
     andThen
       (do {
          c \<leftarrow> doCreate (deployments env) DepObj (RenderWorkspaceDeployment env app ws);
          case errOf c of
            None \<Rightarrow> ret (Inr (), ws)
          | Some e \<Rightarrow> if \<not> IsAlreadyExists e then ret (Inl e, ws) else ensureDeployment env ws app 1
        })
       (\<lambda>_ ws. do {
          c \<leftarrow> doCreate (services env) SvcObj (RenderWorkspaceService app ws);
          case errOf c of
            Some e \<Rightarrow> if \<not> IsAlreadyExists e then ret (Inl e, ws) else startPolicies env r ws app
          | None \<Rightarrow> startPolicies env r ws app
        })"

definition reconcilePending ::
    "('s, 'x) env_scheme \<Rightarrow> 's wsReconciler \<Rightarrow> workspace \<Rightarrow> perUserApp \<Rightarrow> ('s, result) handler" where
  "reconcilePending env r ws app = do {
     a \<leftarrow> tryAdmit (rAdmitter r) ws app;
     case a of
       Inl e \<Rightarrow> ret (Inl e, ws)
     | Inr admitted \<Rightarrow>
         if \<not> admitted then ret (Inr (RequeueAfter (pendingRetryInterval r)), ws)
         else do {
           t \<leftarrow> now env;
           let ws = setStatus (\<lambda>s. s\<lparr>wsPhase := PhaseStarting,
                      StartDeadline := Some (t + StartupTimeout (spLifecycle (appSpec app)))\<rparr>) ws;
           andThen (reconcilePVC env ws app True)
             (\<lambda>refused ws.
                if refused
                then ret (Inr Done, setStatus (\<lambda>s. s\<lparr>wsPhase := PhasePending, StartDeadline := None\<rparr>) ws)
                else startChildren env r ws app)
         }
   }"

text \<open>The common beginning of the Starting, Ready and Idle rows.\<close>

definition withStorage ::
    "('s, 'x) env_scheme \<Rightarrow> 's wsReconciler \<Rightarrow> workspace \<Rightarrow> perUserApp \<Rightarrow>
     (workspace \<Rightarrow> ('s, result) handler) \<Rightarrow> ('s, result) handler" where
  "withStorage env r ws app k =
     andThen (reconcilePVC env ws app True)
       (\<lambda>refused ws.
          if refused then ret (Inr Done, ws)
          else andThen (ensureWorkspaceNetworkPolicies env r ws app) (\<lambda>_ ws. k ws))"

definition podsOf ::
    "('s, 'x) env_scheme \<Rightarrow> workspace \<Rightarrow> perUserApp \<Rightarrow> ('s, pod list) handler" where
  "podsOf env ws app = do {
     l \<leftarrow> doList (pods env) KPod (Namespace (wsMeta ws))
            (WorkspacePodLabels (appName app) (wsUserKey (wsSpec ws)));
     ret (l, ws)
   }"

text \<open>The startup deadline, checked last.\<close>

definition checkDeadline ::
    "('s, 'x) env_scheme \<Rightarrow> 's wsReconciler \<Rightarrow> workspace \<Rightarrow> perUserApp \<Rightarrow> ('s, result) handler" where
  "checkDeadline env r ws app =
     (case StartDeadline (wsStatus ws) of
        None \<Rightarrow> ret (Inr (RequeueAfter (startingPollInterval r)), ws)
      | Some deadline \<Rightarrow> do {
          t \<leftarrow> now env;
          if \<not> t < deadline
          then do { ws \<leftarrow> failStarting env r ws app StartFailureTimeout; ret (Inr Done, ws) }
          else ret (Inr (RequeueAfter (startingPollInterval r)), ws)
        })"

definition inspectPod ::
    "('s, 'x) env_scheme \<Rightarrow> 's wsReconciler \<Rightarrow> workspace \<Rightarrow> perUserApp \<Rightarrow> pod option \<Rightarrow> ('s, result) handler" where
  "inspectPod env r ws app p =
     (case p of
        None \<Rightarrow> checkDeadline env r ws app
      | Some q \<Rightarrow>
          let reason = firstWaitingReason q in
          if reason = crashLoopBackOffReason
          then do { ws \<leftarrow> failStarting env r ws app StartFailureCrash; ret (Inr Done, ws) }
          else if reason \<noteq> [] then
            checkDeadline env r (setStatus (\<lambda>s. s\<lparr>WaitingReason := reason\<rparr>) ws) app
          else if isRWOPConflictPending q then
            checkDeadline env r (setStatus (\<lambda>s. s\<lparr>WaitingReason := WaitingRWOPConflict\<rparr>) ws) app
          else checkDeadline env r ws app)"

definition firstPod :: "pod list \<Rightarrow> pod option" where
  "firstPod items = (case items of [] \<Rightarrow> None | p # _ \<Rightarrow> Some p)"

text \<open>The exits of the Starting row, from the Get of the Deployment on.\<close>

definition startingExit ::
    "('s, 'x) env_scheme \<Rightarrow> 's wsReconciler \<Rightarrow> workspace \<Rightarrow> perUserApp \<Rightarrow> pod option \<Rightarrow> ('s, result) handler" where
  "startingExit env r ws app p = do {
     d \<leftarrow> doGet (deployments env) KDeployment
            (Namespace (wsMeta ws), ChildName (appName app) (wsUserKey (wsSpec ws)));
     case d of
       Inl e \<Rightarrow>
         if IsNotFound e then
           if BackoffUntil (wsStatus ws) \<noteq> None
           then ret (Inr Done, setStatus (\<lambda>s. s\<lparr>wsPhase := PhaseFailed\<rparr>) ws)
           else inspectPod env r ws app p
         else ret (Inl e, ws)
     | Inr dep \<Rightarrow>
         if depReadyReplicas dep \<ge> 1
         then do { ws \<leftarrow> transitionToReady env ws app p; ret (Inr Done, ws) }
         else inspectPod env r ws app p
   }"

definition reconcileStarting ::
    "('s, 'x) env_scheme \<Rightarrow> 's wsReconciler \<Rightarrow> workspace \<Rightarrow> perUserApp \<Rightarrow> ('s, result) handler" where
  "reconcileStarting env r ws app =
     withStorage env r ws app
       (\<lambda>ws. andThen (podsOf env ws app) (\<lambda>items ws. startingExit env r ws app (firstPod items)))"

text \<open>The wake row of Ready and Idle.\<close>

definition wake :: "workspace \<Rightarrow> workspace" where
  "wake ws = setStatus (\<lambda>s. s\<lparr>WakeRequestedAt := None, ScaledDown := False, wsPhase := PhasePending\<rparr>) ws"

definition reconcileReady ::
    "('s, 'x) env_scheme \<Rightarrow> 's wsReconciler \<Rightarrow> workspace \<Rightarrow> perUserApp \<Rightarrow> ('s, result) handler" where
  "reconcileReady env r ws app =
     withStorage env r ws app
       (\<lambda>ws.
          if WakeRequestedAt (wsStatus ws) \<noteq> None then ret (Inr Done, wake ws)
          else if ScaledDown (wsStatus ws) then
            andThen (ensureDeployment env ws app 0)
              (\<lambda>_ ws. andThen (podsOf env ws app)
                 (\<lambda>items ws.
                    if length items = 0
                    then ret (Inr Done, setStatus (\<lambda>s. s\<lparr>wsPhase := PhaseIdle\<rparr>) ws)
                    else ret (Inr (RequeueAfter (steadyStateInterval r)), ws)))
          else ret (Inr Done, ws))"

definition reconcileIdle ::
    "('s, 'x) env_scheme \<Rightarrow> 's wsReconciler \<Rightarrow> workspace \<Rightarrow> perUserApp \<Rightarrow> ('s, result) handler" where
  "reconcileIdle env r ws app =
     withStorage env r ws app
       (\<lambda>ws.
          if WakeRequestedAt (wsStatus ws) \<noteq> None then ret (Inr Done, wake ws)
          else ret (Inr Done, ws))"

definition reconcileFailed :: "('s, 'x) env_scheme \<Rightarrow> workspace \<Rightarrow> ('s, result) handler" where
  "reconcileFailed env ws =
     (case BackoffUntil (wsStatus ws) of
        None \<Rightarrow> ret (Inr Done, ws)
      | Some until \<Rightarrow> do {
          t \<leftarrow> now env;
          ret (Inr Done,
               if until < t
               then setStatus (\<lambda>s. s\<lparr>wsPhase := PhasePending, BackoffUntil := None\<rparr>) ws
               else ws)
        })"

section \<open>Reconcile\<close>

definition reconcilePhase ::
    "('s, 'x) env_scheme \<Rightarrow> 's wsReconciler \<Rightarrow> workspace \<Rightarrow> perUserApp \<Rightarrow> ('s, result) handler" where
  "reconcilePhase env r ws app =
     (case phase ws of
        PhasePending \<Rightarrow> reconcilePending env r ws app
      | PhaseStarting \<Rightarrow> reconcileStarting env r ws app
      | PhaseReady \<Rightarrow> reconcileReady env r ws app
      | PhaseIdle \<Rightarrow> reconcileIdle env r ws app
      | PhaseFailed \<Rightarrow> reconcileFailed env ws
      | _ \<Rightarrow> ret (Inr Done, ws))"

definition patchStatusIfChanged ::
    "('s, 'x) env_scheme \<Rightarrow> workspace \<Rightarrow> workspace \<Rightarrow> ('s, error option) m" where
  "patchStatusIfChanged env ws base =
     (if wsStatus base = wsStatus ws then ret None
      else do {
        r \<leftarrow> doStatusPatch (workspaces env) WsObj base ws;
        ret (errOf r)
      })"

definition reconcileDelete :: "('s, 'x) env_scheme \<Rightarrow> workspace \<Rightarrow> ('s, error + result) m" where
  "reconcileDelete env ws =
     (if containsFinalizer env (Finalizers (wsMeta ws)) workspaceFinalizer then do {
        record_metric (DeleteWorkspaceUserInfo (Namespace (wsMeta ws)) (wsAppRef (wsSpec ws))
          (wsUserKey (wsSpec ws)) (lookupStr (Annotations (wsMeta ws)) AnnUserDisplay));
        u \<leftarrow> doUpdate (workspaces env) WsObj
               (ws\<lparr>wsMeta := (wsMeta ws)\<lparr>Finalizers :=
                  removeFinalizer env (Finalizers (wsMeta ws)) workspaceFinalizer\<rparr>\<rparr>);
        ret (case u of Inl e \<Rightarrow> Inl e | Inr _ \<Rightarrow> Inr Done)
      }
      else ret (Inr Done))"

fun setPhaseGauges :: "string \<Rightarrow> string \<Rightarrow> workspace list \<Rightarrow> Phase list \<Rightarrow> ('s, unit) m" where
  "setPhaseGauges ns app items [] = ret ()"
| "setPhaseGauges ns app items (p # ps) = do {
     record_metric (SetWorkspacesByPhase ns app (phaseString p)
       (int (length (filter (\<lambda>w. phase w = p) items))));
     setPhaseGauges ns app items ps
   }"

definition refreshGauges ::
    "('s, 'x) env_scheme \<Rightarrow> string \<Rightarrow> string \<Rightarrow> ('s, error option) m" where
  "refreshGauges env ns app = do {
     l \<leftarrow> doList (workspaces env) KWorkspace ns [(LabelApp, app)];
     case l of
       Inl e \<Rightarrow> ret (Some e)
     | Inr items \<Rightarrow> do {
         setPhaseGauges ns app items [PhasePending, PhaseStarting, PhaseReady, PhaseIdle, PhaseFailed];
         p \<leftarrow> doList (claims env) KPVC ns [(LabelApp, app)];
         case p of
           Inl e \<Rightarrow> ret (Some e)
         | Inr pvcs \<Rightarrow> do {
             record_metric (SetWorkspacePVCsTotal ns app (int (length pvcs)));
             ret None
           }
       }
   }"

text \<open>The end of Reconcile: one phase handler, then the status patch, whatever the handler returned.\<close>

definition reconcileAndPatch ::
    "('s, 'x) env_scheme \<Rightarrow> 's wsReconciler \<Rightarrow> workspace \<Rightarrow> perUserApp \<Rightarrow> ('s, error + result) m" where
  "reconcileAndPatch env r base app = do {
     x \<leftarrow> reconcilePhase env r base app;
     perr \<leftarrow> patchStatusIfChanged env (snd x) base;
     let res = (case fst x of
                  Inl e \<Rightarrow> Inl e
                | Inr res \<Rightarrow> (case perr of Some e \<Rightarrow> Inl e | None \<Rightarrow> Inr res));
     case res of
       Inl e \<Rightarrow> do {
         record_metric (RecordReconcileError (Namespace (wsMeta base)) (appName app) ''reconcile'');
         ret (Inl e)
       }
     | Inr v \<Rightarrow> ret (Inr v)
   }"

definition Reconcile ::
    "('s, 'x) env_scheme \<Rightarrow> 's wsReconciler \<Rightarrow> key \<Rightarrow> ('s, error + result) m" where
  "Reconcile env r req = do {
     g \<leftarrow> doGet (workspaces env) KWorkspace req;
     case g of
       Inl e \<Rightarrow> ret (if IsNotFound e then Inr Done else Inl e)
     | Inr ws \<Rightarrow>
         if DeletionTimestamp (wsMeta ws) \<noteq> None then reconcileDelete env ws
         else if \<not> containsFinalizer env (Finalizers (wsMeta ws)) workspaceFinalizer then do {
           u \<leftarrow> doUpdate (workspaces env) WsObj
                  (ws\<lparr>wsMeta := (wsMeta ws)\<lparr>Finalizers :=
                     addFinalizer env (Finalizers (wsMeta ws)) workspaceFinalizer\<rparr>\<rparr>);
           ret (case u of Inl e \<Rightarrow> Inl e | Inr _ \<Rightarrow> Inr Done)
         }
         else if phase ws = PhaseNone then do {
           p \<leftarrow> doStatusPatch (workspaces env) WsObj ws (setStatus (\<lambda>s. s\<lparr>wsPhase := PhasePending\<rparr>) ws);
           ret (case p of Inl e \<Rightarrow> Inl e | Inr _ \<Rightarrow> Inr Done)
         }
         else do {
           a \<leftarrow> doGet (perUserApps env) KPerUserApp (Namespace (wsMeta ws), wsAppRef (wsSpec ws));
           case a of
             Inl e \<Rightarrow> do {
               record_metric (RecordReconcileError (Namespace (wsMeta ws)) (wsAppRef (wsSpec ws)) ''app_not_found'');
               ret (Inl e)
             }
           | Inr app \<Rightarrow> do {
               record_metric (SetWorkspaceUserInfo (Namespace (wsMeta ws)) (appName app)
                 (wsUserKey (wsSpec ws)) (lookupStr (Annotations (wsMeta ws)) AnnUserDisplay) True);
               gerr \<leftarrow> refreshGauges env (Namespace (wsMeta ws)) (appName app);
               case gerr of
                 Some e \<Rightarrow> ret (Inl e)
               | None \<Rightarrow> reconcileAndPatch env r ws app
             }
         }
   }"

section \<open>Storage: what a pass may do to the claim and to the observed size\<close>

lemma emits_andThen [emits_rules]:
  "emits P h \<Longrightarrow> (\<And>a ws. emits P (f a ws)) \<Longrightarrow> emits P (andThen h f)"
  unfolding andThen_def by (intro emits_rules)

lemma obeys_andThen [obeys_rules]:
  assumes "obeys h (\<lambda>x es. case fst x of
      Inl e \<Rightarrow> Q (Inl e, snd x) es
    | Inr a \<Rightarrow> obeys (f a (snd x)) (\<lambda>y es'. Q y (es @ es')))"
  shows "obeys (andThen h f) Q"
  unfolding andThen_def
  by (rule obeys_bind, rule obeys_mono [OF assms]) (auto split: sum.splits intro: obeys_return)

definition sizeLe :: "quantity option \<Rightarrow> quantity option \<Rightarrow> bool" where
  "sizeLe a b \<longleftrightarrow> (case a of None \<Rightarrow> True | Some x \<Rightarrow> (case b of None \<Rightarrow> False | Some y \<Rightarrow> x \<le> y))"

lemma sizeLe_refl [simp]: "sizeLe a a"
  by (simp add: sizeLe_def split: option.split)

lemma sizeLe_trans [trans]: "sizeLe a b \<Longrightarrow> sizeLe b c \<Longrightarrow> sizeLe a c"
  by (auto simp: sizeLe_def split: option.splits)

text \<open>What the storage code may change in a Workspace.\<close>

definition storageStep :: "workspace \<Rightarrow> workspace \<Rightarrow> bool" where
  "storageStep ws ws' \<longleftrightarrow>
     wsMeta ws' = wsMeta ws \<and> wsSpec ws' = wsSpec ws \<and>
     (\<exists>cs pvc largest. wsStatus ws' = (wsStatus ws)\<lparr>Conditions := cs, PVCRef := pvc, LargestObservedSize := largest\<rparr>) \<and>
     sizeLe (LargestObservedSize (wsStatus ws)) (LargestObservedSize (wsStatus ws'))"

lemma storageStepI:
  assumes "wsMeta ws' = wsMeta ws" "wsSpec ws' = wsSpec ws"
    "wsStatus ws' = (wsStatus ws)\<lparr>Conditions := Conditions (wsStatus ws'), PVCRef := PVCRef (wsStatus ws'),
       LargestObservedSize := LargestObservedSize (wsStatus ws')\<rparr>"
    "sizeLe (LargestObservedSize (wsStatus ws)) (LargestObservedSize (wsStatus ws'))"
  shows "storageStep ws ws'"
  using assms unfolding storageStep_def by blast

lemma storageStep_refl [simp]: "storageStep ws ws"
  by (rule storageStepI) simp_all

lemma storageStep_trans [trans]:
  assumes "storageStep u v" and "storageStep v w"
  shows "storageStep u w"
proof -
  from assms obtain cs p l cs' p' l' where
    "wsStatus v = (wsStatus u)\<lparr>Conditions := cs, PVCRef := p, LargestObservedSize := l\<rparr>"
    "wsStatus w = (wsStatus v)\<lparr>Conditions := cs', PVCRef := p', LargestObservedSize := l'\<rparr>"
    unfolding storageStep_def by blast
  then have "wsStatus w = (wsStatus u)\<lparr>Conditions := cs', PVCRef := p', LargestObservedSize := l'\<rparr>" by simp
  moreover have "sizeLe (LargestObservedSize (wsStatus u)) (LargestObservedSize (wsStatus w))"
    using assms sizeLe_trans unfolding storageStep_def by blast
  ultimately show ?thesis using assms unfolding storageStep_def by auto
qed

lemma storageStep_status:
  assumes "storageStep ws ws'"
  shows "phase ws' = phase ws" "ScaledDown (wsStatus ws') = ScaledDown (wsStatus ws)"
    "WakeRequestedAt (wsStatus ws') = WakeRequestedAt (wsStatus ws)"
    "BackoffUntil (wsStatus ws') = BackoffUntil (wsStatus ws)"
    "StartDeadline (wsStatus ws') = StartDeadline (wsStatus ws)"
    "sizeLe (LargestObservedSize (wsStatus ws)) (LargestObservedSize (wsStatus ws'))"
    "wsMeta ws' = wsMeta ws" "wsSpec ws' = wsSpec ws"
  using assms unfolding storageStep_def by auto

lemma storageStep_clearCondition: "storageStep ws (clearCondition env ws t)"
  unfolding clearCondition_def by (rule storageStepI) simp_all

lemma storageStep_raise: "storageStep ws (raiseLargestObserved ws q)"
  by (rule storageStepI) (simp_all add: raiseLargestObserved_def sizeLe_def split: option.split)

lemma storageStep_pvcRef: "storageStep ws (setStatus (\<lambda>s. s\<lparr>PVCRef := n\<rparr>) ws)"
  by (rule storageStepI) simp_all

lemma storageStep_conditions: "storageStep ws (setStatus (\<lambda>s. s\<lparr>Conditions := cs\<rparr>) ws)"
  by (rule storageStepI) simp_all

lemma storageStep_observe: "storageStep ws (observeCapacity ws pvc)"
  by (simp add: observeCapacity_def storageStep_raise)

lemma storageStep_created: "storageStep ws (claimCreated env ws pvc)"
  unfolding claimCreated_def
  by (metis storageStep_clearCondition storageStep_raise storageStep_pvcRef storageStep_trans)

lemmas storage_intros = storageStep_refl storageStep_clearCondition storageStep_raise
  storageStep_pvcRef storageStep_conditions storageStep_observe storageStep_created

lemma setCondition_wp [obeys_rules]:
  "(\<And>ws'. storageStep ws ws' \<Longrightarrow> Q ws' []) \<Longrightarrow> obeys (setCondition env ws t st rs msg) Q"
  unfolding setCondition_def by (intro obeys_rules) (simp add: storageStep_conditions)

lemma reconcileExistingPVC_step:
  "obeys (reconcileExistingPVC env ws app pvc) (\<lambda>x _. storageStep ws (snd x))"
  unfolding reconcileExistingPVC_def
  by (intro obeys_rules; simp; metis storageStep_trans storage_intros)

lemma reconcilePVC_step: "obeys (reconcilePVC env ws app c) (\<lambda>x _. storageStep ws (snd x))"
  unfolding reconcilePVC_def
  by (intro obeys_rules obeys_mono [OF reconcileExistingPVC_step]; simp;
      metis storageStep_trans storage_intros)

lemma reconcilePVC_wp [obeys_rules]:
  "(\<And>x es. storageStep ws (snd x) \<Longrightarrow> Q x es) \<Longrightarrow> obeys (reconcilePVC env ws app c) Q"
  by (rule obeys_mono [OF reconcilePVC_step]) simp

section \<open>The other building blocks leave the Workspace alone\<close>

lemma ensurePolicies_runs:
  "obeys (ensurePolicies env ps) (\<lambda>_ _. True)"
  by (induction ps) (auto intro!: obeys_rules)

lemma ensurePolicies_wp [obeys_rules]: "(\<And>x es. Q x es) \<Longrightarrow> obeys (ensurePolicies env ps) Q"
  by (rule obeys_mono [OF ensurePolicies_runs]) simp

lemma ensureWorkspaceNetworkPolicies_wp [obeys_rules]:
  "(\<And>x es. Q (x, ws) es) \<Longrightarrow> obeys (ensureWorkspaceNetworkPolicies env r ws app) Q"
  unfolding ensureWorkspaceNetworkPolicies_def by (intro obeys_rules) simp

lemma ensureDeployment_wp [obeys_rules]:
  "(\<And>x es. Q (x, ws) es) \<Longrightarrow> obeys (ensureDeployment env ws app n) Q"
  unfolding ensureDeployment_def by (intro obeys_rules) simp_all

lemma podsOf_wp [obeys_rules]:
  "(\<And>l c es. fst (rList (pods env) (Namespace (wsMeta ws))
        (WorkspacePodLabels (appName app) (wsUserKey (wsSpec ws))) c) = l \<Longrightarrow> Q (l, ws) es) \<Longrightarrow>
   obeys (podsOf env ws app) Q"
  unfolding podsOf_def by (intro obeys_rules) simp

lemma startPolicies_wp [obeys_rules]:
  "(\<And>x es. Q (x, ws) es) \<Longrightarrow> obeys (startPolicies env r ws app) Q"
  unfolding startPolicies_def by (intro obeys_rules) (auto split: sum.split intro!: obeys_rules)

lemma startChildren_wp [obeys_rules]:
  "(\<And>x es. Q (x, ws) es) \<Longrightarrow> obeys (startChildren env r ws app) Q"
  unfolding startChildren_def
  by (intro obeys_rules) (auto split: sum.split intro!: obeys_rules)

lemma withStorage_wp [obeys_rules]:
  assumes "\<And>x ws' es. storageStep ws ws' \<Longrightarrow> Q (x, ws') es"
    and "\<And>ws' es. storageStep ws ws' \<Longrightarrow> obeys (k ws') (\<lambda>y es'. Q y (es @ es'))"
  shows "obeys (withStorage env r ws app k) Q"
  unfolding withStorage_def
  by (intro obeys_rules)
    (auto split: sum.split intro!: obeys_rules
      simp: assms(1) assms(2) [where es = "es1 @ es2" for es1 es2, simplified append_assoc])

section \<open>The phase table\<close>

text \<open>The rows of the phase state machine with their guards, in terms of what the environment can
  answer: a workspace only starts when admitted, is only Ready when a Get of its Deployment
  reported a ready replica, fails only by crash loop, by its deadline or as a recorded orphan, is
  retried only after its backoff, goes Idle only when scaled down with no pod left, and wakes only
  on request.\<close>

definition depKey :: "workspace \<Rightarrow> perUserApp \<Rightarrow> key" where
  "depKey ws app = (Namespace (wsMeta ws), ChildName (appName app) (wsUserKey (wsSpec ws)))"

inductive phase_move ::
    "bool \<Rightarrow> ('s, 'x) env_scheme \<Rightarrow> workspace \<Rightarrow> perUserApp \<Rightarrow> Phase \<Rightarrow> Phase \<Rightarrow> bool"
  for admits :: bool and env :: "('s, 'x) env_scheme" and ws :: workspace and app :: perUserApp where
  start: "admits \<Longrightarrow> phase_move admits env ws app PhasePending PhaseStarting"
| ready: "fst (rGet (deployments env) (depKey ws app) c) = Inr dep \<Longrightarrow> depReadyReplicas dep \<ge> 1 \<Longrightarrow>
    phase_move admits env ws app PhaseStarting PhaseReady"
| crash: "fst (rList (pods env) (Namespace (wsMeta ws))
        (WorkspacePodLabels (appName app) (wsUserKey (wsSpec ws))) c) = Inr (p # ps) \<Longrightarrow>
    firstWaitingReason p = crashLoopBackOffReason \<Longrightarrow>
    phase_move admits env ws app PhaseStarting PhaseFailed"
| timeout: "StartDeadline (wsStatus ws) = Some d \<Longrightarrow> d \<le> fst (clock env c) \<Longrightarrow>
    phase_move admits env ws app PhaseStarting PhaseFailed"
| orphan: "BackoffUntil (wsStatus ws) \<noteq> None \<Longrightarrow> fst (rGet (deployments env) (depKey ws app) c) = Inl e \<Longrightarrow>
    IsNotFound e \<Longrightarrow> phase_move admits env ws app PhaseStarting PhaseFailed"
| retry: "BackoffUntil (wsStatus ws) = Some until \<Longrightarrow> until < fst (clock env c) \<Longrightarrow>
    phase_move admits env ws app PhaseFailed PhasePending"
| idle: "ScaledDown (wsStatus ws) \<Longrightarrow> WakeRequestedAt (wsStatus ws) = None \<Longrightarrow>
    fst (rList (pods env) (Namespace (wsMeta ws))
        (WorkspacePodLabels (appName app) (wsUserKey (wsSpec ws))) c) = Inr [] \<Longrightarrow>
    phase_move admits env ws app PhaseReady PhaseIdle"
| wakeReady: "WakeRequestedAt (wsStatus ws) \<noteq> None \<Longrightarrow> phase_move admits env ws app PhaseReady PhasePending"
| wakeIdle: "WakeRequestedAt (wsStatus ws) \<noteq> None \<Longrightarrow> phase_move admits env ws app PhaseIdle PhasePending"

inductive_cases phase_move_to_ReadyE: "phase_move admits env ws app p PhaseReady"
inductive_cases phase_move_to_IdleE: "phase_move admits env ws app p PhaseIdle"
inductive_cases phase_move_to_StartingE: "phase_move admits env ws app p PhaseStarting"
inductive_simps phase_move_from_Ready: "phase_move admits env ws app PhaseReady p"
inductive_simps phase_move_from_Failed: "phase_move admits env ws app PhaseFailed p"

definition phaseOk :: "bool \<Rightarrow> ('s, 'x) env_scheme \<Rightarrow> workspace \<Rightarrow> perUserApp \<Rightarrow> workspace \<Rightarrow> bool" where
  "phaseOk admits env ws app ws' \<longleftrightarrow>
     (phase ws' = phase ws \<or> phase_move admits env ws app (phase ws) (phase ws')) \<and>
     sizeLe (LargestObservedSize (wsStatus ws)) (LargestObservedSize (wsStatus ws')) \<and>
     wsSpec ws' = wsSpec ws \<and> Namespace (wsMeta ws') = Namespace (wsMeta ws) \<and> Name (wsMeta ws') = Name (wsMeta ws)"

section \<open>The admission seam\<close>

text \<open>A status patch that leaves the phase and the observed size of its base alone.\<close>

fun neutralEvent :: "event \<Rightarrow> bool" where
  "neutralEvent (Api (StatusPatch (WsObj b) (WsObj x)) _) \<longleftrightarrow>
     phase x = phase b \<and> LargestObservedSize (wsStatus x) = LargestObservedSize (wsStatus b)"
| "neutralEvent (Api c _) \<longleftrightarrow> is_read c"
| "neutralEvent (Metric _) \<longleftrightarrow> True"
| "neutralEvent _ \<longleftrightarrow> False"

locale workspace_admitter =
  fixes adm :: "'s admitter"
  assumes try_reads: "emits read_only (tryAdmit adm ws app)"
    and record_owns: "obeys (recordStartFailure adm ws app reason) (\<lambda>x _. ownsOnlyFailure ws (snd x))"
    and record_neutral: "emits neutralEvent (recordStartFailure adm ws app reason)"
begin

lemma tryAdmit_wp:
  "(\<And>x es. (\<exists>w. fst (run_state (tryAdmit adm ws app) w) = x) \<Longrightarrow> list_all read_only es \<Longrightarrow> Q x es) \<Longrightarrow>
   obeys (tryAdmit adm ws app) Q"
  using try_reads [of ws app] unfolding emits_def obeys_def by blast

lemma failStarting_wp:
  assumes "rAdmitter r = adm"
    and "\<And>ws' es. phase ws' = PhaseFailed \<Longrightarrow>
        LargestObservedSize (wsStatus ws') = LargestObservedSize (wsStatus ws) \<Longrightarrow>
        wsSpec ws' = wsSpec ws \<Longrightarrow> Namespace (wsMeta ws') = Namespace (wsMeta ws) \<Longrightarrow>
        Name (wsMeta ws') = Name (wsMeta ws) \<Longrightarrow> Q ws' es"
  shows "obeys (failStarting env r ws app reason) Q"
proof -
  have *: "Q ws' es" if "ownsOnlyFailure (setStatus (\<lambda>s. s\<lparr>wsPhase := PhaseFailed\<rparr>) ws) ws'" for ws' es
    using ownsOnlyFailure_status [OF that] by (intro assms(2)) simp_all
  show ?thesis unfolding failStarting_def assms(1)
    by (intro obeys_rules obeys_mono [OF record_owns]) (simp_all add: *)
qed

lemma checkDeadline_phase:
  assumes "rAdmitter r = adm" and "phaseOk admits env ws0 app ws" and "phase ws = PhaseStarting"
    and "phase ws0 = PhaseStarting" and "StartDeadline (wsStatus ws) = StartDeadline (wsStatus ws0)"
  shows "obeys (checkDeadline env r ws app) (\<lambda>x _. phaseOk admits env ws0 app (snd x))"
  unfolding checkDeadline_def
  using assms
  by (intro obeys_rules failStarting_wp)
    (auto simp: phaseOk_def not_less intro: phase_move.timeout [OF sym])

lemma inspectPod_phase:
  assumes "rAdmitter r = adm" and "storageStep ws0 ws" and "phase ws0 = PhaseStarting"
    and "fst (rList (pods env) (Namespace (wsMeta ws0))
        (WorkspacePodLabels (appName app) (wsUserKey (wsSpec ws0))) c) = Inr items"
  shows "obeys (inspectPod env r ws app (firstPod items)) (\<lambda>x _. phaseOk admits env ws0 app (snd x))"
  unfolding inspectPod_def
  using assms storageStep_status [OF assms(2)]
  by (intro obeys_rules failStarting_wp checkDeadline_phase)
    (auto simp: phaseOk_def firstPod_def intro: phase_move.crash split: list.splits)

lemma startingExit_phase:
  assumes "rAdmitter r = adm" and "storageStep ws0 ws" and "phase ws0 = PhaseStarting"
    and "fst (rList (pods env) (Namespace (wsMeta ws0))
        (WorkspacePodLabels (appName app) (wsUserKey (wsSpec ws0))) c) = Inr items"
  shows "obeys (startingExit env r ws app (firstPod items)) (\<lambda>x _. phaseOk admits env ws0 app (snd x))"
proof -
  note facts = storageStep_status [OF assms(2)]
  have ready: "obeys (transitionToReady env ws app p) (\<lambda>ws' _. phaseOk admits env ws0 app ws')"
    if "phase_move admits env ws0 app PhaseStarting PhaseReady" for p
    unfolding transitionToReady_def
    using that facts assms(3) by (intro obeys_rules) (simp_all add: phaseOk_def)
  show ?thesis
    unfolding startingExit_def
    by (intro obeys_rules inspectPod_phase [OF assms] obeys_mono [OF ready])
      (auto simp: phaseOk_def facts assms(3) depKey_def intro: phase_move.ready phase_move.orphan)
qed

lemma phaseOk_storage: "storageStep ws ws' \<Longrightarrow> phaseOk admits env ws app ws'"
  using storageStep_status [of ws ws'] by (simp add: phaseOk_def)

lemma reconcileStarting_phase:
  assumes "rAdmitter r = adm" and "phase ws = PhaseStarting"
  shows "obeys (reconcileStarting env r ws app) (\<lambda>x _. phaseOk admits env ws app (snd x))"
  unfolding reconcileStarting_def
proof (intro withStorage_wp obeys_andThen podsOf_wp)
  fix l c ws' and es es' :: "event list"
  assume st: "storageStep ws ws'"
    and l: "fst (rList (pods env) (Namespace (wsMeta ws')) (WorkspacePodLabels (appName app) (wsUserKey (wsSpec ws'))) c) = l"
  note facts = storageStep_status [OF st]
  show "case fst (l, ws') of
      Inl e \<Rightarrow> phaseOk admits env ws app (snd (Inl e, snd (l, ws')))
    | Inr items \<Rightarrow> obeys (startingExit env r (snd (l, ws')) app (firstPod items))
        (\<lambda>y es''. phaseOk admits env ws app (snd y))"
    using startingExit_phase [OF assms(1) st assms(2)] l
    by (auto simp: facts phaseOk_storage [OF st] split: sum.split)
qed (simp add: phaseOk_storage)

lemma reconcilePending_phase:
  assumes "rAdmitter r = adm" and "phase ws = PhasePending"
    and "admits \<longleftrightarrow> (\<exists>w. fst (run_state (tryAdmit adm ws app) w) = Inr True)"
  shows "obeys (reconcilePending env r ws app) (\<lambda>x _. phaseOk admits env ws app (snd x))"
  unfolding reconcilePending_def assms(1)
  by (intro obeys_rules tryAdmit_wp)
    (auto simp: phaseOk_def assms(2,3) storageStep_status split: sum.split
      intro!: obeys_rules intro: phase_move.start dest: storageStep_status(6))

lemma reconcileReady_phase:
  assumes "phase ws = PhaseReady"
  shows "obeys (reconcileReady env r ws app) (\<lambda>x _. phaseOk admits env ws app (snd x))"
  unfolding reconcileReady_def
  by (intro obeys_rules)
    (auto simp: phaseOk_def assms storageStep_status wake_def split: sum.split
      intro!: obeys_rules phase_move.wakeReady, blast intro: phase_move.idle)

lemma reconcileIdle_phase:
  assumes "phase ws = PhaseIdle"
  shows "obeys (reconcileIdle env r ws app) (\<lambda>x _. phaseOk admits env ws app (snd x))"
  unfolding reconcileIdle_def
  by (intro obeys_rules)
    (auto simp: phaseOk_def assms storageStep_status wake_def intro: phase_move.wakeIdle)

lemma reconcileFailed_phase:
  assumes "phase ws = PhaseFailed"
  shows "obeys (reconcileFailed env ws) (\<lambda>x _. phaseOk admits env ws app (snd x))"
  unfolding reconcileFailed_def
  by (intro obeys_rules) (auto simp: phaseOk_def assms intro: phase_move.retry)

lemma reconcilePhase_ok:
  assumes "rAdmitter r = adm"
  shows "obeys (reconcilePhase env r ws app)
    (\<lambda>x _. phaseOk (\<exists>w. fst (run_state (tryAdmit adm ws app) w) = Inr True) env ws app (snd x))"
  unfolding reconcilePhase_def
  using reconcilePending_phase [OF assms] reconcileStarting_phase [OF assms] reconcileReady_phase
    reconcileIdle_phase reconcileFailed_phase
  by (cases "phase ws") (auto intro!: obeys_return simp: phaseOk_def)

end

section \<open>What a pass writes\<close>

text \<open>Every event a pass over one Workspace may cause: reads, metrics, the finalizer, status patches
  that follow the phase table and never lower the observed size, the create of the rendered children, the policies brought to the rendered ones, a Deployment
  patched with its selector kept and zero or one replica, and a bound claim whose request grows and
  which is otherwise unchanged. There is no rule for a Delete.\<close>

definition statusOk :: "'s admitter \<Rightarrow> ('s, 'x) env_scheme \<Rightarrow> workspace \<Rightarrow> workspace \<Rightarrow> bool" where
  "statusOk adm env b x \<longleftrightarrow>
     sizeLe (LargestObservedSize (wsStatus b)) (LargestObservedSize (wsStatus x)) \<and>
     (phase x = phase b \<or> phase b = PhaseNone \<and> phase x = PhasePending \<or>
      (\<exists>app. phase_move (\<exists>w. fst (run_state (tryAdmit adm b app) w) = Inr True) env b app (phase b) (phase x)))"

inductive reconciler_write :: "'s admitter \<Rightarrow> ('s, 'x) env_scheme \<Rightarrow> event \<Rightarrow> bool"
  for adm :: "'s admitter" and env :: "('s, 'x) env_scheme" where
  read: "is_read c \<Longrightarrow> reconciler_write adm env (Api c er)"
| metric: "reconciler_write adm env (Metric mt)"
| finalizer: "reconciler_write adm env (Api (Update (WsObj (ws\<lparr>wsMeta := (wsMeta ws)\<lparr>Finalizers := fs\<rparr>\<rparr>))) er)"
| status: "statusOk adm env b x \<Longrightarrow> reconciler_write adm env (Api (StatusPatch (WsObj b) (WsObj x)) er)"
| claim: "reconciler_write adm env (Api (Create (PvcObj (RenderWorkspacePVC app ws))) er)"
| deploy: "reconciler_write adm env (Api (Create (DepObj (RenderWorkspaceDeployment env app ws))) er)"
| service: "reconciler_write adm env (Api (Create (SvcObj (RenderWorkspaceService app ws))) er)"
| policy: "np \<in> set (RenderWorkspaceNetworkPolicies app ws pod node) \<Longrightarrow>
    reconciler_write adm env (Api (CreateOrUpdate (NpObj (policyMutate np (policyBase np)))) er)"
| grow: "pvcPhase b = ClaimBound \<Longrightarrow> quantityOr0 (pvcRequest b) < q \<Longrightarrow>
    reconciler_write adm env (Api (Patch (PvcObj b) (PvcObj (b\<lparr>pvcRequest := Some q\<rparr>))) er)"
| scale: "dsSelector (depSpec x) = dsSelector (depSpec b) \<Longrightarrow> dsReplicas (depSpec x) \<in> {Some 0, Some 1} \<Longrightarrow>
    reconciler_write adm env (Api (Patch (DepObj b) (DepObj x)) er)"

inductive_simps reconciler_delete: "reconciler_write adm env (Api (Delete ob) er)"
inductive_cases reconciler_claim_patchE: "reconciler_write adm env (Api (Patch (PvcObj b) (PvcObj x)) er)"

lemma bringForward_selector [simp]: "dsSelector (depSpec (bringForward d b n)) = dsSelector (depSpec b)"
  by (simp add: bringForward_def Let_def)

lemma bringForward_replicas [simp]: "dsReplicas (depSpec (bringForward d b n)) = Some n"
  by (simp add: bringForward_def Let_def)

lemma read_only_write: "read_only e \<Longrightarrow> reconciler_write adm env e"
  by (cases e) (auto intro: reconciler_write.intros)

lemma neutral_write: "neutralEvent e \<Longrightarrow> reconciler_write adm env e"
  by (induction e rule: neutralEvent.induct) (auto intro: reconciler_write.intros simp: statusOk_def)

lemma emits_setCondition [emits_rules]: "emits P (setCondition env ws t st rs msg)"
  unfolding setCondition_def by (intro emits_rules) simp

lemma emits_reconcileExistingPVC:
  assumes "\<And>q er. pvcPhase pvc = ClaimBound \<Longrightarrow> quantityOr0 (pvcRequest pvc) < q \<Longrightarrow>
      P (Api (Patch (PvcObj pvc) (PvcObj (pvc\<lparr>pvcRequest := Some q\<rparr>))) er)"
  shows "emits P (reconcileExistingPVC env ws app pvc)"
  unfolding reconcileExistingPVC_def by (intro emits_rules) (simp_all add: assms)

lemma reconcilePVC_writes: "emits (reconciler_write adm env) (reconcilePVC env ws app c)"
  unfolding reconcilePVC_def
  by (intro emits_rules emits_reconcileExistingPVC) (auto intro: reconciler_write.intros)

lemma ensurePolicies_writes:
  "set ps \<subseteq> set (RenderWorkspaceNetworkPolicies app ws pod node) \<Longrightarrow>
   emits (reconciler_write adm env) (ensurePolicies env ps)"
  by (induction ps) (auto intro!: emits_rules intro: reconciler_write.intros)

lemma ensureWorkspaceNetworkPolicies_writes:
  "emits (reconciler_write adm env) (ensureWorkspaceNetworkPolicies env r ws app)"
  unfolding ensureWorkspaceNetworkPolicies_def
  by (intro emits_rules ensurePolicies_writes [OF subset_refl])

lemma ensureDeployment_writes:
  "n \<in> {0, 1} \<Longrightarrow> emits (reconciler_write adm env) (ensureDeployment env ws app n)"
  unfolding ensureDeployment_def by (intro emits_rules) (auto intro: reconciler_write.intros)

lemmas child_writes = reconcilePVC_writes ensureWorkspaceNetworkPolicies_writes ensureDeployment_writes

lemma withStorage_writes:
  "(\<And>ws. emits (reconciler_write adm env) (k ws)) \<Longrightarrow> emits (reconciler_write adm env) (withStorage env r ws app k)"
  unfolding withStorage_def by (intro emits_rules child_writes) simp_all

lemma podsOf_writes: "emits (reconciler_write adm env) (podsOf env ws app)"
  unfolding podsOf_def by (intro emits_rules) (auto intro: reconciler_write.intros)

lemma refreshGauges_events:
  assumes "\<And>mt. P (Metric mt)" and "\<And>k ns ls er. P (Api (ListCall k ns ls) er)"
  shows "emits P (refreshGauges env ns app)"
proof -
  have "emits P (setPhaseGauges ns app items ps)" for items ps
    by (induction ps) (auto intro!: emits_rules assms)
  then show ?thesis unfolding refreshGauges_def by (intro emits_rules assms)
qed

context workspace_admitter
begin

lemma failStarting_writes:
  assumes "rAdmitter r = adm"
  shows "emits (reconciler_write adm env) (failStarting env r ws app reason)"
  unfolding failStarting_def assms
  by (intro emits_rules emits_mono [OF record_neutral neutral_write] reconciler_write.metric)

lemma startingExit_writes:
  "rAdmitter r = adm \<Longrightarrow> emits (reconciler_write adm env) (startingExit env r ws app p)"
  unfolding startingExit_def inspectPod_def checkDeadline_def transitionToReady_def
  by (intro emits_rules failStarting_writes) (auto intro: reconciler_write.intros)

lemma startChildren_writes: "emits (reconciler_write adm env) (startChildren env r ws app)"
  unfolding startChildren_def startPolicies_def
  by (intro emits_rules child_writes) (auto intro: reconciler_write.intros)

lemma reconcilePhase_writes:
  assumes "rAdmitter r = adm"
  shows "emits (reconciler_write adm env) (reconcilePhase env r ws app)"
proof -
  have "emits (reconciler_write adm env) (reconcilePending env r ws app)"
    unfolding reconcilePending_def assms
    by (intro emits_rules child_writes startChildren_writes emits_mono [OF try_reads read_only_write])
  moreover have "emits (reconciler_write adm env) (reconcileStarting env r ws app)"
    unfolding reconcileStarting_def
    by (intro emits_rules withStorage_writes podsOf_writes startingExit_writes [OF assms])
  moreover have "emits (reconciler_write adm env) (reconcileReady env r ws app)"
    unfolding reconcileReady_def
    by (intro emits_rules withStorage_writes podsOf_writes ensureDeployment_writes) simp
  moreover have "emits (reconciler_write adm env) (reconcileIdle env r ws app)"
    unfolding reconcileIdle_def by (intro emits_rules withStorage_writes)
  moreover have "emits (reconciler_write adm env) (reconcileFailed env ws)"
    unfolding reconcileFailed_def by (intro emits_rules)
  ultimately show ?thesis
    unfolding reconcilePhase_def by (cases "phase ws") (simp_all add: emits_return)
qed

lemma reconcileAndPatch_writes:
  assumes "rAdmitter r = adm"
  shows "emits (reconciler_write adm env) (reconcileAndPatch env r ws app)"
proof -
  have ok: "statusOk adm env ws ws'"
    if "phaseOk (\<exists>w. fst (run_state (tryAdmit adm ws app) w) = Inr True) env ws app ws'" for ws'
    using that unfolding phaseOk_def statusOk_def by blast
  show ?thesis
    unfolding emits_def reconcileAndPatch_def patchStatusIfChanged_def
    by (rule obeys_bind, rule obeys_mono [OF emits_conj_obeys [OF reconcilePhase_writes [OF assms] reconcilePhase_ok [OF assms]]])
      (intro obeys_rules; auto intro: reconciler_write.intros ok)
qed

lemma Reconcile_writes:
  assumes "rAdmitter r = adm"
  shows "emits (reconciler_write adm env) (Reconcile env r req)"
  unfolding Reconcile_def reconcileDelete_def
  by (intro emits_rules refreshGauges_events reconcileAndPatch_writes [OF assms])
    (auto intro!: reconciler_write.metric reconciler_write.read reconciler_write.finalizer
        reconciler_write.status simp: statusOk_def)

text \<open>A Starting workspace past its deadline leaves the phase on the next look at its Deployment.\<close>

lemma startingExit_leaves:
  assumes "rAdmitter r = adm" and "StartDeadline (wsStatus ws) = Some d" and "\<And>c. d \<le> fst (clock env c)"
  shows "obeys (startingExit env r ws app p)
    (\<lambda>x _. phase (snd x) \<in> {PhaseReady, PhaseFailed} \<or> (\<exists>e. fst x = Inl e))"
  unfolding startingExit_def inspectPod_def checkDeadline_def transitionToReady_def
  by (intro obeys_rules failStarting_wp [OF assms(1)]) (auto simp: assms(2) leD [OF assms(3)])

end

interpretation real_admitter: workspace_admitter "NewAdmitter env" for env
proof unfold_locales
  fix ws app reason
  show "emits read_only (tryAdmit (NewAdmitter env) ws app)"
    unfolding NewAdmitter_def admitter.simps TryAdmit_def inBackoff_def by (intro emits_rules) simp
  show "obeys (recordStartFailure (NewAdmitter env) ws app reason) (\<lambda>x _. ownsOnlyFailure ws (snd x))"
    unfolding NewAdmitter_def admitter.simps
    by (rule obeys_mono [OF RecordStartFailure_obeys]) auto
  show "emits neutralEvent (recordStartFailure (NewAdmitter env) ws app reason)"
    unfolding NewAdmitter_def admitter.simps
    by (rule emits_RecordStartFailure) (simp_all add: failurePatch_def)
qed

section \<open>Properties of the reconciler with the real admitter\<close>

abbreviation realReconciler :: "('s, 'x) env_scheme \<Rightarrow> 's wsReconciler \<Rightarrow> 's wsReconciler" where
  "realReconciler env r \<equiv> r\<lparr>rAdmitter := NewAdmitter env\<rparr>"

lemma Reconcile_contract:
  "emits (reconciler_write (NewAdmitter env) env) (Reconcile env (realReconciler env r) req)"
  by (rule real_admitter.Reconcile_writes) simp

definition storageGrows :: "event \<Rightarrow> bool" where
  "storageGrows e \<longleftrightarrow>
     (\<forall>b x er. e = Api (Patch (PvcObj b) (PvcObj x)) er \<longrightarrow>
        pvcPhase b = ClaimBound \<and> x = b\<lparr>pvcRequest := pvcRequest x\<rparr> \<and>
        quantityOr0 (pvcRequest b) < quantityOr0 (pvcRequest x)) \<and>
     (\<forall>p er. e = Api (Create (PvcObj p)) er \<longrightarrow> (\<exists>app ws. p = RenderWorkspacePVC app ws)) \<and>
     (\<forall>p er. e \<noteq> Api (Update (PvcObj p)) er) \<and>
     (\<forall>b x er. e = Api (StatusPatch (WsObj b) (WsObj x)) er \<longrightarrow>
        sizeLe (LargestObservedSize (wsStatus b)) (LargestObservedSize (wsStatus x)))"

text \<open>Claim C5. Storage only grows, and nothing is deleted: whatever the API server answers, every patch of a
  PersistentVolumeClaim is on a bound claim and changes nothing but the storage request, which it raises; every claim
  created is the rendered one; every write of a Workspace's status keeps or raises the largest observed size; and a
  pass issues no Delete call at all, so in particular a user's claim survives every pass, including the one that
  removes the Workspace's finalizer.\<close>

theorem reconcile_storage_grows:
  "emits (\<lambda>e. storageGrows e \<and> (\<forall>ob er. e \<noteq> Api (Delete ob) er)) (Reconcile env (realReconciler env r) req)"
proof (rule emits_mono [OF Reconcile_contract], rule conjI)
  fix e assume e: "reconciler_write (NewAdmitter env) env e"
  from e show "storageGrows e"
    by (rule reconciler_write.cases) (auto simp: storageGrows_def quantityOr0_def statusOk_def)
  from e show "\<forall>ob er. e \<noteq> Api (Delete ob) er" by (auto simp: reconciler_delete)
qed

definition followsPhaseTable :: "('s, 'x) env_scheme \<Rightarrow> event \<Rightarrow> bool" where
  "followsPhaseTable env e \<longleftrightarrow>
     (\<forall>b x er. e = Api (StatusPatch (WsObj b) (WsObj x)) er \<longrightarrow>
        phase x = phase b \<or> phase b = PhaseNone \<and> phase x = PhasePending \<or>
        (\<exists>app. phase_move (\<exists>w. fst (run_state (TryAdmit env b app) w) = Inr True) env b app (phase b) (phase x)))"

text \<open>Claim C23. The phase machine: every status write of a pass either keeps the phase, enters Pending from
  no phase, or is a row of the phase table with its guard satisfied by an answer of the
  environment: only an admitted workspace starts, only one whose Deployment reported a ready
  replica becomes Ready, only a scaled-down one with no pod goes Idle, only a wake request leaves
  Idle, and a failed one is retried only after its backoff.\<close>

theorem reconcile_phase_table:
  "emits (followsPhaseTable env) (Reconcile env (realReconciler env r) req)"
  by (rule emits_mono [OF Reconcile_contract], erule reconciler_write.cases)
    (auto simp: followsPhaseTable_def statusOk_def NewAdmitter_def)

section \<open>Shrinking is refused, deployments converge, starts end\<close>

lemma setCondition_effect:
  assumes "status_conditions (setStatusCondition env) (removeStatusCondition env) (findStatusCondition env)"
  shows "obeys (setCondition env ws t st rs msg) (\<lambda>ws' es. es = [] \<and> phase ws' = phase ws \<and>
    (\<exists>c. findStatusCondition env (Conditions (wsStatus ws')) t = Some c \<and> cdStatus c = st))"
proof -
  have "\<exists>c. findStatusCondition env (fst (setStatusCondition env cs \<lparr>cdType = t, cdStatus = st, cdReason = rs,
      cdMessage = msg, cdObservedGeneration = g, cdLastTransitionTime = 0\<rparr> s)) t = Some c \<and> cdStatus c = st"
    for cs g s
    using status_conditions.find_set [OF assms, of cs "\<lparr>cdType = t, cdStatus = st, cdReason = rs,
      cdMessage = msg, cdObservedGeneration = g, cdLastTransitionTime = 0\<rparr>" s] by auto
  then show ?thesis unfolding setCondition_def by (intro obeys_rules) auto
qed

lemma shrink_storage:
  assumes "status_conditions (setStatusCondition env) (removeStatusCondition env) (findStatusCondition env)"
    and "shrinks ws app"
  shows "obeys (withStorage env r ws app k) (\<lambda>x es. es = [] \<and> fst x = Inr Done \<and> phase (snd x) = phase ws \<and>
    (\<exists>c. findStatusCondition env (Conditions (wsStatus (snd x))) CondStorageShrinkRejected = Some c \<and>
         cdStatus c = ConditionTrue))"
  unfolding withStorage_def reconcilePVC_def using assms(2)
  by (intro obeys_andThen) (auto intro!: obeys_rules obeys_mono [OF setCondition_effect [OF assms(1)]])


definition sampleReconciler :: "('s, 'x) env_scheme \<Rightarrow> 's wsReconciler" where
  "sampleReconciler env = \<lparr>rAdmitter = NewAdmitter env, PodCIDR = ''10.0.0.0/16'', NodeCIDR = ''10.1.0.0/16'',
     PendingRetryInterval = 0, StartingPollInterval = 0, SteadyStateInterval = 0\<rparr>"

definition grownWs :: workspace where
  "grownWs = setStatus (\<lambda>s. s\<lparr>LargestObservedSize := Some 20\<rparr>) (readyWs ''u1'' 0)"

lemma sampleEnv_conditions:
  "status_conditions (setStatusCondition sampleEnv) (removeStatusCondition sampleEnv) (findStatusCondition sampleEnv)"
  using list_conditions.status_conditions_axioms [of fst] by (simp add: sampleEnv_def)


text \<open>The rendered Deployment's hash does not depend on the Workspace's status: the replica count is
  blanked before hashing, and nothing else of the status is rendered.\<close>

lemma specHash_status:
  assumes "wsSpec ws' = wsSpec ws" and "wsMeta ws' = wsMeta ws"
  shows "lookupStr (Annotations (depMeta (RenderWorkspaceDeployment env app ws'))) AnnSpecHash =
         lookupStr (Annotations (depMeta (RenderWorkspaceDeployment env app ws))) AnnSpecHash"
  using assms
  by (simp add: RenderWorkspaceDeployment_def WorkspaceSpecHash_def workspaceDeploymentSpec_def childName_def
      lookupStr_def Let_def)

lemma bringForward_not_stale [simp]: "\<not> specStale d (bringForward d b n)"
  by (simp add: specStale_def bringForward_def lookupStr_def Let_def update_conv')

text \<open>Claim C31. Bringing a workspace's Deployment forward converges: once a pass has patched it, a later pass
  with the same app, whatever the workspace's status has become in between, finds the hash equal
  and, for the same replica count, writes nothing; going idle and waking alone never roll a
  workspace.\<close>

theorem ensure_deployment_converges:
  assumes "wsSpec ws' = wsSpec ws" and "wsMeta ws' = wsMeta ws"
    and "\<And>c. fst (rGet (deployments env) (depKey ws app) c) =
      Inr (bringForward (RenderWorkspaceDeployment env app ws') dep want)"
  shows "emits read_only (ensureDeployment env ws app want)"
proof -
  let ?dep = "bringForward (RenderWorkspaceDeployment env app ws') dep want"
  have fresh: "\<not> specStale (RenderWorkspaceDeployment env app ws) ?dep" "\<not> replicasDiffer ?dep want"
    using bringForward_not_stale [of "RenderWorkspaceDeployment env app ws'" dep want]
    by (simp_all add: specStale_def specHash_status [OF assms(1,2)] replicasDiffer_def)
  show ?thesis
    unfolding emits_def ensureDeployment_def
    by (intro obeys_rules) (use fresh assms(3) in \<open>auto simp: depKey_def\<close>)
qed

definition convergedEnv :: "(gotime \<times> workspace list) env" where
  "convergedEnv = sampleEnv\<lparr>deployments := refusing\<lparr>rGet := \<lambda>_ s.
     (Inr (bringForward (RenderWorkspaceDeployment sampleEnv sampleApp (readyWs ''u1'' 0))
             (RenderWorkspaceDeployment sampleEnv sampleApp (readyWs ''u1'' 0)) 0), s)\<rparr>\<rparr>"

lemma render_convergedEnv:
  "RenderWorkspaceDeployment convergedEnv app ws = RenderWorkspaceDeployment sampleEnv app ws"
  by (simp add: RenderWorkspaceDeployment_def WorkspaceSpecHash_def convergedEnv_def)

theorem ensure_deployment_converges_witness:
  "emits read_only (ensureDeployment convergedEnv (idleWs ''u1'' 0) sampleApp 0)"
proof (rule ensure_deployment_converges)
  fix c :: "gotime \<times> workspace list"
  show "fst (rGet (deployments convergedEnv) (depKey (idleWs ''u1'' 0) sampleApp) c) =
    Inr (bringForward (RenderWorkspaceDeployment convergedEnv sampleApp (readyWs ''u1'' 0))
           (RenderWorkspaceDeployment sampleEnv sampleApp (readyWs ''u1'' 0)) 0)"
    unfolding render_convergedEnv by (simp add: convergedEnv_def)
qed (simp_all add: sample_defs)

text \<open>A start ends: once the clock has passed the start deadline of a Starting workspace, the part of
  the pass that looks at its Deployment and pod leaves it Ready or Failed, or stops with an API
  error; it never leaves it Starting.\<close>

theorem start_ends:
  assumes "StartDeadline (wsStatus ws) = Some d" and "\<And>c. d \<le> fst (clock env c)"
  shows "obeys (startingExit env (realReconciler env r) ws app p)
    (\<lambda>x _. phase (snd x) \<in> {PhaseReady, PhaseFailed} \<or> (\<exists>e. fst x = Inl e))"
  by (rule real_admitter.startingExit_leaves [OF _ assms]) simp

theorem start_ends_witness:
  "obeys (startingExit (sampleEnv\<lparr>clock := \<lambda>s. (500 * second, s)\<rparr>)
      (realReconciler (sampleEnv\<lparr>clock := \<lambda>s. (500 * second, s)\<rparr>) (sampleReconciler sampleEnv))
      (startingWs ''u1'') sampleApp None)
    (\<lambda>x _. phase (snd x) \<in> {PhaseReady, PhaseFailed} \<or> (\<exists>e. fst x = Inl e))"
  by (rule start_ends [of _ "120 * second"]) (simp_all add: sample_defs second_def)

text \<open>Two consequences of the code as written: a Failed workspace whose backoffUntil was never armed
  stays Failed with no requeue, and a failure to record a start failure produces that state.\<close>

theorem failed_without_backoff_is_stuck:
  assumes "phase ws = PhaseFailed" and "BackoffUntil (wsStatus ws) = None"
  shows "reconcilePhase env r ws app = ret (Inr Done, ws)"
  using assms by (simp add: reconcilePhase_def reconcileFailed_def)

theorem unrecorded_failure_has_no_backoff:
  assumes "\<And>b x c. \<exists>e. fst (rStatusPatch (workspaces env) b x c) = Inl e"
  shows "obeys (failStarting env (realReconciler env r) ws app reason)
    (\<lambda>ws' _. phase ws' = PhaseFailed \<and> BackoffUntil (wsStatus ws') = BackoffUntil (wsStatus ws))"
proof -
  have no: "fst (rStatusPatch (workspaces env) b x c) \<noteq> Inr y" for b x c y
    using assms [of b x c] by auto
  have rec: "obeys (RecordStartFailure env ws' app reason) (\<lambda>x _. snd x = ws')" for ws'
    unfolding RecordStartFailure_def by (intro obeys_rules) (auto simp: no)
  have adm: "recordStartFailure (rAdmitter (realReconciler env r)) = RecordStartFailure env"
    by (simp add: NewAdmitter_def)
  show ?thesis
    unfolding failStarting_def adm by (intro obeys_rules obeys_mono [OF rec]) auto
qed

end
