(* ===== verification/Gated_Pass.thy ===== *)
theory Gated_Pass
  imports Cluster
begin

text \<open>
  The periodic passes of the Reaper and the Reclaimer share one shape: walk over the apps, skip an
  app whose own interval has not elapsed since the last successful pass over it, do the work, and
  advance the app's gate only if the work succeeded; the first error is the pass's result.

  The locale \<open>gated_pass\<close> states that shape as laws of a loop and proves its consequences once; the
  theories Reaper and Reclaimer interpret it on their own loops.
\<close>

type_synonym passes = "key \<Rightarrow> gotime option"

definition appKey :: "perUserApp \<Rightarrow> key" where
  "appKey app = (Namespace (appMeta app), Name (appMeta app))"

text \<open>\<open>last, seen := r.lastPass[key]; seen && now.Sub(last) < interval\<close>\<close>

definition gated :: "passes \<Rightarrow> gotime \<Rightarrow> duration \<Rightarrow> perUserApp \<Rightarrow> bool" where
  "gated lastPass t interval app =
     (case lastPass (appKey app) of None \<Rightarrow> False | Some prev \<Rightarrow> timeSub t prev < interval)"

definition firstError :: "error option \<Rightarrow> error \<Rightarrow> error option" where
  "firstError e err = (case e of None \<Rightarrow> Some err | Some _ \<Rightarrow> e)"

lemma firstError_not_None [simp]: "firstError e err \<noteq> None"
  by (simp add: firstError_def split: option.split)

text \<open>The app is not due at time \<open>t\<close>, or has just been worked on.\<close>

definition settled :: "passes \<Rightarrow> gotime \<Rightarrow> duration \<Rightarrow> perUserApp \<Rightarrow> bool" where
  "settled lastPass t interval app =
     (case lastPass (appKey app) of None \<Rightarrow> False | Some prev \<Rightarrow> prev = t \<or> timeSub t prev < interval)"

text \<open>The result of a pass that started with the gates \<open>lp\<close>: gates only move to the pass's own time, and
  without an error every eligible app of the listing is settled.\<close>

definition passOk ::
    "(perUserApp \<Rightarrow> bool) \<Rightarrow> (perUserApp \<Rightarrow> duration) \<Rightarrow> passes \<Rightarrow> gotime \<Rightarrow> perUserApp list \<Rightarrow>
     error option \<times> passes \<Rightarrow> bool" where
  "passOk eligible interval lp t apps x \<longleftrightarrow>
     (\<forall>k. snd x k = lp k \<or> snd x k = Some t) \<and>
     (fst x = None \<longrightarrow> (\<forall>app\<in>set apps. eligible app \<longrightarrow> settled (snd x) t (interval app) app))"

locale gated_pass =
  fixes loop :: "gotime \<Rightarrow> perUserApp list \<Rightarrow> passes \<Rightarrow> error option \<Rightarrow> ('s, error option \<times> passes) m"
    and eligible :: "perUserApp \<Rightarrow> bool"
    and interval :: "perUserApp \<Rightarrow> duration"
    and work :: "perUserApp \<Rightarrow> gotime \<Rightarrow> ('s, error option) m"
    and finish :: "perUserApp \<Rightarrow> gotime \<Rightarrow> ('s, unit) m"
  assumes loop_nil: "loop t [] lp e = ret (e, lp)"
    and loop_skip: "\<not> eligible app \<or> gated lp t (interval app) app \<Longrightarrow> loop t (app # apps) lp e = loop t apps lp e"
    and loop_due: "eligible app \<Longrightarrow> \<not> gated lp t (interval app) app \<Longrightarrow>
      loop t (app # apps) lp e = do {
        r \<leftarrow> work app t;
        case r of
          Some err \<Rightarrow> loop t apps lp (firstError e err)
        | None \<Rightarrow> do { finish app t; loop t apps (lp(appKey app \<mapsto> t)) e }
      }"
    and finish_runs: "obeys (finish app t) (\<lambda>_ _. True)"
    and work_runs: "obeys (work app t) (\<lambda>_ _. True)"
begin

lemma loop_cases:
  assumes "\<not> eligible app \<or> gated lp t (interval app) app \<Longrightarrow> P (loop t apps lp e)"
    and "eligible app \<Longrightarrow> \<not> gated lp t (interval app) app \<Longrightarrow>
      P (do {
        r \<leftarrow> work app t;
        case r of
          Some err \<Rightarrow> loop t apps lp (firstError e err)
        | None \<Rightarrow> do { finish app t; loop t apps (lp(appKey app \<mapsto> t)) e }
      })"
  shows "P (loop t (app # apps) lp e)"
  using assms loop_skip loop_due by metis

text \<open>Only eligible apps of the list are worked on.\<close>

lemma loop_emits:
  assumes "\<And>app. app \<in> set apps \<Longrightarrow> eligible app \<Longrightarrow> emits P (work app t)"
    and "\<And>app. app \<in> set apps \<Longrightarrow> eligible app \<Longrightarrow> emits P (finish app t)"
  shows "emits P (loop t apps lp e)"
  using assms
proof (induction apps arbitrary: lp e)
  case Nil
  then show ?case by (simp add: loop_nil emits_return)
next
  case (Cons app apps)
  show ?case by (rule loop_cases) (auto intro!: emits_rules Cons)
qed

text \<open>A gate is either left alone or set to the time of this pass, and only for an app of the list.\<close>

lemma loop_gates:
  "obeys (loop t apps lp e) (\<lambda>x _. \<forall>k. snd x k = lp k \<or> (snd x k = Some t \<and> k \<in> appKey ` set apps))"
proof (induction apps arbitrary: lp e)
  case Nil
  then show ?case by (simp add: loop_nil obeys_return)
next
  case (Cons app apps)
  show ?case
    by (rule loop_cases)
      (intro obeys_rules obeys_mono [OF Cons.IH] obeys_mono [OF work_runs] obeys_mono [OF finish_runs];
       fastforce split: if_splits)+
qed

text \<open>An error once met is the result.\<close>

lemma loop_error: "e \<noteq> None \<Longrightarrow> obeys (loop t apps lp e) (\<lambda>x _. fst x = e)"
proof (induction apps arbitrary: lp)
  case Nil
  then show ?case by (simp add: loop_nil obeys_return)
next
  case (Cons app apps)
  have [simp]: "firstError e err = e" for err using Cons.prems by (auto simp: firstError_def)
  show ?case
    by (rule loop_cases)
      (intro obeys_rules obeys_mono [OF Cons.IH [OF Cons.prems]] obeys_mono [OF work_runs]
        obeys_mono [OF finish_runs]; simp add: Cons)+
qed

text \<open>A pass without an error leaves no eligible app due: each was gated at its turn or has just been
  worked on.\<close>

lemma loop_settles:
  "obeys (loop t apps lp None) (\<lambda>x _. fst x = None \<longrightarrow>
     (\<forall>app\<in>set apps. eligible app \<longrightarrow> settled (snd x) t (interval app) app) \<and>
     (\<forall>app. settled lp t (interval app) app \<longrightarrow> settled (snd x) t (interval app) app))"
proof (induction apps arbitrary: lp)
  case Nil
  then show ?case by (simp add: loop_nil obeys_return)
next
  case (Cons app apps)
  have upd: "settled lp t (interval a) a \<Longrightarrow> settled (lp(appKey app \<mapsto> t)) t (interval a) a" "settled (lp(appKey app \<mapsto> t)) t (interval app) app" for a
    by (auto simp: settled_def)
  have gat: "gated lp t (interval app) app \<Longrightarrow> settled lp t (interval app) app"
    by (auto simp: gated_def settled_def split: option.splits)
  show ?case
  proof (rule loop_cases)
    assume "\<not> eligible app \<or> gated lp t (interval app) app"
    then show "obeys (loop t apps lp None) (\<lambda>x _. fst x = None \<longrightarrow>
     (\<forall>app\<in>set (app # apps). eligible app \<longrightarrow> settled (snd x) t (interval app) app) \<and>
     (\<forall>app. settled lp t (interval app) app \<longrightarrow> settled (snd x) t (interval app) app))"
      using gat by (intro obeys_mono [OF Cons.IH]) auto
  next
    assume "eligible app" and "\<not> gated lp t (interval app) app"
    show "obeys (do {
        r \<leftarrow> work app t;
        case r of
          Some err \<Rightarrow> loop t apps lp (firstError None err)
        | None \<Rightarrow> do { finish app t; loop t apps (lp(appKey app \<mapsto> t)) None }
      }) (\<lambda>x _. fst x = None \<longrightarrow>
     (\<forall>app\<in>set (app # apps). eligible app \<longrightarrow> settled (snd x) t (interval app) app) \<and>
     (\<forall>app. settled lp t (interval app) app \<longrightarrow> settled (snd x) t (interval app) app))"
      by (intro obeys_rules obeys_mono [OF work_runs] obeys_mono [OF finish_runs]
          obeys_mono [OF Cons.IH] obeys_mono [OF loop_error])
        (use upd in \<open>auto simp: fun_upd_def\<close>)
  qed
qed

lemma loop_ok: "obeys (loop t apps lp None) (\<lambda>x _. passOk eligible interval lp t apps x)"
  by (rule obeys_mono [OF obeys_conj [OF loop_gates loop_settles]]) (unfold passOk_def, blast)

text \<open>A failed app keeps its gate, so the next tick tries it again.\<close>

lemma loop_failed_gate:
  assumes "\<And>app. app \<in> set apps \<Longrightarrow> appKey app = k \<Longrightarrow> obeys (work app t) (\<lambda>r _. r \<noteq> None)"
  shows "obeys (loop t apps lp e) (\<lambda>x _. snd x k = lp k)"
  using assms
proof (induction apps arbitrary: lp e)
  case Nil
  then show ?case by (simp add: loop_nil obeys_return)
next
  case (Cons app apps)
  note IH = Cons.IH [OF Cons.prems]
  show ?case
  proof (cases "appKey app = k")
    case True
    show ?thesis
      by (rule loop_cases)
        (intro obeys_rules obeys_mono [OF Cons.prems [of app]] obeys_mono [OF IH]; simp add: True IH)+
  next
    case False
    show ?thesis
      by (rule loop_cases)
        (intro obeys_rules obeys_mono [OF work_runs] obeys_mono [OF finish_runs] obeys_mono [OF IH];
         use False in \<open>auto simp: IH\<close>)+
  qed
qed

end

end
