(* ===== verification/Reaper.thy ===== *)
theory Reaper
  imports Gated_Pass Samples
begin

text \<open>
  \<open>internal/controller/reaper.go\<close>: scaling idle workspaces to zero. \<open>Reap\<close> is one gated pass over
  all apps, \<open>reapApp\<close> one app, \<open>isReapable\<close> the predicate, \<open>ScaleDown\<close> the only write. The map
  \<open>lastPass\<close>, in-memory state of the process, is passed and returned.

  Shown here: the only write of a pass sets \<open>scaledDown\<close> of a listed, reapable workspace on the
  resource version that was read; a workspace with a live connection is never reapable, as long as
  the connection counts do not overflow an int32; the gate advances only on success.
\<close>

section \<open>The reap predicate\<close>

definition connThreshold :: "perUserApp \<Rightarrow> duration" where
  "connThreshold app = wrap64 (2 * ConnectionHeartbeatInterval (spLifecycle (appSpec app)))"

fun sumFresh :: "duration \<Rightarrow> gotime \<Rightarrow> (string \<times> connectionEntry) list \<Rightarrow> int \<Rightarrow> int" where
  "sumFresh threshold t [] acc = acc"
| "sumFresh threshold t ((_, entry) # rest) acc =
     sumFresh threshold t rest
       (if timeSub t (ceHeartbeatAt entry) < threshold then wrap32 (acc + ceCount entry) else acc)"

definition freshConnectionCount :: "workspace \<Rightarrow> perUserApp \<Rightarrow> gotime \<Rightarrow> int" where
  "freshConnectionCount ws app t = sumFresh (connThreshold app) t (Connections (wsStatus ws)) 0"

definition isReapable :: "workspace \<Rightarrow> perUserApp \<Rightarrow> gotime \<Rightarrow> bool" where
  "isReapable ws app t =
     (if phase ws \<noteq> PhaseReady then False
      else if ScaledDown (wsStatus ws) then False
      else case LastActivity (wsStatus ws) of
        None \<Rightarrow> False
      | Some activity \<Rightarrow>
          if timeSub t activity \<le> IdleTimeout (spLifecycle (appSpec app)) then False
          else freshConnectionCount ws app t = 0)"

section \<open>The pass\<close>

definition scaledDown :: "workspace \<Rightarrow> workspace" where
  "scaledDown ws = setStatus (\<lambda>s. s\<lparr>ScaledDown := True\<rparr>) ws"

definition ScaleDown :: "('s, 'x) env_scheme \<Rightarrow> workspace \<Rightarrow> ('s, error option) m" where
  "ScaleDown env ws = do {
     r \<leftarrow> doStatusUpdate (workspaces env) WsObj (scaledDown ws);
     case r of
       Inl e \<Rightarrow> ret (Some e)
     | Inr _ \<Rightarrow> do {
         record_metric (RecordWorkspaceReaped (Namespace (wsMeta ws)) (wsAppRef (wsSpec ws)) ReapReasonIdle);
         ret None
       }
   }"

fun reapAll ::
    "('s, 'x) env_scheme \<Rightarrow> perUserApp \<Rightarrow> gotime \<Rightarrow> workspace list \<Rightarrow> error option \<Rightarrow> ('s, error option) m" where
  "reapAll env app t [] err = ret err"
| "reapAll env app t (ws # rest) err =
     (if \<not> isReapable ws app t then reapAll env app t rest err
      else do {
        r \<leftarrow> ScaleDown env ws;
        case r of
          None \<Rightarrow> reapAll env app t rest err
        | Some e \<Rightarrow>
            if IsConflict e then reapAll env app t rest err
            else reapAll env app t rest (firstError err e)
      })"

definition reapApp :: "('s, 'x) env_scheme \<Rightarrow> perUserApp \<Rightarrow> gotime \<Rightarrow> ('s, error option) m" where
  "reapApp env app t = do {
     l \<leftarrow> doList (workspaces env) KWorkspace (Namespace (appMeta app)) [(LabelApp, appName app)];
     case l of
       Inl e \<Rightarrow> ret (Some e)
     | Inr items \<Rightarrow> reapAll env app t items None
   }"

fun reapLoop ::
    "('s, 'x) env_scheme \<Rightarrow> gotime \<Rightarrow> perUserApp list \<Rightarrow> passes \<Rightarrow> error option \<Rightarrow> ('s, error option \<times> passes) m" where
  "reapLoop env t [] lastPass err = ret (err, lastPass)"
| "reapLoop env t (app # apps) lastPass err =
     (if gated lastPass t (ReapInterval (spLifecycle (appSpec app))) app
      then reapLoop env t apps lastPass err
      else do {
        r \<leftarrow> reapApp env app t;
        case r of
          Some e \<Rightarrow> reapLoop env t apps lastPass (firstError err e)
        | None \<Rightarrow> do {
            record_metric (SetReaperLastCompletion (Namespace (appMeta app)) (appName app) (timeUnix t));
            reapLoop env t apps (lastPass(appKey app \<mapsto> t)) err
          }
      })"

definition Reap :: "('s, 'x) env_scheme \<Rightarrow> passes \<Rightarrow> ('s, error option \<times> passes) m" where
  "Reap env lastPass = do {
     t \<leftarrow> now env;
     l \<leftarrow> doList (perUserApps env) KPerUserApp [] [];
     case l of
       Inl e \<Rightarrow> ret (Some e, lastPass)
     | Inr apps \<Rightarrow> reapLoop env t apps lastPass None
   }"

section \<open>Live connections protect a workspace\<close>

definition liveCount :: "perUserApp \<Rightarrow> gotime \<Rightarrow> (string \<times> connectionEntry) list \<Rightarrow> int" where
  "liveCount app t cs =
     sum_list (map (ceCount \<circ> snd) (filter (\<lambda>c. timeSub t (ceHeartbeatAt (snd c)) < connThreshold app) cs))"

lemma liveCount_nonneg: "\<forall>c\<in>set cs. 0 \<le> ceCount (snd c) \<Longrightarrow> 0 \<le> liveCount app t cs"
  unfolding liveCount_def by (intro sum_list_nonneg) auto

lemma sumFresh_exact:
  assumes "\<forall>c\<in>set cs. 0 \<le> ceCount (snd c)" and "0 \<le> acc" and "acc + liveCount app t cs < 2 ^ 31"
  shows "sumFresh (connThreshold app) t cs acc = acc + liveCount app t cs"
  using assms
proof (induction cs arbitrary: acc)
  case Nil
  then show ?case by (simp add: liveCount_def)
next
  case (Cons c cs)
  obtain k entry where c: "c = (k, entry)" by (cases c)
  have nonneg: "0 \<le> liveCount app t cs" using Cons.prems liveCount_nonneg by simp
  show ?case
  proof (cases "timeSub t (ceHeartbeatAt entry) < connThreshold app")
    case True
    then have step: "liveCount app t (c # cs) = ceCount entry + liveCount app t cs"
      by (simp add: liveCount_def c)
    then have "in_int32 (acc + ceCount entry)"
      using Cons.prems nonneg c by (simp add: in_int32_def)
    then show ?thesis using Cons.IH [of "acc + ceCount entry"] Cons.prems step True c by simp
  next
    case False
    then have "liveCount app t (c # cs) = liveCount app t cs" by (simp add: liveCount_def c)
    then show ?thesis using Cons False c by simp
  qed
qed

text \<open>An entry keeps a workspace up: its heartbeat is fresh and it counts at least one connection.\<close>

definition keepsAlive :: "perUserApp \<Rightarrow> gotime \<Rightarrow> string \<times> connectionEntry \<Rightarrow> bool" where
  "keepsAlive app t c \<longleftrightarrow> timeSub t (ceHeartbeatAt (snd c)) < connThreshold app \<and> 0 < ceCount (snd c)"

lemma liveCount_zero_iff:
  assumes "\<forall>c\<in>set cs. 0 \<le> ceCount (snd c)"
  shows "liveCount app t cs = 0 \<longleftrightarrow> \<not> list_ex (keepsAlive app t) cs"
  using assms
proof (induction cs)
  case Nil
  then show ?case by (simp add: liveCount_def)
next
  case (Cons c cs)
  then have "0 \<le> liveCount app t cs" "0 \<le> ceCount (snd c)" using liveCount_nonneg by auto
  with Cons show ?case by (auto simp: liveCount_def keepsAlive_def)
qed

lemma freshConnectionCount_zero_iff:
  assumes "\<forall>c\<in>set (Connections (wsStatus ws)). 0 \<le> ceCount (snd c)"
    and "liveCount app t (Connections (wsStatus ws)) < 2 ^ 31"
  shows "freshConnectionCount ws app t = 0 \<longleftrightarrow> \<not> list_ex (keepsAlive app t) (Connections (wsStatus ws))"
  using sumFresh_exact [OF assms(1), of 0 app t] assms(2) liveCount_zero_iff [OF assms(1)]
  by (simp add: freshConnectionCount_def)

text \<open>Claim C10. Exactly the idle workspaces are scaled down: if the connection counts are not negative and
  their fresh sum fits an int32, a workspace is reapable if and only if it is Ready, not scaled down
  yet, was last active longer than the idle timeout ago, and no replica has published a positive
  connection count with a fresh heartbeat. So a user with a live connection is never scaled down,
  however long the last activity lies back.\<close>

theorem reapable_exact:
  assumes "\<forall>c\<in>set (Connections (wsStatus ws)). 0 \<le> ceCount (snd c)"
    and "liveCount app t (Connections (wsStatus ws)) < 2 ^ 31"
  shows "isReapable ws app t \<longleftrightarrow>
    phase ws = PhaseReady \<and> \<not> ScaledDown (wsStatus ws) \<and>
    (\<exists>a. LastActivity (wsStatus ws) = Some a \<and> IdleTimeout (spLifecycle (appSpec app)) < timeSub t a) \<and>
    \<not> list_ex (keepsAlive app t) (Connections (wsStatus ws))"
  using freshConnectionCount_zero_iff [OF assms]
  by (auto simp: isReapable_def not_le split: option.split)

definition busyWs :: workspace where
  "busyWs = setStatus (\<lambda>s. s\<lparr>Connections := [(''router-0'', \<lparr>ceCount = 0, ceHeartbeatAt = 9000 * second\<rparr>),
     (''router-1'', \<lparr>ceCount = 2, ceHeartbeatAt = 8990 * second\<rparr>)]\<rparr>) (readyWs ''u1'' 0)"

theorem reapable_exact_witness:
  "\<not> isReapable busyWs sampleApp (9000 * second) \<and> isReapable busyWs sampleApp (9060 * second)"
  using reapable_exact [of busyWs sampleApp "9000 * second"] reapable_exact [of busyWs sampleApp "9060 * second"]
  by (simp add: busyWs_def liveCount_def keepsAlive_def connThreshold_def timeSub_def wrap64_def second_def sample_defs)

section \<open>What a reap pass writes\<close>

text \<open>The write of the Reaper: a status update of a listed and reapable workspace, with \<open>scaledDown\<close>
  set and everything else, the resource version included, as read.\<close>

inductive reaper_write :: "('s, 'x) env_scheme \<Rightarrow> event \<Rightarrow> bool" for env :: "('s, 'x) env_scheme" where
  read: "is_read c \<Longrightarrow> reaper_write env (Api c er)"
| metric: "reaper_write env (Metric mt)"
| scale: "fst (rList (workspaces env) (Namespace (appMeta app)) [(LabelApp, appName app)] c) = Inr items \<Longrightarrow>
    ws \<in> set items \<Longrightarrow> fst (clock env c') = t \<Longrightarrow> isReapable ws app t \<Longrightarrow>
    reaper_write env (Api (StatusUpdate (WsObj (scaledDown ws))) er)"

lemma reapAll_writes:
  assumes "fst (rList (workspaces env) (Namespace (appMeta app)) [(LabelApp, appName app)] c) = Inr items"
    and "set ws \<subseteq> set items" and "fst (clock env c') = t"
  shows "emits (reaper_write env) (reapAll env app t ws err)"
  using assms(2)
proof (induction ws arbitrary: err)
  case Nil
  then show ?case by (simp add: emits_return)
next
  case (Cons w ws)
  then show ?case
    by (auto simp: ScaleDown_def intro!: emits_rules reaper_write.metric
        reaper_write.scale [OF assms(1) _ assms(3)])
qed

lemma reapApp_writes:
  assumes "fst (clock env c') = t"
  shows "emits (reaper_write env) (reapApp env app t)"
  unfolding reapApp_def
  by (intro emits_bind_answer emits_case_sum emits_return emits_calls)
    (auto intro: emits_rules reaper_write.read reapAll_writes [OF _ subset_refl assms])

interpretation reaping: gated_pass "reapLoop env" "\<lambda>_. True" "\<lambda>app. ReapInterval (spLifecycle (appSpec app))"
  "reapApp env"
  "\<lambda>app t. record_metric (SetReaperLastCompletion (Namespace (appMeta app)) (appName app) (timeUnix t))" for env
proof unfold_locales
  fix app t
  have "obeys (reapAll env app t ws err) (\<lambda>_ _. True)" for ws err
    by (induction ws arbitrary: err) (auto simp: ScaleDown_def intro!: obeys_rules)
  then show "obeys (reapApp env app t) (\<lambda>_ _. True)"
    unfolding reapApp_def by (intro obeys_rules) auto
qed (simp_all add: obeys_rules)

text \<open>The Reaper's write contract: one pass writes nothing but status updates that set scaledDown
  of a workspace it listed and found reapable at the time of the pass, carrying everything else of
  the workspace, its resource version included, exactly as read (so a write that lost a race is
  refused as a whole).\<close>

lemma reap_writes: "emits (reaper_write env) (Reap env lastPass)"
  unfolding Reap_def
  by (intro emits_bind_answer emits_case_sum emits_return emits_calls reaping.loop_emits)
    (auto intro: emits_rules reapApp_writes reaper_write.metric reaper_write.read)

text \<open>The reap gate: a pass changes an app's gate only to its own time, and if it returns no error
  every app of its listing is settled, that is, looked at in this very pass or in one less than
  that app's own reapInterval ago.\<close>

theorem reap_gate:
  "obeys (reapLoop env t apps lastPass None)
     (\<lambda>x _. passOk (\<lambda>_. True) (\<lambda>app. ReapInterval (spLifecycle (appSpec app))) lastPass t apps x)"
  by (rule reaping.loop_ok)

text \<open>An app whose workspaces cannot be listed keeps its gate, so the next tick tries it again.\<close>

lemma reap_failed_gate:
  assumes "\<And>app. app \<in> set apps \<Longrightarrow> appKey app = k \<Longrightarrow>
      (\<And>c. \<exists>e. fst (rList (workspaces env) (Namespace (appMeta app)) [(LabelApp, appName app)] c) = Inl e)"
  shows "obeys (reapLoop env t apps lastPass err) (\<lambda>x _. snd x k = lastPass k)"
proof (rule reaping.loop_failed_gate)
  fix app assume "app \<in> set apps" and "appKey app = k"
  then have no: "fst (rList (workspaces env) (Namespace (appMeta app)) [(LabelApp, appName app)] c) \<noteq> Inr y" for c y
    using assms by (metis sum.distinct(1))
  show "obeys (reapApp env app t) (\<lambda>r _. r \<noteq> None)"
    unfolding reapApp_def by (intro obeys_rules) (auto simp: no)
qed

end
