(* ===== verification/Reclaimer.thy ===== *)
theory Reclaimer
  imports Reaper Render
begin

text \<open>
  \<open>internal/controller/reclaimer.go\<close>: deleting the least recently used workspaces of an app that is
  over its target, with their claims. This is the only component that destroys a user's data.

  \<open>reclaimTargets\<close> is the part of \<open>reclaimApp\<close> that selects the workspaces of one listing. Shown here:
  what is selected (never a running workspace, never below the target, least recently used first),
  every write a pass may make, the order of the writes of one reclamation with its fail-stop
  behaviour, and the gate.
\<close>

section \<open>Selection\<close>

definition isReclaimable :: "workspace \<Rightarrow> perUserApp \<Rightarrow> reclaimSpec \<Rightarrow> gotime \<Rightarrow> bool" where
  "isReclaimable ws app rc t =
     (if DeletionTimestamp (wsMeta ws) \<noteq> None then False
      else if phase ws \<noteq> PhaseIdle \<and> phase ws \<noteq> PhaseFailed then False
      else case LastActivity (wsStatus ws) of
        None \<Rightarrow> False
      | Some activity \<Rightarrow>
          if timeSub t activity < MinIdleAge rc then False
          else freshConnectionCount ws app t = 0)"

definition lastActivityKey :: "workspace \<Rightarrow> gotime" where
  "lastActivityKey ws = (case LastActivity (wsStatus ws) of Some t \<Rightarrow> t | None \<Rightarrow> zeroTime)"

definition liveWorkspaces :: "workspace list \<Rightarrow> workspace list" where
  "liveWorkspaces items = filter (\<lambda>ws. DeletionTimestamp (wsMeta ws) = None) items"

definition reclaimTargets :: "perUserApp \<Rightarrow> reclaimSpec \<Rightarrow> gotime \<Rightarrow> workspace list \<Rightarrow> workspace list" where
  "reclaimTargets app rc t items =
     (let live = liveWorkspaces items; over = int (length live) - TargetWorkspaces rc in
      if over \<le> 0 then []
      else let sorted = sort_key lastActivityKey (filter (\<lambda>ws. isReclaimable ws app rc t) live) in
        if int (length sorted) > over then take (nat over) sorted else sorted)"

section \<open>One reclamation\<close>

definition PersistentVolumeReclaimDelete :: string where
  "PersistentVolumeReclaimDelete = ''Delete''"

definition releaseVolume :: "('s, 'x) env_scheme \<Rightarrow> persistentVolumeClaim \<Rightarrow> ('s, error option) m" where
  "releaseVolume env pvc =
     (if pvcVolumeName pvc = [] then ret None
      else do {
        g \<leftarrow> doGet (volumes env) KPV ([], pvcVolumeName pvc);
        case g of
          Inl e \<Rightarrow> ret (if IsNotFound e then None
                      else Some (Wrapped (''reading bound PersistentVolume '' @ pvcVolumeName pvc) e))
        | Inr pv \<Rightarrow>
            if pvReclaimPolicy pv = PersistentVolumeReclaimDelete then ret None
            else do {
              p \<leftarrow> doPatch (volumes env) PvObj pv (pv\<lparr>pvReclaimPolicy := PersistentVolumeReclaimDelete\<rparr>);
              case p of
                Inl e \<Rightarrow> ret (Some (Wrapped (''setting reclaim policy Delete on PersistentVolume '' @ Name (pvMeta pv)) e))
              | Inr _ \<Rightarrow> ret None
            }
      })"

text \<open>The claim after the patch is the server's copy.\<close>

definition markReclaiming ::
    "('s, 'x) env_scheme \<Rightarrow> persistentVolumeClaim \<Rightarrow> ('s, error + persistentVolumeClaim) m" where
  "markReclaiming env pvc =
     (if map_of (Annotations (pvcMeta pvc)) AnnReclaiming \<noteq> None then ret (Inr pvc)
      else do {
        t \<leftarrow> now env;
        doPatch (claims env) PvcObj pvc
          (pvc\<lparr>pvcMeta := (pvcMeta pvc)\<lparr>Annotations :=
             AList.update AnnReclaiming (FormatRFC3339 t) (Annotations (pvcMeta pvc))\<rparr>\<rparr>)
      })"

definition ignoreNotFound :: "error + 'a \<Rightarrow> error option" where
  "ignoreNotFound r = (case r of Inl e \<Rightarrow> if IsNotFound e then None else Some e | Inr _ \<Rightarrow> None)"

text \<open>The two deletions and the metric, the end of \<open>reclaimWorkspace\<close>.\<close>

definition deleteBoth ::
    "('s, 'x) env_scheme \<Rightarrow> perUserApp \<Rightarrow> workspace \<Rightarrow> persistentVolumeClaim \<Rightarrow> ('s, error option) m" where
  "deleteBoth env app ws pvc = do {
     d \<leftarrow> doDelete (workspaces env) WsObj ws;
     case ignoreNotFound d of
       Some e \<Rightarrow> ret (Some e)
     | None \<Rightarrow> do {
         d \<leftarrow> doDelete (claims env) PvcObj pvc;
         case ignoreNotFound d of
           Some e \<Rightarrow> ret (Some e)
         | None \<Rightarrow> do {
             record_metric (RecordWorkspaceReaped (Namespace (wsMeta ws)) (appName app) ReapReasonLRU);
             ret None
           }
       }
   }"

definition reclaimWorkspace ::
    "('s, 'x) env_scheme \<Rightarrow> perUserApp \<Rightarrow> reclaimSpec \<Rightarrow> workspace \<Rightarrow> ('s, error option) m" where
  "reclaimWorkspace env app rc ws = do {
     g \<leftarrow> doGet (claims env) KPVC (Namespace (wsMeta ws), childName app ws);
     case g of
       Inl e \<Rightarrow> if IsNotFound e then deleteBoth env app ws zeroPVC else ret (Some e)
     | Inr pvc \<Rightarrow> do {
         v \<leftarrow> (if DeleteVolumeData rc then releaseVolume env pvc else ret None);
         case v of
           Some e \<Rightarrow> ret (Some e)
         | None \<Rightarrow> do {
             k \<leftarrow> markReclaiming env pvc;
             case k of
               Inl e \<Rightarrow> ret (Some e)
             | Inr pvc \<Rightarrow> deleteBoth env app ws pvc
           }
       }
   }"

section \<open>The pass\<close>

definition orphaned :: "perUserApp \<Rightarrow> workspace list \<Rightarrow> persistentVolumeClaim \<Rightarrow> bool" where
  "orphaned app items pvc \<longleftrightarrow>
     DeletionTimestamp (pvcMeta pvc) = None \<and> map_of (Annotations (pvcMeta pvc)) AnnReclaiming \<noteq> None \<and>
     Name (pvcMeta pvc) \<notin> set (map (childName app) items)"

fun deleteOrphans ::
    "('s, 'x) env_scheme \<Rightarrow> perUserApp \<Rightarrow> workspace list \<Rightarrow> persistentVolumeClaim list \<Rightarrow> error option \<Rightarrow>
     ('s, error option) m" where
  "deleteOrphans env app items [] err = ret err"
| "deleteOrphans env app items (pvc # rest) err =
     (if \<not> orphaned app items pvc then deleteOrphans env app items rest err
      else do {
        d \<leftarrow> doDelete (claims env) PvcObj pvc;
        case ignoreNotFound d of
          Some e \<Rightarrow> deleteOrphans env app items rest (firstError err e)
        | None \<Rightarrow> deleteOrphans env app items rest err
      })"

definition reclaimOrphanedPVCs ::
    "('s, 'x) env_scheme \<Rightarrow> perUserApp \<Rightarrow> workspace list \<Rightarrow> ('s, error option) m" where
  "reclaimOrphanedPVCs env app items = do {
     l \<leftarrow> doList (claims env) KPVC (Namespace (appMeta app)) [(LabelApp, appName app)];
     case l of
       Inl e \<Rightarrow> ret (Some e)
     | Inr pvcs \<Rightarrow> deleteOrphans env app items pvcs None
   }"

fun reclaimAll ::
    "('s, 'x) env_scheme \<Rightarrow> perUserApp \<Rightarrow> reclaimSpec \<Rightarrow> workspace list \<Rightarrow> error option \<Rightarrow> ('s, error option) m" where
  "reclaimAll env app rc [] err = ret err"
| "reclaimAll env app rc (ws # rest) err = do {
     r \<leftarrow> reclaimWorkspace env app rc ws;
     case r of
       Some e \<Rightarrow> reclaimAll env app rc rest (firstError err e)
     | None \<Rightarrow> reclaimAll env app rc rest err
   }"

definition reclaimApp ::
    "('s, 'x) env_scheme \<Rightarrow> perUserApp \<Rightarrow> reclaimSpec \<Rightarrow> gotime \<Rightarrow> ('s, error option) m" where
  "reclaimApp env app rc t = do {
     l \<leftarrow> doList (workspaces env) KWorkspace (Namespace (appMeta app)) [(LabelApp, appName app)];
     case l of
       Inl e \<Rightarrow> ret (Some e)
     | Inr items \<Rightarrow> do {
         swept \<leftarrow> reclaimOrphanedPVCs env app items;
         case swept of
           Some e \<Rightarrow> ret (Some e)
         | None \<Rightarrow> reclaimAll env app rc (reclaimTargets app rc t items) None
       }
   }"

fun reclaimLoop ::
    "('s, 'x) env_scheme \<Rightarrow> gotime \<Rightarrow> perUserApp list \<Rightarrow> passes \<Rightarrow> error option \<Rightarrow> ('s, error option \<times> passes) m" where
  "reclaimLoop env t [] lastPass err = ret (err, lastPass)"
| "reclaimLoop env t (app # apps) lastPass err =
     (case spReclaim (appSpec app) of
        None \<Rightarrow> reclaimLoop env t apps lastPass err
      | Some rc \<Rightarrow>
          if \<not> rcEnabled rc then reclaimLoop env t apps lastPass err
          else if gated lastPass t (rcInterval rc) app then reclaimLoop env t apps lastPass err
          else do {
            r \<leftarrow> reclaimApp env app rc t;
            case r of
              Some e \<Rightarrow> reclaimLoop env t apps lastPass (firstError err e)
            | None \<Rightarrow> reclaimLoop env t apps (lastPass(appKey app \<mapsto> t)) err
          })"

definition Reclaim :: "('s, 'x) env_scheme \<Rightarrow> passes \<Rightarrow> ('s, error option \<times> passes) m" where
  "Reclaim env lastPass = do {
     t \<leftarrow> now env;
     l \<leftarrow> doList (perUserApps env) KPerUserApp [] [];
     case l of
       Inl e \<Rightarrow> ret (Some e, lastPass)
     | Inr apps \<Rightarrow> reclaimLoop env t apps lastPass None
   }"

section \<open>What is selected\<close>

definition reclaimQueue :: "perUserApp \<Rightarrow> reclaimSpec \<Rightarrow> gotime \<Rightarrow> workspace list \<Rightarrow> workspace list" where
  "reclaimQueue app rc t items =
     sort_key lastActivityKey (filter (\<lambda>ws. isReclaimable ws app rc t) (liveWorkspaces items))"

lemma reclaimTargets_take:
  "reclaimTargets app rc t items =
     take (nat (int (length (liveWorkspaces items)) - TargetWorkspaces rc)) (reclaimQueue app rc t items)"
  by (auto simp: reclaimTargets_def reclaimQueue_def Let_def)

lemma isReclaimable_iff:
  "isReclaimable ws app rc t \<longleftrightarrow>
     DeletionTimestamp (wsMeta ws) = None \<and> phase ws \<in> {PhaseIdle, PhaseFailed} \<and>
     (\<exists>a. LastActivity (wsStatus ws) = Some a \<and> MinIdleAge rc \<le> timeSub t a) \<and> freshConnectionCount ws app t = 0"
  by (auto simp: isReclaimable_def split: option.split)

lemma reclaimTargets_listed:
  "ws \<in> set (reclaimTargets app rc t items) \<Longrightarrow> ws \<in> set items \<and> isReclaimable ws app rc t"
  unfolding reclaimTargets_take by (drule in_set_takeD) (auto simp: reclaimQueue_def liveWorkspaces_def)

lemma reclaimTargets_least_recent:
  assumes "v \<in> set (reclaimTargets app rc t items)"
    and "w \<in> set (liveWorkspaces items)" and "isReclaimable w app rc t" and "w \<notin> set (reclaimTargets app rc t items)"
  shows "lastActivityKey v \<le> lastActivityKey w"
proof -
  let ?n = "nat (int (length (liveWorkspaces items)) - TargetWorkspaces rc)"
  let ?q = "reclaimQueue app rc t items"
  have "w \<in> set (take ?n ?q @ drop ?n ?q)" using assms by (simp add: reclaimQueue_def)
  with assms(4) have "w \<in> set (drop ?n ?q)" unfolding set_append reclaimTargets_take by blast
  with assms(1) show ?thesis
    unfolding reclaimTargets_take reclaimQueue_def by (intro take_sort_key_le)
qed


definition reclaimListing :: "workspace list" where
  "reclaimListing = [idleWs ''u1'' (30 * second), readyWs ''u2'' 0, idleWs ''u3'' (20 * second)]"


section \<open>What a reclaim pass writes\<close>

definition listed :: "('s, 'x) env_scheme \<Rightarrow> perUserApp \<Rightarrow> workspace list \<Rightarrow> bool" where
  "listed env app items \<longleftrightarrow>
     (\<exists>c. fst (rList (workspaces env) (Namespace (appMeta app)) [(LabelApp, appName app)] c) = Inr items)"

definition reclaimEnabled :: "perUserApp \<Rightarrow> reclaimSpec \<Rightarrow> bool" where
  "reclaimEnabled app rc \<longleftrightarrow> spReclaim (appSpec app) = Some rc \<and> rcEnabled rc"

definition selected :: "('s, 'x) env_scheme \<Rightarrow> perUserApp \<Rightarrow> reclaimSpec \<Rightarrow> workspace \<Rightarrow> bool" where
  "selected env app rc ws \<longleftrightarrow> reclaimEnabled app rc \<and>
     (\<exists>items c. listed env app items \<and> ws \<in> set (reclaimTargets app rc (fst (clock env c)) items))"

definition ownClaim :: "('s, 'x) env_scheme \<Rightarrow> perUserApp \<Rightarrow> workspace \<Rightarrow> persistentVolumeClaim \<Rightarrow> bool" where
  "ownClaim env app ws pvc \<longleftrightarrow>
     (\<exists>c. fst (rGet (claims env) (Namespace (wsMeta ws), childName app ws) c) = Inr pvc)"

text \<open>The claim the last deletion is given: the one that was read, the server's copy of it after the
  stamp, or the zero claim when there was none.\<close>

definition deletableClaim :: "('s, 'x) env_scheme \<Rightarrow> perUserApp \<Rightarrow> workspace \<Rightarrow> persistentVolumeClaim \<Rightarrow> bool" where
  "deletableClaim env app ws pvc \<longleftrightarrow> pvc = zeroPVC \<or> ownClaim env app ws pvc \<or>
     (\<exists>b x c. ownClaim env app ws b \<and> fst (rPatch (claims env) b x c) = Inr pvc)"

inductive reclaimer_write :: "('s, 'x) env_scheme \<Rightarrow> event \<Rightarrow> bool" for env :: "('s, 'x) env_scheme" where
  read: "is_read c \<Longrightarrow> reclaimer_write env (Api c er)"
| metric: "reclaimer_write env (Metric mt)"
| release: "selected env app rc ws \<Longrightarrow> DeleteVolumeData rc \<Longrightarrow> ownClaim env app ws pvc \<Longrightarrow>
    fst (rGet (volumes env) ([], pvcVolumeName pvc) c) = Inr pv \<Longrightarrow>
    reclaimer_write env (Api (Patch (PvObj pv) (PvObj (pv\<lparr>pvReclaimPolicy := PersistentVolumeReclaimDelete\<rparr>))) er)"
| stamp: "selected env app rc ws \<Longrightarrow> ownClaim env app ws pvc \<Longrightarrow>
    reclaimer_write env (Api (Patch (PvcObj pvc) (PvcObj (pvc\<lparr>pvcMeta := (pvcMeta pvc)\<lparr>Annotations :=
      AList.update AnnReclaiming stampedAt (Annotations (pvcMeta pvc))\<rparr>\<rparr>))) er)"
| workspace: "selected env app rc ws \<Longrightarrow> reclaimer_write env (Api (Delete (WsObj ws)) er)"
| claim: "selected env app rc ws \<Longrightarrow> deletableClaim env app ws pvc \<Longrightarrow>
    reclaimer_write env (Api (Delete (PvcObj pvc)) er)"
| orphan: "reclaimEnabled app rc \<Longrightarrow> listed env app items \<Longrightarrow> orphaned app items pvc \<Longrightarrow>
    reclaimer_write env (Api (Delete (PvcObj pvc)) er)"

lemma deleteBoth_writes:
  "selected env app rc ws \<Longrightarrow> deletableClaim env app ws pvc \<Longrightarrow>
   emits (reclaimer_write env) (deleteBoth env app ws pvc)"
  unfolding deleteBoth_def by (intro emits_rules) (auto intro: reclaimer_write.intros)

lemma releaseVolume_writes:
  assumes "selected env app rc ws" and "DeleteVolumeData rc" and "ownClaim env app ws pvc"
  shows "emits (reclaimer_write env) (releaseVolume env pvc)"
  unfolding releaseVolume_def
  by (intro emits_if emits_bind_answer emits_case_sum emits_return emits_calls)
    (auto intro: reclaimer_write.read reclaimer_write.release [OF assms])

lemma answer_doPatch [simp]: "fst (run_state (doPatch res mk b x) w) = fst (rPatch res b x (cluster w))"
  by (simp add: doPatch_def)

lemma markReclaiming_writes:
  assumes "selected env app rc ws" and "ownClaim env app ws pvc"
  shows "emits (reclaimer_write env) (markReclaiming env pvc)"
  unfolding markReclaiming_def
  by (intro emits_rules) (auto intro: reclaimer_write.stamp [OF assms])

lemma markReclaiming_answer:
  assumes "ownClaim env app ws pvc" and "fst (run_state (markReclaiming env pvc) w) = Inr pvc'"
  shows "deletableClaim env app ws pvc'"
proof (cases "map_of (Annotations (pvcMeta pvc)) AnnReclaiming = None")
  case True
  with assms(2) obtain x c where "fst (rPatch (claims env) pvc x c) = Inr pvc'"
    unfolding markReclaiming_def now_def doPatch_def by auto
  with assms(1) show ?thesis unfolding deletableClaim_def by blast
next
  case False
  with assms show ?thesis by (simp add: markReclaiming_def deletableClaim_def)
qed

lemma ownClaimI:
  "fst (rGet (claims env) (Namespace (wsMeta ws), childName app ws) c) = Inr pvc \<Longrightarrow> ownClaim env app ws pvc"
  by (auto simp: ownClaim_def)

lemma reclaimWorkspace_writes:
  assumes "selected env app rc ws"
  shows "emits (reclaimer_write env) (reclaimWorkspace env app rc ws)"
  unfolding reclaimWorkspace_def
proof (intro emits_bind_answer emits_case_sum emits_case_option emits_if emits_return emits_calls
    deleteBoth_writes [OF assms] releaseVolume_writes [OF assms] markReclaiming_writes [OF assms])
  show "deletableClaim env app ws zeroPVC" by (simp add: deletableClaim_def)
qed (auto intro: reclaimer_write.read markReclaiming_answer ownClaimI)

lemma reclaimAll_writes:
  "(\<And>ws. ws \<in> set targets \<Longrightarrow> selected env app rc ws) \<Longrightarrow>
   emits (reclaimer_write env) (reclaimAll env app rc targets err)"
  by (induction targets arbitrary: err) (auto intro!: emits_rules reclaimWorkspace_writes)

lemma deleteOrphans_writes:
  assumes "reclaimEnabled app rc" and "listed env app items"
  shows "emits (reclaimer_write env) (deleteOrphans env app items pvcs err)"
  by (induction pvcs arbitrary: err)
    (auto intro!: emits_rules intro: reclaimer_write.orphan [OF assms])

lemma reclaimApp_writes:
  assumes "reclaimEnabled app rc" and "fst (clock env c) = t"
  shows "emits (reclaimer_write env) (reclaimApp env app rc t)"
  unfolding reclaimApp_def reclaimOrphanedPVCs_def
proof (intro emits_bind_answer emits_case_sum emits_case_option emits_return emits_calls
    deleteOrphans_writes [OF assms(1)] reclaimAll_writes)
  fix x w items ws
  assume "fst (run_state (doList (workspaces env) KWorkspace (Namespace (appMeta app)) [(LabelApp, appName app)]) w) = x"
    and "x = Inr items" and "ws \<in> set (reclaimTargets app rc t items)"
  then show "selected env app rc ws"
    using assms unfolding selected_def listed_def answer_doList by blast
qed (auto simp: listed_def intro: reclaimer_write.read)

interpretation reclaiming: gated_pass "reclaimLoop env"
  "\<lambda>app. case spReclaim (appSpec app) of Some rc \<Rightarrow> rcEnabled rc | None \<Rightarrow> False"
  "\<lambda>app. case spReclaim (appSpec app) of Some rc \<Rightarrow> rcInterval rc | None \<Rightarrow> 0"
  "\<lambda>app t. case spReclaim (appSpec app) of Some rc \<Rightarrow> reclaimApp env app rc t | None \<Rightarrow> ret None"
  "\<lambda>app t. ret ()" for env
proof unfold_locales
  fix app t
  have sweep: "obeys (deleteOrphans env app items pvcs err) (\<lambda>_ _. True)" for items pvcs err
    by (induction pvcs arbitrary: err) (auto intro!: obeys_rules)
  have all: "obeys (reclaimAll env app rc targets err) (\<lambda>_ _. True)" for rc targets err
    by (induction targets arbitrary: err)
      (auto simp: reclaimWorkspace_def releaseVolume_def markReclaiming_def deleteBoth_def intro!: obeys_rules)
  show "obeys (case spReclaim (appSpec app) of Some rc \<Rightarrow> reclaimApp env app rc t | None \<Rightarrow> ret None) (\<lambda>_ _. True)"
    unfolding reclaimApp_def reclaimOrphanedPVCs_def
    by (intro obeys_rules obeys_mono [OF sweep] obeys_mono [OF all]) simp_all
qed (auto split: option.splits intro: obeys_rules)

lemma reclaim_writes: "emits (reclaimer_write env) (Reclaim env lastPass)"
  unfolding Reclaim_def
  by (intro emits_bind_answer emits_case_sum emits_return emits_calls reclaiming.loop_emits)
    (auto split: option.splits intro: reclaimer_write.read emits_rules
      intro!: reclaimApp_writes simp: reclaimEnabled_def)


section \<open>The order of one reclamation\<close>

fun is_delete :: "event \<Rightarrow> bool" where
  "is_delete (Api (Delete _) _) = True"
| "is_delete _ = False"

fun is_patch :: "event \<Rightarrow> bool" where
  "is_patch (Api (Patch _ _) _) = True"
| "is_patch _ = False"

fun hard_error :: "event \<Rightarrow> bool" where
  "hard_error (Api _ (Some e)) = (\<not> IsNotFound e)"
| "hard_error _ = False"

text \<open>Nothing at all happens after a hard error; no patch happens after a deletion.\<close>

fun fail_stop :: "event list \<Rightarrow> bool" where
  "fail_stop [] = True"
| "fail_stop (e # es) = ((hard_error e \<longrightarrow> es = []) \<and> fail_stop es)"

fun patches_first :: "event list \<Rightarrow> bool" where
  "patches_first [] = True"
| "patches_first (e # es) = ((is_delete e \<longrightarrow> \<not> list_ex is_patch es) \<and> patches_first es)"

text \<open>\<open>Q\<close> holds of the events before each deletion.\<close>

fun before_deletes :: "(event list \<Rightarrow> event \<Rightarrow> bool) \<Rightarrow> event list \<Rightarrow> event list \<Rightarrow> bool" where
  "before_deletes Q pre [] = True"
| "before_deletes Q pre (e # es) = ((is_delete e \<longrightarrow> Q pre e) \<and> before_deletes Q (pre @ [e]) es)"

text \<open>The volume bound to the claim is gone, already set to Delete, or was successfully set to Delete.\<close>

definition volumeReleased :: "('s, 'x) env_scheme \<Rightarrow> persistentVolumeClaim \<Rightarrow> event list \<Rightarrow> bool" where
  "volumeReleased env pvc pre \<longleftrightarrow> pvcVolumeName pvc = [] \<or>
     (\<exists>c e. fst (rGet (volumes env) ([], pvcVolumeName pvc) c) = Inl e \<and> IsNotFound e) \<or>
     (\<exists>c pv. fst (rGet (volumes env) ([], pvcVolumeName pvc) c) = Inr pv \<and>
        (pvReclaimPolicy pv = PersistentVolumeReclaimDelete \<or>
         Api (Patch (PvObj pv) (PvObj (pv\<lparr>pvReclaimPolicy := PersistentVolumeReclaimDelete\<rparr>))) None \<in> set pre))"

definition deletionReady :: "('s, 'x) env_scheme \<Rightarrow> perUserApp \<Rightarrow> reclaimSpec \<Rightarrow> workspace \<Rightarrow> event list \<Rightarrow> event \<Rightarrow> bool" where
  "deletionReady env app rc ws pre e \<longleftrightarrow>
     (\<exists>c er. fst (rGet (claims env) (Namespace (wsMeta ws), childName app ws) c) = Inl er \<and> IsNotFound er) \<or>
     (\<exists>pvc. ownClaim env app ws pvc \<and> (DeleteVolumeData rc \<longrightarrow> volumeReleased env pvc pre))"

definition claimAfterWorkspace :: "workspace \<Rightarrow> event list \<Rightarrow> event \<Rightarrow> bool" where
  "claimAfterWorkspace ws pre e \<longleftrightarrow>
     (\<forall>pvc er. e = Api (Delete (PvcObj pvc)) er \<longrightarrow> (\<exists>er'. Api (Delete (WsObj ws)) er' \<in> set pre))"

lemma ignoreNotFound_simps [simp]:
  "ignoreNotFound r = Some e \<longleftrightarrow> r = Inl e \<and> \<not> IsNotFound e"
  "ignoreNotFound r = None \<longleftrightarrow> (case r of Inl e \<Rightarrow> IsNotFound e | Inr _ \<Rightarrow> True)"
  by (auto simp: ignoreNotFound_def split: sum.splits if_splits)

lemmas reclaim_steps = reclaimWorkspace_def releaseVolume_def markReclaiming_def deleteBoth_def

lemma reclaim_fail_stop: "obeys (reclaimWorkspace env app rc ws) (\<lambda>_ es. fail_stop es \<and> patches_first es)"
  unfolding reclaim_steps by (intro obeys_rules) (auto split: sum.splits if_splits)

lemma reclaim_claim_last:
  "obeys (reclaimWorkspace env app rc ws) (\<lambda>_ es. before_deletes (claimAfterWorkspace ws) [] es)"
  unfolding reclaim_steps by (intro obeys_rules) (auto simp: claimAfterWorkspace_def split: sum.splits if_splits)

lemma before_deletes_append:
  "before_deletes Q pre (xs @ ys) \<longleftrightarrow> before_deletes Q pre xs \<and> before_deletes Q (pre @ xs) ys"
  by (induction xs arbitrary: pre) auto

lemma before_deletes_none: "list_all (\<lambda>e. \<not> is_delete e) es \<Longrightarrow> before_deletes Q pre es"
  by (induction es arbitrary: pre) auto

lemma before_deletes_all: "(\<And>ext e. Q (pre @ ext) e) \<Longrightarrow> before_deletes Q pre es"
proof (induction es arbitrary: pre)
  case (Cons e es)
  then show ?case using Cons.prems [of "[]"] Cons.prems [of "e # ext" for ext] by (auto intro!: Cons.IH)
qed simp

lemma volumeReleased_extends: "volumeReleased env pvc es \<Longrightarrow> volumeReleased env pvc (e # es @ ext)"
  unfolding volumeReleased_def by auto

lemma deletionReady_none:
  "fst (rGet (claims env) (Namespace (wsMeta ws), childName app ws) c) = Inl er \<Longrightarrow> IsNotFound er \<Longrightarrow>
   deletionReady env app rc ws pre e"
  unfolding deletionReady_def by blast

lemma deletionReady_claim:
  "fst (rGet (claims env) (Namespace (wsMeta ws), childName app ws) c) = Inr pvc \<Longrightarrow>
   (DeleteVolumeData rc \<Longrightarrow> volumeReleased env pvc pre) \<Longrightarrow> deletionReady env app rc ws pre e"
  unfolding deletionReady_def ownClaim_def by blast

lemmas deletionReady_released = deletionReady_claim [OF _ volumeReleased_extends]

lemma releaseVolume_releases:
  "obeys (releaseVolume env pvc) (\<lambda>r es. list_all (\<lambda>e. \<not> is_delete e) es \<and> (r = None \<longrightarrow> volumeReleased env pvc es))"
  unfolding releaseVolume_def volumeReleased_def
  by (intro obeys_rules) (auto split: if_splits)

lemma markReclaiming_no_delete: "obeys (markReclaiming env pvc) (\<lambda>_ es. list_all (\<lambda>e. \<not> is_delete e) es)"
  unfolding markReclaiming_def by (intro obeys_rules) auto

lemma deleteBoth_runs: "obeys (deleteBoth env app ws pvc) (\<lambda>_ _. True)"
  unfolding deleteBoth_def by (intro obeys_rules) simp_all

lemma reclaim_released:
  "obeys (reclaimWorkspace env app rc ws) (\<lambda>_ es. before_deletes (deletionReady env app rc ws) [] es)"
  unfolding reclaimWorkspace_def
proof (intro obeys_rules obeys_mono [OF releaseVolume_releases] obeys_mono [OF markReclaiming_no_delete]
    obeys_mono [OF deleteBoth_runs])
qed (auto simp: before_deletes_append before_deletes_none
      intro: deletionReady_none deletionReady_claim deletionReady_released intro!: before_deletes_all)

text \<open>Claim C3. The order of one reclamation: every patch comes before every deletion; the claim is deleted
  only after the Workspace; with deleteVolumeData no deletion happens before the bound volume is
  gone, already set to Delete, or was successfully set to Delete; and after any error other than
  NotFound nothing more is done, so a failure to release the volume deletes nothing.\<close>

theorem reclaim_order:
  "obeys (reclaimWorkspace env app rc ws) (\<lambda>_ es. fail_stop es \<and> patches_first es \<and>
     before_deletes (claimAfterWorkspace ws) [] es \<and> before_deletes (deletionReady env app rc ws) [] es)"
  by (rule obeys_mono [OF obeys_conj [OF obeys_conj [OF reclaim_fail_stop reclaim_claim_last] reclaim_released]]) simp

text \<open>The reclaim gate: a pass changes an app's gate only to its own time, and if it returns no
  error every app with reclamation enabled is settled with respect to its own reclaim interval.\<close>

theorem reclaim_gate:
  "obeys (reclaimLoop env t apps lastPass None)
     (\<lambda>x _. passOk (\<lambda>app. case spReclaim (appSpec app) of Some rc \<Rightarrow> rcEnabled rc | None \<Rightarrow> False)
        (\<lambda>app. case spReclaim (appSpec app) of Some rc \<Rightarrow> rcInterval rc | None \<Rightarrow> 0) lastPass t apps x)"
  by (rule reclaiming.loop_ok)

text \<open>A consequence of the code as written: when the claim does not exist, the second deletion is still
  issued, for a claim with no name.\<close>

theorem missing_claim_deletes_unnamed:
  assumes "\<And>c. \<exists>e. fst (rGet (claims env) (Namespace (wsMeta ws), childName app ws) c) = Inl e \<and> IsNotFound e"
    and "\<And>x c. fst (rDelete (workspaces env) x c) = Inr ()"
  shows "obeys (reclaimWorkspace env app rc ws)
    (\<lambda>_ es. (\<exists>er. Api (Delete (PvcObj zeroPVC)) er \<in> set es) \<and> Name (pvcMeta zeroPVC) = [])"
proof -
  have no: "fst (rGet (claims env) (Namespace (wsMeta ws), childName app ws) c) \<noteq> Inr y"
    "fst (rGet (claims env) (Namespace (wsMeta ws), childName app ws) c) = Inl e \<Longrightarrow> IsNotFound e" for c y e
    using assms(1) [of c] by auto
  show ?thesis
    unfolding reclaimWorkspace_def deleteBoth_def
    by (intro obeys_rules obeys_mono [OF releaseVolume_releases] obeys_mono [OF markReclaiming_no_delete])
      (auto simp: no assms(2) zeroPVC_def zeroMeta_def dest: no(2))
qed

end
