(* ===== verification/Router_Proxy.thy ===== *)
theory Router_Proxy
  imports Go_Std
begin

text \<open>
  \<open>internal/router/config.go\<close> and \<open>proxy.go\<close>: the router's startup contract, the header policy that
  every forwarded request goes through, and the recognition of upgrade requests.
\<close>

section \<open>Configuration\<close>

record config =
  cfgApp :: string
  cfgNamespace :: string
  IdentityHeader :: string
  IdentityMaxLength :: int
  cfgSharedPaths :: "string list"
  CallerAuthHeader :: string
  CallerAuthScheme :: string
  CallerAuthSecret :: string
  UpstreamAuthHeader :: string
  UpstreamAuthScheme :: string
  UpstreamAuthSecret :: string
  WorkspacePort :: int
  ColdStartHold :: duration
  cfgHeartbeatInterval :: duration
  cfgMaxWorkspaces :: int
  cfgPodName :: string
  ListenAddr :: string
  MetricsAddr :: string

text \<open>The file system is a parameter: what \<open>os.ReadFile\<close> answers for a path.\<close>

definition ReadSecretFile :: "(string \<Rightarrow> 'e + string) \<Rightarrow> string \<Rightarrow> 'e + string" where
  "ReadSecretFile readFile path =
     (case readFile path of Inl e \<Rightarrow> Inl e | Inr b \<Rightarrow> Inr (TrimRightNL b))"

section \<open>Header policy\<close>

definition upstreamCredential :: "config \<Rightarrow> string" where
  "upstreamCredential cfg =
     (if UpstreamAuthScheme cfg \<noteq> [] then UpstreamAuthScheme cfg @ '' '' @ UpstreamAuthSecret cfg
      else UpstreamAuthSecret cfg)"

definition applyHeaderPolicy :: "header \<Rightarrow> config \<Rightarrow> header" where
  "applyHeaderPolicy h0 cfg =
     (let h = HeaderDel h0 (CallerAuthHeader cfg);
          h = HeaderDel h (IdentityHeader cfg);
          h = HeaderDel h ''Cookie'';
          h = HeaderDel h ''Authorization'' in
      if UpstreamAuthHeader cfg = [] \<or> length (UpstreamAuthSecret cfg) = 0 then h
      else HeaderSet h (UpstreamAuthHeader cfg) (upstreamCredential cfg))"

definition strippedHeaders :: "config \<Rightarrow> string list" where
  "strippedHeaders cfg = [CallerAuthHeader cfg, IdentityHeader cfg, ''Cookie'', ''Authorization'']"

definition hasUpstreamCredential :: "config \<Rightarrow> bool" where
  "hasUpstreamCredential cfg \<longleftrightarrow> UpstreamAuthHeader cfg \<noteq> [] \<and> UpstreamAuthSecret cfg \<noteq> []"

lemma Values_policy:
  "Values (applyHeaderPolicy h cfg) name =
     (if hasUpstreamCredential cfg \<and> CanonicalHeaderKey name = CanonicalHeaderKey (UpstreamAuthHeader cfg)
      then [upstreamCredential cfg]
      else if list_ex (\<lambda>s. CanonicalHeaderKey name = CanonicalHeaderKey s) (strippedHeaders cfg) then []
      else Values h name)"
  by (simp add: applyHeaderPolicy_def strippedHeaders_def hasUpstreamCredential_def Let_def
      Values_HeaderDel Values_HeaderSet)

text \<open>Claim C20. The exact header set that reaches the workspace: the upstream credential header carries
  exactly the configured credential and nothing the caller sent; the caller's credential, the
  identity header, Cookie and Authorization (under any spelling) are gone; every other header,
  those that negotiate an upgrade included, arrives unchanged.\<close>

theorem header_policy_exact:
  "Values (applyHeaderPolicy h cfg) name =
     (if hasUpstreamCredential cfg \<and> CanonicalHeaderKey name = CanonicalHeaderKey (UpstreamAuthHeader cfg)
      then [upstreamCredential cfg]
      else if list_ex (\<lambda>s. CanonicalHeaderKey name = CanonicalHeaderKey s) (strippedHeaders cfg) then []
      else Values h name)"
  by (rule Values_policy)

section \<open>Upgrade requests\<close>

definition headerContainsToken :: "string \<Rightarrow> string \<Rightarrow> bool" where
  "headerContainsToken v token = list_ex (\<lambda>p. EqualFold (TrimSpace p) token) (Split (CHR '','') v)"

definition isUpgradeRequest :: "header \<Rightarrow> bool" where
  "isUpgradeRequest h \<longleftrightarrow> HeaderGet h ''Upgrade'' \<noteq> [] \<and> headerContainsToken (HeaderGet h ''Connection'') ''upgrade''"

text \<open>The policy keeps an upgrade an upgrade, as long as neither configured header is one of the two
  headers that negotiate it.\<close>

lemma upgrade_survives:
  assumes "list_all (\<lambda>s. CanonicalHeaderKey s \<noteq> ''Upgrade'' \<and> CanonicalHeaderKey s \<noteq> ''Connection'')
    [CallerAuthHeader cfg, IdentityHeader cfg, UpstreamAuthHeader cfg]"
  shows "isUpgradeRequest (applyHeaderPolicy h cfg) = isUpgradeRequest h"
proof -
  have canon: "CanonicalHeaderKey ''Upgrade'' = ''Upgrade''" "CanonicalHeaderKey ''Connection'' = ''Connection''"
    "CanonicalHeaderKey ''Cookie'' = ''Cookie''" "CanonicalHeaderKey ''Authorization'' = ''Authorization''"
    by (simp_all add: CanonicalHeaderKey_def validHeaderFieldByte_def toUpperASCII_def toLowerASCII_def byteval_def Let_def)
  have "''Upgrade'' \<noteq> CanonicalHeaderKey s \<and> ''Connection'' \<noteq> CanonicalHeaderKey s"
    if "s \<in> {CallerAuthHeader cfg, IdentityHeader cfg, UpstreamAuthHeader cfg}" for s
    using assms that by (auto dest: sym)
  then have "HeaderGet (applyHeaderPolicy h cfg) ''Upgrade'' = HeaderGet h ''Upgrade''"
    "HeaderGet (applyHeaderPolicy h cfg) ''Connection'' = HeaderGet h ''Connection''"
    by (simp_all add: HeaderGet_def Values_policy canon strippedHeaders_def)
  then show ?thesis by (simp add: isUpgradeRequest_def)
qed

end
