(* ===== verification/Conn_Tracker.thy ===== *)
theory Conn_Tracker
  imports Reaper "HOL-Library.Multiset"
begin

text \<open>
  \<open>internal/router/connections.go\<close>: the connection counts of one router replica, their publication in
  \<open>status.connections\<close>, and the activity timestamp. The in-memory map \<open>counts\<close> is passed and
  returned.

  Shown here: the counts of a replica are exactly its open connections; a publication touches only
  the replica's own entry; the activity timestamp never moves backwards; and a published
  connection keeps the Reaper away until twice the heartbeat interval has passed.
\<close>

type_synonym counts = "key \<Rightarrow> int option"

definition countOf :: "counts \<Rightarrow> key \<Rightarrow> int" where
  "countOf cs k = (case cs k of None \<Rightarrow> 0 | Some n \<Rightarrow> n)"

definition withConnection :: "string \<Rightarrow> int \<Rightarrow> gotime \<Rightarrow> workspace \<Rightarrow> workspace" where
  "withConnection podName n t ws =
     setStatus (\<lambda>s. s\<lparr>Connections := AList.update podName \<lparr>ceCount = n, ceHeartbeatAt = t\<rparr> (Connections s)\<rparr>) ws"

definition publish ::
    "('s, 'x) env_scheme \<Rightarrow> string \<Rightarrow> string \<Rightarrow> key \<Rightarrow> int \<Rightarrow> ('s, error option) m" where
  "publish env app podName key n = do {
     g \<leftarrow> doGet (workspaces env) KWorkspace key;
     case g of
       Inl e \<Rightarrow> ret (Some e)
     | Inr ws \<Rightarrow> do {
         t \<leftarrow> now env;
         p \<leftarrow> doStatusPatch (workspaces env) WsObj ws (withConnection podName n t ws);
         case p of
           Inl e \<Rightarrow> ret (Some e)
         | Inr _ \<Rightarrow> do {
             record_metric (SetOpenUpgradedConnections (fst key) app podName n);
             ret None
           }
       }
   }"

definition opened :: "counts \<Rightarrow> key \<Rightarrow> counts" where
  "opened cs k = cs(k \<mapsto> wrap32 (countOf cs k + 1))"

definition closed :: "counts \<Rightarrow> key \<Rightarrow> counts" where
  "closed cs k = (if countOf cs k > 0 then cs(k \<mapsto> wrap32 (countOf cs k - 1)) else cs)"

definition Open ::
    "('s, 'x) env_scheme \<Rightarrow> string \<Rightarrow> string \<Rightarrow> counts \<Rightarrow> key \<Rightarrow> ('s, error option \<times> counts) m" where
  "Open env app podName cs k = do {
     let cs' = opened cs k;
     r \<leftarrow> publish env app podName k (countOf cs' k);
     ret (r, cs')
   }"

definition Close ::
    "('s, 'x) env_scheme \<Rightarrow> string \<Rightarrow> string \<Rightarrow> counts \<Rightarrow> key \<Rightarrow> ('s, error option \<times> counts) m" where
  "Close env app podName cs k = do {
     let cs' = closed cs k;
     r \<leftarrow> publish env app podName k (countOf cs' k);
     ret (r, cs')
   }"

text \<open>The keys of the map in the order the range over it happens to take.\<close>

fun HeartbeatAll ::
    "('s, 'x) env_scheme \<Rightarrow> string \<Rightarrow> string \<Rightarrow> counts \<Rightarrow> key list \<Rightarrow> ('s, unit) m" where
  "HeartbeatAll env app podName cs [] = ret ()"
| "HeartbeatAll env app podName cs (k # ks) = do {
     _ \<leftarrow> publish env app podName k (countOf cs k);
     HeartbeatAll env app podName cs ks
   }"

definition touchActivity :: "('s, 'x) env_scheme \<Rightarrow> key \<Rightarrow> gotime \<Rightarrow> ('s, error option) m" where
  "touchActivity env key at = do {
     g \<leftarrow> doGet (workspaces env) KWorkspace key;
     case g of
       Inl e \<Rightarrow> ret (Some e)
     | Inr ws \<Rightarrow>
         if (case LastActivity (wsStatus ws) of None \<Rightarrow> False | Some t \<Rightarrow> \<not> t < at) then ret None
         else do {
           p \<leftarrow> doStatusPatch (workspaces env) WsObj ws (setStatus (\<lambda>s. s\<lparr>LastActivity := Some at\<rparr>) ws);
           ret (errOf p)
         }
   }"

section \<open>Counts\<close>

datatype connOp = OpenOp key | CloseOp key

fun applyOp :: "connOp \<Rightarrow> counts \<Rightarrow> counts" where
  "applyOp (OpenOp k) cs = opened cs k"
| "applyOp (CloseOp k) cs = closed cs k"

lemma countOf_opened [simp]: "countOf (opened cs k) j = (if j = k then wrap32 (countOf cs k + 1) else countOf cs j)"
  by (simp add: opened_def countOf_def)

lemma countOf_closed [simp]:
  "countOf (closed cs k) j = (if j = k \<and> countOf cs k > 0 then wrap32 (countOf cs k - 1) else countOf cs j)"
  by (auto simp: closed_def countOf_def)

text \<open>The abstract tracker: the multiset of the connections that are open, by workspace. Closing one that is
  not there changes nothing.\<close>

fun absOp :: "connOp \<Rightarrow> key multiset \<Rightarrow> key multiset" where
  "absOp (OpenOp k) M = add_mset k M"
| "absOp (CloseOp k) M = M - {#k#}"

definition represents :: "counts \<Rightarrow> key multiset \<Rightarrow> bool" where
  "represents cs M \<longleftrightarrow> (\<forall>k. countOf cs k = int (count M k))"

lemma represents_step:
  assumes "represents cs M" and "size M < 2 ^ 31 - 1"
  shows "represents (applyOp x cs) (absOp x M)"
proof -
  have "in_int32 (int (count M k) + 1) \<and> in_int32 (int (count M k) - 1)" for k
  proof -
    have "int (count M k) < 2 ^ 31 - 1" using count_le_size [of M k] assms(2) by simp
    then show ?thesis unfolding in_int32_def by linarith
  qed
  with assms(1) show ?thesis by (cases x) (auto simp: represents_def not_in_iff)
qed

lemma size_absOp: "size (absOp x M) \<le> size M + 1"
  by (cases x) (auto simp: size_Diff_singleton_if)

text \<open>Claim C38. The tracker's map of counters refines the multiset of open connections: after any
  sequence of fewer than 2^31 Open and Close calls, in any interleaving over any workspaces and with surplus
  closes ignored, the count of every workspace is exactly the number of its open connections; so it is never
  negative and never wraps.\<close>

theorem tracker_refines_multiset:
  assumes "length ops < 2 ^ 31"
  shows "represents (fold applyOp ops Map.empty) (fold absOp ops {#})"
proof -
  have "represents (fold applyOp ops cs) (fold absOp ops M)"
    if "represents cs M" "size M + length ops < 2 ^ 31" for cs M
    using that
  proof (induction ops arbitrary: cs M)
    case (Cons x ops)
    then have "represents (applyOp x cs) (absOp x M)" by (intro represents_step) auto
    moreover have "size (absOp x M) + length ops < 2 ^ 31" using Cons.prems(2) size_absOp [of x M] by simp
    ultimately show ?case using Cons.IH by simp
  qed simp
  from this [of Map.empty "{#}"] assms show ?thesis by (simp add: represents_def countOf_def)
qed

theorem tracker_refines_multiset_witness:
  "countOf (fold applyOp [CloseOp (''ns'', ''a''), OpenOp (''ns'', ''a''), OpenOp (''ns'', ''b''), OpenOp (''ns'', ''a''),
     CloseOp (''ns'', ''a'')] Map.empty) (''ns'', ''a'') = 1"
proof -
  let ?ops = "[CloseOp (''ns'', ''a''), OpenOp (''ns'', ''a''), OpenOp (''ns'', ''b''), OpenOp (''ns'', ''a''),
     CloseOp (''ns'', ''a'')]"
  have "represents (fold applyOp ?ops Map.empty) (fold absOp ?ops {#})" by (rule tracker_refines_multiset) simp
  then have "countOf (fold applyOp ?ops Map.empty) (''ns'', ''a'') = int (count (fold absOp ?ops {#}) (''ns'', ''a''))"
    unfolding represents_def by (rule spec)
  also have "\<dots> = 1" by simp
  finally show ?thesis .
qed

section \<open>Publication\<close>

lemma withConnection_entry [simp]:
  "map_of (Connections (wsStatus (withConnection p n t ws))) k =
     (if k = p then Some \<lparr>ceCount = n, ceHeartbeatAt = t\<rparr> else map_of (Connections (wsStatus ws)) k)"
  by (simp add: withConnection_def update_conv')

text \<open>A published connection protects its user: right after a replica has published a positive
  count for a workspace, the workspace is not reapable at any time less than twice the heartbeat
  interval after the publication, provided the published counts are not negative and their fresh
  sum fits an int32.\<close>

theorem published_connection_protects:
  assumes "0 < n" and "t' - t < connThreshold app" and "t \<le> t'"
    and "\<forall>c\<in>set (Connections (wsStatus (withConnection podName n t ws))). 0 \<le> ceCount (snd c)"
    and "liveCount app t' (Connections (wsStatus (withConnection podName n t ws))) < 2 ^ 31"
  shows "\<not> isReapable (withConnection podName n t ws) app t'"
proof -
  let ?w = "withConnection podName n t ws"
  have "(podName, \<lparr>ceCount = n, ceHeartbeatAt = t\<rparr>) \<in> set (Connections (wsStatus ?w))"
    by (rule map_of_SomeD) simp
  moreover have "keepsAlive app t' (podName, \<lparr>ceCount = n, ceHeartbeatAt = t\<rparr>)"
    using assms(1-3) by (simp add: keepsAlive_def timeSub_def)
  ultimately have "freshConnectionCount ?w app t' \<noteq> 0"
    using freshConnectionCount_zero_iff [OF assms(4,5)] by (auto simp: list_ex_iff)
  then show ?thesis by (simp add: isReapable_def split: option.split)
qed

theorem published_connection_protects_witness:
  "\<not> isReapable (withConnection ''router-0'' 1 (9000 * second) busyWs) sampleApp (9059 * second)"
  by (rule published_connection_protects)
    (simp_all add: withConnection_def busyWs_def liveCount_def connThreshold_def timeSub_def wrap64_def
      second_def sample_defs)

definition trackerWrite :: "string \<Rightarrow> gotime \<Rightarrow> event \<Rightarrow> bool" where
  "trackerWrite podName at e \<longleftrightarrow> read_only e \<or>
     (\<exists>b n t er. e = Api (StatusPatch (WsObj b) (WsObj (withConnection podName n t b))) er) \<or>
     (\<exists>b er. e = Api (StatusPatch (WsObj b) (WsObj (setStatus (\<lambda>s. s\<lparr>LastActivity := Some at\<rparr>) b))) er \<and>
        (\<forall>old. LastActivity (wsStatus b) = Some old \<longrightarrow> old < at))"

text \<open>The router's two background writes are narrow: publishing touches only the replica's own
  entry of the connections map (and is done for a count of zero as well), and touching the activity
  writes only lastActivity and only forwards in time.\<close>

theorem tracker_writes:
  "emits (trackerWrite podName at) (publish env app podName key n) \<and>
   emits (trackerWrite podName at) (touchActivity env key at)"
proof
  show "emits (trackerWrite podName at) (publish env app podName key n)"
    unfolding publish_def by (intro emits_rules) (auto simp: trackerWrite_def)
  show "emits (trackerWrite podName at) (touchActivity env key at)"
    unfolding touchActivity_def
    by (intro emits_rules) (auto simp: trackerWrite_def split: option.splits)
qed

end
