(* ===== verification/Resolver.thy ===== *)
theory Resolver
  imports Cluster Go_Std
begin

text \<open>
  \<open>internal/router/resolve.go\<close>: the address of a workspace's Service, the cache in front of it, its
  invalidation by delete events and the liveness check on EndpointSlices. The cache, shared state behind
  a mutex, is passed and returned. The watches that deliver the events are in \<open>Watch_Loop\<close>.

  Shown here: with lookups that run without interference, a cached address is the live one unless a
  delete event is still to be delivered; with a deletion delivered between a lookup's Get and its
  cache fill, the cache keeps the address of a deleted Service with nothing left to invalidate it.
\<close>

section \<open>Resolve and Invalidate\<close>

type_synonym cache = "key \<Rightarrow> string option"

definition dialAddr :: "string \<Rightarrow> int \<Rightarrow> string" where
  "dialAddr clusterIP port = JoinHostPort clusterIP (Itoa port)"

definition cacheFill :: "cache \<Rightarrow> key \<Rightarrow> string \<Rightarrow> cache" where
  "cacheFill cache k addr = cache(k \<mapsto> addr)"

definition Resolve ::
    "('s, 'x) env_scheme \<Rightarrow> cache \<Rightarrow> string \<Rightarrow> string \<Rightarrow> int \<Rightarrow> ('s, (error + string) \<times> cache) m" where
  "Resolve env cache ns name port =
     (case cache (ns, name) of
        Some addr \<Rightarrow> ret (Inr addr, cache)
      | None \<Rightarrow> do {
          g \<leftarrow> doGet (services env) KService (ns, name);
          case g of
            Inl e \<Rightarrow> ret (Inl e, cache)
          | Inr svc \<Rightarrow>
              let addr = dialAddr (svcClusterIP svc) port in ret (Inr addr, cacheFill cache (ns, name) addr)
        })"

definition Invalidate :: "cache \<Rightarrow> string \<Rightarrow> string \<Rightarrow> cache" where
  "Invalidate cache ns name = cache((ns, name) := None)"

text \<open>The dynamic type of a watch event's object.\<close>

datatype watchObject = ServiceObject objectMeta | WorkspaceObject objectMeta | NoObject

definition watchDeleted :: string where
  "watchDeleted = ''DELETED''"

definition HandleServiceEvent :: "cache \<Rightarrow> string \<Rightarrow> watchObject \<Rightarrow> cache" where
  "HandleServiceEvent cache evtType evtObject =
     (if evtType \<noteq> watchDeleted then cache
      else case evtObject of
        ServiceObject meta \<Rightarrow> Invalidate cache (Namespace meta) (Name meta)
      | _ \<Rightarrow> cache)"

definition HandleWorkspaceEvent :: "cache \<Rightarrow> string \<Rightarrow> watchObject \<Rightarrow> cache" where
  "HandleWorkspaceEvent cache evtType evtObject =
     (if evtType \<noteq> watchDeleted then cache
      else case evtObject of
        ServiceObject meta \<Rightarrow> Invalidate cache (Namespace meta) (Name meta)
      | WorkspaceObject meta \<Rightarrow> Invalidate cache (Namespace meta) (Name meta)
      | NoObject \<Rightarrow> cache)"

section \<open>Liveness\<close>

definition LabelServiceName :: string where
  "LabelServiceName = ''kubernetes.io/service-name''"

definition endpointReady :: "endpoint \<Rightarrow> bool" where
  "endpointReady ep \<longleftrightarrow> length (epAddresses ep) \<noteq> 0 \<and> (case epReady ep of None \<Rightarrow> True | Some r \<Rightarrow> r)"

definition HasEndpoints :: "('s, 'x) env_scheme \<Rightarrow> string \<Rightarrow> string \<Rightarrow> ('s, error + bool) m" where
  "HasEndpoints env ns name = do {
     l \<leftarrow> doList (endpointSlices env) KEndpointSlice ns [(LabelServiceName, name)];
     case l of
       Inl e \<Rightarrow> ret (Inl e)
     | Inr slices \<Rightarrow> ret (Inr (list_ex (\<lambda>sl. list_ex endpointReady (esEndpoints sl)) slices))
   }"

section \<open>The cache against deletions\<close>

text \<open>The Services that exist with their ClusterIPs, the cache, the delete events the watches still have
  to deliver, and a lookup that has read its Service and not yet filled the cache.\<close>

record rsys =
  liveSvcs :: "key \<Rightarrow> string option"
  cached :: cache
  pending :: "key list"
  inflight :: "(key \<times> string) option"

definition rsysStart :: "(key \<Rightarrow> string option) \<Rightarrow> rsys" where
  "rsysStart svcs = \<lparr>liveSvcs = svcs, cached = Map.empty, pending = [], inflight = None\<rparr>"

text \<open>Steps of the cluster and of the router's watch.\<close>

inductive cluster_step :: "rsys \<Rightarrow> rsys \<Rightarrow> bool" where
  create: "liveSvcs s k = None \<Longrightarrow> cluster_step s (s\<lparr>liveSvcs := (liveSvcs s)(k \<mapsto> ip)\<rparr>)"
| remove: "liveSvcs s k = Some ip \<Longrightarrow>
    cluster_step s (s\<lparr>liveSvcs := (liveSvcs s)(k := None), pending := pending s @ [k]\<rparr>)"
| deliver: "pending s = k # ks \<Longrightarrow>
    cluster_step s (s\<lparr>pending := ks, cached := Invalidate (cached s) (fst k) (snd k)\<rparr>)"

text \<open>A lookup without interference: Get and cache fill in one step.\<close>

inductive serial_step :: "int \<Rightarrow> rsys \<Rightarrow> rsys \<Rightarrow> bool" for port :: int where
  cluster: "cluster_step s s' \<Longrightarrow> serial_step port s s'"
| resolve: "cached s k = None \<Longrightarrow> liveSvcs s k = Some ip \<Longrightarrow>
    serial_step port s (s\<lparr>cached := cacheFill (cached s) k (dialAddr ip port)\<rparr>)"

text \<open>A lookup as the code runs it, with the mutex released around the Get.\<close>

inductive racing_step :: "int \<Rightarrow> rsys \<Rightarrow> rsys \<Rightarrow> bool" for port :: int where
  cluster: "cluster_step s s' \<Longrightarrow> racing_step port s s'"
| get: "cached s k = None \<Longrightarrow> inflight s = None \<Longrightarrow> liveSvcs s k = Some ip \<Longrightarrow>
    racing_step port s (s\<lparr>inflight := Some (k, dialAddr ip port)\<rparr>)"
| fill: "inflight s = Some (k, addr) \<Longrightarrow>
    racing_step port s (s\<lparr>inflight := None, cached := cacheFill (cached s) k addr\<rparr>)"

definition cacheOk :: "int \<Rightarrow> rsys \<Rightarrow> bool" where
  "cacheOk port s \<longleftrightarrow> (\<forall>k addr. cached s k = Some addr \<longrightarrow>
     k \<in> set (pending s) \<or> (\<exists>ip. liveSvcs s k = Some ip \<and> addr = dialAddr ip port))"

lemma cacheOkI:
  "(\<And>k addr. cached s k = Some addr \<Longrightarrow>
     k \<in> set (pending s) \<or> (\<exists>ip. liveSvcs s k = Some ip \<and> addr = dialAddr ip port)) \<Longrightarrow> cacheOk port s"
  unfolding cacheOk_def by blast

lemma cacheOkD:
  "cacheOk port s \<Longrightarrow> cached s k = Some addr \<Longrightarrow>
   k \<in> set (pending s) \<or> (\<exists>ip. liveSvcs s k = Some ip \<and> addr = dialAddr ip port)"
  unfolding cacheOk_def by blast

lemma cacheOk_cluster: "cluster_step s s' \<Longrightarrow> cacheOk port s \<Longrightarrow> cacheOk port s'"
proof (induction rule: cluster_step.induct)
  case (create s k ip)
  show ?case by (rule cacheOkI) (use cacheOkD [OF create(2)] create(1) in fastforce)
next
  case (remove s k ip)
  show ?case by (rule cacheOkI) (use cacheOkD [OF remove(2)] in \<open>fastforce split: if_splits\<close>)
next
  case (deliver s k ks)
  show ?case
    by (rule cacheOkI)
      (use cacheOkD [OF deliver(2)] deliver(1) in \<open>fastforce simp: Invalidate_def split: if_splits\<close>)
qed

lemma cacheOk_serial: "serial_step port s s' \<Longrightarrow> cacheOk port s \<Longrightarrow> cacheOk port s'"
proof (induction rule: serial_step.induct)
  case (cluster s s')
  then show ?case by (rule cacheOk_cluster)
next
  case (resolve s k ip)
  show ?case
    by (rule cacheOkI)
      (use cacheOkD [OF resolve(3)] resolve(2) in \<open>fastforce simp: cacheFill_def split: if_splits\<close>)
qed

lemma cacheOk_reachable: "(serial_step port)\<^sup>*\<^sup>* (rsysStart svcs) s \<Longrightarrow> cacheOk port s"
proof (induction rule: rtranclp_induct)
  case base
  show ?case by (rule cacheOkI) (simp add: rsysStart_def)
next
  case (step y z)
  then show ?case using cacheOk_serial by blast
qed



text \<open>The race the code leaves open: a deletion whose event is delivered between a lookup's Get and
  its cache fill leaves the cache with the address of a Service that no longer exists while no
  delete event is outstanding, so nothing will invalidate the entry.\<close>

theorem resolver_race:
  "\<exists>s. (racing_step port)\<^sup>*\<^sup>* (rsysStart [k \<mapsto> ip]) s \<and>
       cached s k = Some (dialAddr ip port) \<and> liveSvcs s k = None \<and> pending s = [] \<and> inflight s = None"
proof -
  define s0 where "s0 = rsysStart [k \<mapsto> ip]"
  define s1 where "s1 = s0\<lparr>inflight := Some (k, dialAddr ip port)\<rparr>"
  define s2 where "s2 = s1\<lparr>liveSvcs := (liveSvcs s1)(k := None), pending := pending s1 @ [k]\<rparr>"
  define s3 where "s3 = s2\<lparr>pending := [], cached := Invalidate (cached s2) (fst k) (snd k)\<rparr>"
  define s4 where "s4 = s3\<lparr>inflight := None, cached := cacheFill (cached s3) k (dialAddr ip port)\<rparr>"
  note defs = s0_def s1_def s2_def s3_def s4_def rsysStart_def
  have st1: "racing_step port s0 s1" unfolding s1_def by (rule racing_step.get) (simp_all add: defs)
  have st2: "racing_step port s1 s2" unfolding s2_def
    by (rule racing_step.cluster, rule cluster_step.remove [of _ _ ip]) (simp add: defs)
  have st3: "racing_step port s2 s3" unfolding s3_def
    by (rule racing_step.cluster, rule cluster_step.deliver) (simp add: defs)
  have st4: "racing_step port s3 s4" unfolding s4_def by (rule racing_step.fill) (simp add: defs)
  have "(racing_step port)\<^sup>*\<^sup>* s0 s4"
    by (rule converse_rtranclp_into_rtranclp, rule st1, rule converse_rtranclp_into_rtranclp, rule st2,
        rule converse_rtranclp_into_rtranclp, rule st3, rule r_into_rtranclp, rule st4)
  moreover have "cached s4 k = Some (dialAddr ip port)" "liveSvcs s4 k = None" "pending s4 = []" "inflight s4 = None"
    by (simp_all add: defs cacheFill_def)
  ultimately show ?thesis unfolding s0_def by blast
qed

end
