(* ===== verification/Router_Server.thy ===== *)
theory Router_Server
  imports Router_Proxy Conn_Tracker Resolver Identity
begin

text \<open>
  \<open>internal/router/server.go\<close>: the router's request path. \<open>ServeHTTP\<close> authenticates the caller, derives
  the user's identity, ensures the user's Workspace exists, decides whether it can be served, holds
  the request through a cold start and proxies it.

  Besides the API, a request meets the upstream (the reverse proxy answers a status code), the wall
  clock and the poll ticker of the hold: the fields that \<open>renv\<close> adds to the environment. The hold's
  loop is bounded by \<open>fuel\<close>; a request whose hold is still polling when the fuel is used up has the
  answer \<open>Holding\<close>, and \<open>hold_ends\<close> shows how much fuel is enough. The in-memory state of the replica,
  the resolver's cache and the tracker's counts, is passed and returned.
\<close>

section \<open>The environment of a request\<close>

record 's renv = "'s env" +
  forward :: "string \<Rightarrow> header \<Rightarrow> 's \<Rightarrow> int \<times> 's"
  wallNow :: "'s \<Rightarrow> gotime \<times> 's"
  pollTick :: "'s \<Rightarrow> bool \<times> 's"

record request =
  rqMethod :: string
  rqPath :: string
  rqHeader :: header

record routerState =
  rsCache :: cache
  rsCounts :: counts

datatype response = Rejected int string | Proxied int | Holding

fun responseCode :: "response \<Rightarrow> int" where
  "responseCode (Rejected code _) = code"
| "responseCode (Proxied code) = code"
| "responseCode Holding = 0"

definition StatusServiceUnavailable :: int where
  "StatusServiceUnavailable = 503"
definition StatusBadGateway :: int where
  "StatusBadGateway = 502"

section \<open>Caller authentication and identity\<close>

definition checkCallerAuth :: "config \<Rightarrow> header \<Rightarrow> bool" where
  "checkCallerAuth cfg h =
     (if length (CallerAuthSecret cfg) = 0 then False
      else let values = Values h (CallerAuthHeader cfg) in
        if length values \<noteq> 1 then False
        else let got = hd values in
          if CallerAuthScheme cfg \<noteq> [] then
            let prefix = CallerAuthScheme cfg @ '' '' in
            if \<not> HasPrefix got prefix then False else TrimPrefix got prefix = CallerAuthSecret cfg
          else got = CallerAuthSecret cfg)"

definition sharedRequest :: "config \<Rightarrow> request \<Rightarrow> bool" where
  "sharedRequest cfg req =
     (if rqMethod req \<noteq> ''GET'' \<and> rqMethod req \<noteq> ''HEAD'' then False
      else list_ex (\<lambda>p. rqPath req = p) (cfgSharedPaths cfg))"

definition requestIdentity :: "config \<Rightarrow> request \<Rightarrow> Rejection + string" where
  "requestIdentity cfg req =
     (case Extract (rqHeader req) (IdentityHeader cfg) (IdentityMaxLength cfg) of
        Inr raw \<Rightarrow> Inr raw
      | Inl rej \<Rightarrow>
          if rejReason rej = ReasonMissing \<and> sharedRequest cfg req then Inr Shared else Inl rej)"

section \<open>The user's Workspace\<close>

datatype ensureError = WorkspaceLimit | ApiError error

definition ensureEnqueuedAt :: "('s, 'x) env_scheme \<Rightarrow> workspace \<Rightarrow> ('s, ensureError + workspace) m" where
  "ensureEnqueuedAt env ws =
     (if EnqueuedAt (wsStatus ws) \<noteq> None then ret (Inr ws)
      else do {
        t \<leftarrow> now env;
        p \<leftarrow> doStatusPatch (workspaces env) WsObj ws (setStatus (\<lambda>s. s\<lparr>EnqueuedAt := Some t\<rparr>) ws);
        case p of
          Inl e \<Rightarrow> ret (Inl (ApiError e))
        | Inr stored \<Rightarrow> ret (Inr stored)
      })"

definition newWorkspace :: "config \<Rightarrow> string \<Rightarrow> string \<Rightarrow> workspace" where
  "newWorkspace cfg raw userKey =
     \<lparr>wsMeta = zeroMeta\<lparr>Name := ChildName (cfgApp cfg) userKey, Namespace := cfgNamespace cfg,
        Labels := [(LabelApp, cfgApp cfg), (LabelUserKey, userKey)],
        Annotations := [(AnnUserDisplay, raw)]\<rparr>,
      wsSpec = \<lparr>wsAppRef = cfgApp cfg, wsUserKey = userKey\<rparr>, wsStatus = zeroStatus\<rparr>"

definition limitReached :: "config \<Rightarrow> workspace list \<Rightarrow> bool" where
  "limitReached cfg items \<longleftrightarrow> cfgMaxWorkspaces cfg > 0 \<and> wrap32 (int (length items)) \<ge> cfgMaxWorkspaces cfg"

definition createWorkspace ::
    "('s, 'x) env_scheme \<Rightarrow> config \<Rightarrow> string \<Rightarrow> string \<Rightarrow> ('s, ensureError + workspace) m" where
  "createWorkspace env cfg raw userKey = do {
     c \<leftarrow> doCreate (workspaces env) WsObj (newWorkspace cfg raw userKey);
     case c of
       Inr stored \<Rightarrow> ensureEnqueuedAt env stored
     | Inl e \<Rightarrow>
         if IsAlreadyExists e then do {
           g \<leftarrow> doGet (workspaces env) KWorkspace (cfgNamespace cfg, ChildName (cfgApp cfg) userKey);
           case g of
             Inl e \<Rightarrow> ret (Inl (ApiError e))
           | Inr got \<Rightarrow> ensureEnqueuedAt env got
         }
         else ret (Inl (ApiError e))
   }"

definition ensureWorkspace ::
    "('s, 'x) env_scheme \<Rightarrow> config \<Rightarrow> string \<Rightarrow> string \<Rightarrow> ('s, ensureError + workspace) m" where
  "ensureWorkspace env cfg raw userKey = do {
     g \<leftarrow> doGet (workspaces env) KWorkspace (cfgNamespace cfg, ChildName (cfgApp cfg) userKey);
     case g of
       Inr existing \<Rightarrow> ensureEnqueuedAt env existing
     | Inl e \<Rightarrow>
         if \<not> IsNotFound e then ret (Inl (ApiError e))
         else do {
           l \<leftarrow> doList (workspaces env) KWorkspace (cfgNamespace cfg) [(LabelApp, cfgApp cfg)];
           case l of
             Inl e \<Rightarrow> ret (Inl (ApiError e))
           | Inr items \<Rightarrow>
               if limitReached cfg items then ret (Inl WorkspaceLimit)
               else createWorkspace env cfg raw userKey
         }
   }"

section \<open>Rejection, liveness and the cold-start hold\<close>

definition classify :: "workspace \<Rightarrow> gotime \<Rightarrow> string option" where
  "classify ws t =
     (if DeletionTimestamp (wsMeta ws) \<noteq> None then Some RejectTerminating
      else if (case BackoffUntil (wsStatus ws) of None \<Rightarrow> False | Some until \<Rightarrow> t < until) then Some RejectBackoff
      else if WaitingReason (wsStatus ws) = WaitingRWOPConflict then Some RejectRWOPConflict
      else None)"

definition isServable :: "('s, 'x) env_scheme \<Rightarrow> workspace \<Rightarrow> ('s, error + bool) m" where
  "isServable env ws =
     (if phase ws \<noteq> PhaseReady then ret (Inr False)
      else HasEndpoints env (Namespace (wsMeta ws)) (Name (wsMeta ws)))"

datatype holdResult = HoldError error | Held workspace bool | HoldPending

definition contextError :: error where
  "contextError = OtherError ''context done''"

fun holdLoop ::
    "('s, 'x) renv_scheme \<Rightarrow> nat \<Rightarrow> key \<Rightarrow> gotime \<Rightarrow> ('s, holdResult) m" where
  "holdLoop env 0 k deadline = ret HoldPending"
| "holdLoop env (Suc fuel) k deadline = do {
     g \<leftarrow> doGet (workspaces env) KWorkspace k;
     case g of
       Inl e \<Rightarrow> ret (HoldError e)
     | Inr cur \<Rightarrow> do {
         s \<leftarrow> isServable env cur;
         case s of
           Inl e \<Rightarrow> ret (HoldError e)
         | Inr ok \<Rightarrow>
             if ok then ret (Held cur True)
             else do {
               t \<leftarrow> ask (wallNow env) (\<lambda>_. []);
               if \<not> t < deadline then ret (Held cur False)
               else do {
                 tick \<leftarrow> ask (pollTick env) (\<lambda>_. []);
                 if tick then holdLoop env fuel k deadline else ret (HoldError contextError)
               }
             }
       }
   }"

definition requestWake :: "('s, 'x) env_scheme \<Rightarrow> workspace \<Rightarrow> ('s, error option) m" where
  "requestWake env ws =
     (if WakeRequestedAt (wsStatus ws) \<noteq> None then ret None
      else do {
        t \<leftarrow> now env;
        p \<leftarrow> doStatusPatch (workspaces env) WsObj ws (setStatus (\<lambda>s. s\<lparr>WakeRequestedAt := Some t\<rparr>) ws);
        ret (errOf p)
      })"

definition coldStartHold ::
    "('s, 'x) renv_scheme \<Rightarrow> config \<Rightarrow> nat \<Rightarrow> workspace \<Rightarrow> ('s, holdResult) m" where
  "coldStartHold env cfg fuel ws = do {
     w \<leftarrow> requestWake env ws;
     case w of
       Some e \<Rightarrow> ret (HoldError e)
     | None \<Rightarrow> do {
         t \<leftarrow> ask (wallNow env) (\<lambda>_. []);
         holdLoop env fuel (Namespace (wsMeta ws), Name (wsMeta ws)) (t + ColdStartHold cfg)
       }
   }"

section \<open>Proxying\<close>

definition forwardTo :: "('s, 'x) renv_scheme \<Rightarrow> string \<Rightarrow> header \<Rightarrow> ('s, int) m" where
  "forwardTo env addr h = ask (forward env addr h) (\<lambda>_. [Forwarded addr h])"

definition proxy ::
    "('s, 'x) renv_scheme \<Rightarrow> config \<Rightarrow> routerState \<Rightarrow> request \<Rightarrow> workspace \<Rightarrow> ('s, response \<times> routerState) m" where
  "proxy env cfg st req ws = do {
     r \<leftarrow> Resolve env (rsCache st) (Namespace (wsMeta ws)) (Name (wsMeta ws)) (WorkspacePort cfg);
     let st = st\<lparr>rsCache := snd r\<rparr>;
     case fst r of
       Inl e \<Rightarrow> ret (Rejected StatusBadGateway ''workspace unreachable'', st)
     | Inr addr \<Rightarrow>
         let h = applyHeaderPolicy (rqHeader req) cfg; k = (Namespace (wsMeta ws), Name (wsMeta ws)) in
         if isUpgradeRequest (rqHeader req) then do {
           op \<leftarrow> Open env (cfgApp cfg) (cfgPodName cfg) (rsCounts st) k;
           code \<leftarrow> forwardTo env addr h;
           case fst op of
             Some e \<Rightarrow> ret (Proxied code, st\<lparr>rsCounts := snd op\<rparr>)
           | None \<Rightarrow> do {
               cl \<leftarrow> Close env (cfgApp cfg) (cfgPodName cfg) (snd op) k;
               ret (Proxied code, st\<lparr>rsCounts := snd cl\<rparr>)
             }
         }
         else do { code \<leftarrow> forwardTo env addr h; ret (Proxied code, st) }
   }"

section \<open>ServeHTTP\<close>

definition answer :: "config \<Rightarrow> response \<Rightarrow> routerState \<Rightarrow> ('s, response \<times> routerState) m" where
  "answer cfg resp st = do {
     record_metric (RecordRouterRequest (cfgNamespace cfg) (cfgApp cfg) (Itoa (responseCode resp)));
     ret (resp, st)
   }"

definition rejectRequest :: "config \<Rightarrow> string \<Rightarrow> routerState \<Rightarrow> ('s, response \<times> routerState) m" where
  "rejectRequest cfg reason st = do {
     record_metric (RecordRequestRejection (cfgNamespace cfg) (cfgApp cfg) reason);
     answer cfg (Rejected StatusServiceUnavailable reason) st
   }"

definition serve ::
    "('s, 'x) renv_scheme \<Rightarrow> config \<Rightarrow> routerState \<Rightarrow> request \<Rightarrow> key \<Rightarrow> workspace \<Rightarrow> ('s, response \<times> routerState) m" where
  "serve env cfg st req k ws = do {
     t \<leftarrow> now env;
     _ \<leftarrow> touchActivity env k t;
     r \<leftarrow> proxy env cfg st req ws;
     answer cfg (fst r) (snd r)
   }"

definition serveWorkspace ::
    "('s, 'x) renv_scheme \<Rightarrow> config \<Rightarrow> nat \<Rightarrow> routerState \<Rightarrow> request \<Rightarrow> workspace \<Rightarrow> ('s, response \<times> routerState) m" where
  "serveWorkspace env cfg fuel st req ws = do {
     let k = (Namespace (wsMeta ws), Name (wsMeta ws));
     s \<leftarrow> isServable env ws;
     case s of
       Inl e \<Rightarrow> answer cfg (Rejected StatusBadGateway ''internal error'') st
     | Inr servable \<Rightarrow>
         if servable then serve env cfg st req k ws
         else do {
           h \<leftarrow> coldStartHold env cfg fuel ws;
           case h of
             HoldError e \<Rightarrow> answer cfg (Rejected StatusBadGateway ''internal error'') st
           | HoldPending \<Rightarrow> ret (Holding, st)
           | Held cur ok \<Rightarrow>
               if ok then serve env cfg st req k cur else rejectRequest cfg RejectHoldExpired st
         }
   }"

definition serveUser ::
    "('s, 'x) renv_scheme \<Rightarrow> config \<Rightarrow> nat \<Rightarrow> routerState \<Rightarrow> request \<Rightarrow> string \<Rightarrow> ('s, response \<times> routerState) m" where
  "serveUser env cfg fuel st req raw = do {
     e \<leftarrow> ensureWorkspace env cfg raw (UserKey (cfgNamespace cfg) (cfgApp cfg) raw);
     case e of
       Inl err \<Rightarrow> (case err of
           WorkspaceLimit \<Rightarrow> rejectRequest cfg RejectWorkspaceLimit st
         | ApiError _ \<Rightarrow> answer cfg (Rejected StatusBadGateway ''internal error'') st)
     | Inr ws \<Rightarrow> do {
         t \<leftarrow> now env;
         case classify ws t of
           Some reason \<Rightarrow> rejectRequest cfg reason st
         | None \<Rightarrow> serveWorkspace env cfg fuel st req ws
       }
   }"

definition ServeHTTP ::
    "('s, 'x) renv_scheme \<Rightarrow> config \<Rightarrow> nat \<Rightarrow> routerState \<Rightarrow> request \<Rightarrow> ('s, response \<times> routerState) m" where
  "ServeHTTP env cfg fuel st req =
     (if \<not> checkCallerAuth cfg (rqHeader req) then
        answer cfg (Rejected StatusUnauthorized ''unauthorized'') st
      else case requestIdentity cfg req of
        Inl rej \<Rightarrow> do {
          record_metric (RecordIdentityRejection (cfgNamespace cfg) (cfgApp cfg) (reasonString (rejReason rej)));
          answer cfg (Rejected (rejStatus rej) (''identity rejected: '' @ reasonString (rejReason rej))) st
        }
      | Inr raw \<Rightarrow> serveUser env cfg fuel st req raw)"

section \<open>Caller authentication\<close>

lemma prefix_stripped: "HasPrefix v p \<and> TrimPrefix v p = s \<longleftrightarrow> v = p @ s"
  by (auto simp: HasPrefix_def TrimPrefix_def) (metis append_take_drop_id)

text \<open>Claim C2. The trust control is exact: a caller is authenticated if and only if a secret is configured
  and the configured header occurs exactly once, with exactly the configured scheme, a space and
  the secret (or the bare secret when no scheme is configured).\<close>

theorem caller_auth_exact:
  "checkCallerAuth cfg h \<longleftrightarrow> CallerAuthSecret cfg \<noteq> [] \<and>
     Values h (CallerAuthHeader cfg) =
       [(if CallerAuthScheme cfg = [] then [] else CallerAuthScheme cfg @ '' '') @ CallerAuthSecret cfg]"
proof (cases "\<exists>v. Values h (CallerAuthHeader cfg) = [v]")
  case True
  then obtain v where v: "Values h (CallerAuthHeader cfg) = [v]" ..
  have "checkCallerAuth cfg h \<longleftrightarrow> CallerAuthSecret cfg \<noteq> [] \<and>
      (if CallerAuthScheme cfg = [] then v = CallerAuthSecret cfg
       else HasPrefix v (CallerAuthScheme cfg @ '' '') \<and>
            TrimPrefix v (CallerAuthScheme cfg @ '' '') = CallerAuthSecret cfg)"
    by (simp add: checkCallerAuth_def Let_def v)
  then show ?thesis by (simp add: prefix_stripped v)
next
  case False
  then have "length (Values h (CallerAuthHeader cfg)) \<noteq> 1" by (cases "Values h (CallerAuthHeader cfg)") auto
  with False show ?thesis by (auto simp: checkCallerAuth_def)
qed

section \<open>What a request may do\<close>

definition authorised :: "config \<Rightarrow> request \<Rightarrow> string \<Rightarrow> bool" where
  "authorised cfg req raw \<longleftrightarrow> checkCallerAuth cfg (rqHeader req) \<and> requestIdentity cfg req = Inr raw"

text \<open>Every event of a request. Anything beyond a metric needs an authenticated caller and an accepted
  identity; a Workspace is created only below the limit and only as that user's; the status writes
  are the four fields the router owns; what is forwarded has gone through the header policy.\<close>

inductive router_event :: "('s, 'x) env_scheme \<Rightarrow> config \<Rightarrow> request \<Rightarrow> event \<Rightarrow> bool"
  for env :: "('s, 'x) env_scheme" and cfg :: config and req :: request where
  metric: "router_event env cfg req (Metric mt)"
| read: "authorised cfg req raw \<Longrightarrow> is_read c \<Longrightarrow> router_event env cfg req (Api c er)"
| create: "authorised cfg req raw \<Longrightarrow>
    fst (rList (workspaces env) (cfgNamespace cfg) [(LabelApp, cfgApp cfg)] c) = Inr items \<Longrightarrow>
    cfgMaxWorkspaces cfg \<le> 0 \<or> wrap32 (int (length items)) < cfgMaxWorkspaces cfg \<Longrightarrow>
    router_event env cfg req
      (Api (Create (WsObj (newWorkspace cfg raw (UserKey (cfgNamespace cfg) (cfgApp cfg) raw)))) er)"
| enqueue: "authorised cfg req raw \<Longrightarrow> EnqueuedAt (wsStatus b) = None \<Longrightarrow>
    router_event env cfg req (Api (StatusPatch (WsObj b) (WsObj (setStatus (\<lambda>s. s\<lparr>EnqueuedAt := Some t\<rparr>) b))) er)"
| wake: "authorised cfg req raw \<Longrightarrow> WakeRequestedAt (wsStatus b) = None \<Longrightarrow>
    router_event env cfg req (Api (StatusPatch (WsObj b) (WsObj (setStatus (\<lambda>s. s\<lparr>WakeRequestedAt := Some t\<rparr>) b))) er)"
| activity: "authorised cfg req raw \<Longrightarrow> (\<forall>old. LastActivity (wsStatus b) = Some old \<longrightarrow> old < t) \<Longrightarrow>
    router_event env cfg req (Api (StatusPatch (WsObj b) (WsObj (setStatus (\<lambda>s. s\<lparr>LastActivity := Some t\<rparr>) b))) er)"
| connection: "authorised cfg req raw \<Longrightarrow> isUpgradeRequest (rqHeader req) \<Longrightarrow>
    router_event env cfg req (Api (StatusPatch (WsObj b) (WsObj (withConnection (cfgPodName cfg) n t b))) er)"
| forwarded: "authorised cfg req raw \<Longrightarrow>
    router_event env cfg req (Forwarded addr (applyHeaderPolicy (rqHeader req) cfg))"

inductive_simps router_event_delete: "router_event env cfg req (Api (Delete ob) er)"
inductive_cases router_event_forwardE: "router_event env cfg req (Forwarded addr h)"

lemma emits_answer [emits_rules]: "(\<And>mt. P (Metric mt)) \<Longrightarrow> emits P (answer cfg resp st)"
  unfolding answer_def by (intro emits_rules)

lemma emits_rejectRequest [emits_rules]: "(\<And>mt. P (Metric mt)) \<Longrightarrow> emits P (rejectRequest cfg reason st)"
  unfolding rejectRequest_def by (intro emits_rules)

lemma emits_case_ensureError [emits_rules]:
  "emits P f \<Longrightarrow> (\<And>e. emits P (g e)) \<Longrightarrow> emits P (case err of WorkspaceLimit \<Rightarrow> f | ApiError e \<Rightarrow> g e)"
  by (cases err) auto

lemma emits_case_holdResult [emits_rules]:
  "(\<And>e. emits P (f e)) \<Longrightarrow> (\<And>ws ok. h = Held ws ok \<Longrightarrow> emits P (g ws ok)) \<Longrightarrow> emits P p \<Longrightarrow>
   emits P (case h of HoldError e \<Rightarrow> f e | Held ws ok \<Rightarrow> g ws ok | HoldPending \<Rightarrow> p)"
  by (cases h) auto

lemma ensureEnqueuedAt_events:
  "authorised cfg req raw \<Longrightarrow> emits (router_event env cfg req) (ensureEnqueuedAt env ws)"
  unfolding ensureEnqueuedAt_def by (intro emits_rules) (auto intro: router_event.intros)

lemma createWorkspace_events:
  assumes "authorised cfg req raw"
    and "fst (rList (workspaces env) (cfgNamespace cfg) [(LabelApp, cfgApp cfg)] c) = Inr items"
    and "\<not> limitReached cfg items"
  shows "emits (router_event env cfg req) (createWorkspace env cfg raw (UserKey (cfgNamespace cfg) (cfgApp cfg) raw))"
proof -
  have below: "cfgMaxWorkspaces cfg \<le> 0 \<or> wrap32 (int (length items)) < cfgMaxWorkspaces cfg"
    using assms(3) by (auto simp: limitReached_def)
  show ?thesis
    unfolding createWorkspace_def
    by (intro emits_rules ensureEnqueuedAt_events [OF assms(1)] router_event.create [OF assms(1,2) below])
      (auto intro: router_event.read [OF assms(1)])
qed

lemma ensureWorkspace_events:
  assumes "authorised cfg req raw"
  shows "emits (router_event env cfg req) (ensureWorkspace env cfg raw (UserKey (cfgNamespace cfg) (cfgApp cfg) raw))"
  unfolding ensureWorkspace_def
  by (intro emits_bind_answer emits_case_sum emits_if emits_return emits_calls
      ensureEnqueuedAt_events [OF assms] createWorkspace_events [OF assms])
    (auto intro: router_event.read [OF assms])

lemma isServable_events:
  "authorised cfg req raw \<Longrightarrow> emits (router_event env cfg req) (isServable env' ws)"
  unfolding isServable_def HasEndpoints_def by (intro emits_rules) (auto intro: router_event.read)

lemma holdLoop_events:
  "authorised cfg req raw \<Longrightarrow> emits (router_event env cfg req) (holdLoop env' fuel k deadline)"
  by (induction fuel)
    (auto intro!: emits_rules isServable_events intro: router_event.read)

lemma coldStartHold_events:
  "authorised cfg req raw \<Longrightarrow> emits (router_event env cfg req) (coldStartHold env' cfg fuel ws)"
  unfolding coldStartHold_def requestWake_def
  by (intro emits_rules holdLoop_events) (auto intro: router_event.intros)

lemma publish_events:
  "authorised cfg req raw \<Longrightarrow> isUpgradeRequest (rqHeader req) \<Longrightarrow>
   emits (router_event env cfg req) (publish env' app (cfgPodName cfg) k n)"
  unfolding publish_def by (intro emits_rules) (auto intro: router_event.intros)

lemma serve_events:
  assumes "authorised cfg req raw"
  shows "emits (router_event env cfg req) (serve env' cfg st req k ws)"
proof -
  have touch: "emits (router_event env cfg req) (touchActivity env' k t)" for t
    unfolding touchActivity_def
    by (intro emits_rules) (auto intro: router_event.activity [OF assms] router_event.read [OF assms] split: option.splits)
  have "emits (router_event env cfg req) (proxy env' cfg st req ws)"
    unfolding proxy_def Resolve_def Open_def Close_def forwardTo_def
    by (intro emits_rules publish_events [OF assms]) (auto intro: router_event.forwarded [OF assms] router_event.read [OF assms])
  with touch show ?thesis
    unfolding serve_def by (intro emits_rules) (auto intro: router_event.metric)
qed

text \<open>Claim C9. The router's whole contract, for every answer of the API server and the upstream: without an
  authenticated caller and an accepted identity a request causes nothing but metrics, no API call
  and nothing forwarded; a Workspace is created only for the request's own user and only while the
  app is below maxWorkspaces; the router deletes nothing and writes only enqueuedAt and
  wakeRequestedAt (once), lastActivity (forwards only) and its own connections entry (upgrades
  only); and whatever is forwarded has passed the header policy.\<close>

theorem router_contract: "emits (router_event env cfg req) (ServeHTTP env cfg fuel st req)"
proof -
  have "emits (router_event env cfg req) (serveUser env cfg fuel st req raw)" if "authorised cfg req raw" for raw
    unfolding serveUser_def serveWorkspace_def
    by (intro emits_rules ensureWorkspace_events [OF that] isServable_events [OF that] coldStartHold_events [OF that]
        serve_events [OF that] router_event.metric)
  then show ?thesis
    unfolding ServeHTTP_def
    by (intro emits_rules router_event.metric) (simp add: authorised_def)
qed

section \<open>Requests stay with their own user\<close>

lemma answer_doCreate: "fst (run_state (doCreate res mk x) w) = fst (rCreate res x (cluster w))"
  by (simp add: doCreate_def)

text \<open>What the API server guarantees of names: a Get answers the object of that name, and a patched or
  created object keeps its name.\<close>

definition namesKept :: "('s, 'x) env_scheme \<Rightarrow> bool" where
  "namesKept env \<longleftrightarrow>
     (\<forall>k c ws. fst (rGet (workspaces env) k c) = Inr ws \<longrightarrow> wsKey ws = k) \<and>
     (\<forall>b x c ws. fst (rStatusPatch (workspaces env) b x c) = Inr ws \<longrightarrow> wsKey ws = wsKey x) \<and>
     (\<forall>x c ws. fst (rCreate (workspaces env) x c) = Inr ws \<longrightarrow> wsKey ws = wsKey x)"

definition userWorkspace :: "config \<Rightarrow> string \<Rightarrow> key" where
  "userWorkspace cfg raw = (cfgNamespace cfg, ChildName (cfgApp cfg) (UserKey (cfgNamespace cfg) (cfgApp cfg) raw))"

text \<open>The events that concern one workspace \<open>k\<close> only: besides metrics and the listing that counts the
  app's workspaces, only the Workspace, the Service and the EndpointSlices named \<open>k\<close>, and only an
  address that the cache or a Get of the Service gave for \<open>k\<close>.\<close>

inductive own_event :: "('s, 'x) env_scheme \<Rightarrow> config \<Rightarrow> cache \<Rightarrow> key \<Rightarrow> event \<Rightarrow> bool"
  for env :: "('s, 'x) env_scheme" and cfg :: config and cch :: cache and k :: key where
  metric: "own_event env cfg cch k (Metric mt)"
| get: "own_event env cfg cch k (Api (Get KWorkspace k) er)"
| count: "own_event env cfg cch k (Api (ListCall KWorkspace (cfgNamespace cfg) [(LabelApp, cfgApp cfg)]) er)"
| create: "wsKey ws = k \<Longrightarrow> own_event env cfg cch k (Api (Create (WsObj ws)) er)"
| status: "wsKey b = k \<Longrightarrow> wsKey x = k \<Longrightarrow> own_event env cfg cch k (Api (StatusPatch (WsObj b) (WsObj x)) er)"
| endpoints: "own_event env cfg cch k (Api (ListCall KEndpointSlice (fst k) [(LabelServiceName, snd k)]) er)"
| service: "own_event env cfg cch k (Api (Get KService k) er)"
| forwarded: "cch k = Some addr \<or> (\<exists>c svc. fst (rGet (services env) k c) = Inr svc \<and>
      addr = dialAddr (svcClusterIP svc) (WorkspacePort cfg)) \<Longrightarrow> own_event env cfg cch k (Forwarded addr h)"

lemma ensureEnqueuedAt_own:
  assumes "namesKept env" and "wsKey ws = k"
  shows "emits (own_event env cfg cch k) (ensureEnqueuedAt env ws)"
    and "obeys (ensureEnqueuedAt env ws) (\<lambda>r _. \<forall>ws'. r = Inr ws' \<longrightarrow> wsKey ws' = k)"
proof -
  show "emits (own_event env cfg cch k) (ensureEnqueuedAt env ws)"
    unfolding ensureEnqueuedAt_def using assms(2) by (intro emits_rules) (simp add: own_event.status)
  show "obeys (ensureEnqueuedAt env ws) (\<lambda>r _. \<forall>ws'. r = Inr ws' \<longrightarrow> wsKey ws' = k)"
    unfolding ensureEnqueuedAt_def using assms
    by (intro obeys_rules) (auto simp: namesKept_def)
qed

lemma newWorkspace_key: "wsKey (newWorkspace cfg raw (UserKey (cfgNamespace cfg) (cfgApp cfg) raw)) = userWorkspace cfg raw"
  by (simp add: newWorkspace_def wsKey_def userWorkspace_def)

lemma ensureWorkspace_own:
  assumes "namesKept env"
  shows "emits (own_event env cfg cch (userWorkspace cfg raw))
      (ensureWorkspace env cfg raw (UserKey (cfgNamespace cfg) (cfgApp cfg) raw))"
    and "obeys (ensureWorkspace env cfg raw (UserKey (cfgNamespace cfg) (cfgApp cfg) raw))
      (\<lambda>r _. \<forall>ws. r = Inr ws \<longrightarrow> wsKey ws = userWorkspace cfg raw)"
proof -
  let ?k = "userWorkspace cfg raw"
  have got: "fst (rGet (workspaces env) k c) = Inr ws \<Longrightarrow> wsKey ws = k" for k c ws
    using assms unfolding namesKept_def by blast
  have made: "fst (rCreate (workspaces env) (newWorkspace cfg raw (UserKey (cfgNamespace cfg) (cfgApp cfg) raw)) c) = Inr ws
      \<Longrightarrow> wsKey ws = ?k" for c ws
    using assms newWorkspace_key unfolding namesKept_def by metis
  have key: "(cfgNamespace cfg, ChildName (cfgApp cfg) (UserKey (cfgNamespace cfg) (cfgApp cfg) raw)) = ?k"
    by (simp add: userWorkspace_def)
  show "emits (own_event env cfg cch ?k) (ensureWorkspace env cfg raw (UserKey (cfgNamespace cfg) (cfgApp cfg) raw))"
    unfolding ensureWorkspace_def createWorkspace_def key
    by (intro emits_bind_answer emits_case_sum emits_if emits_return emits_calls ensureEnqueuedAt_own(1) [OF assms])
      (auto intro: own_event.intros got made simp: newWorkspace_key answer_doCreate)
  show "obeys (ensureWorkspace env cfg raw (UserKey (cfgNamespace cfg) (cfgApp cfg) raw))
      (\<lambda>r _. \<forall>ws. r = Inr ws \<longrightarrow> wsKey ws = ?k)"
    unfolding ensureWorkspace_def createWorkspace_def key
    by (intro obeys_rules obeys_mono [OF ensureEnqueuedAt_own(2) [OF assms]]) (auto dest: got made)
qed

lemma isServable_own:
  "wsKey ws = k \<Longrightarrow> emits (own_event env cfg cch k) (isServable env' ws)"
  unfolding isServable_def HasEndpoints_def
  using own_event.endpoints [of env cfg cch k] by (intro emits_rules) (auto simp: wsKey_def)

lemma holdLoop_own:
  assumes "namesKept env"
  shows "emits (own_event env cfg cch k) (holdLoop env fuel k deadline)"
    and "obeys (holdLoop env fuel k deadline) (\<lambda>r _. \<forall>ws ok. r = Held ws ok \<longrightarrow> wsKey ws = k)"
proof -
  have got: "fst (rGet (workspaces env) k c) = Inr ws \<Longrightarrow> wsKey ws = k" for c ws
    using assms unfolding namesKept_def by blast
  have serv: "obeys (isServable env ws) (\<lambda>_ _. True)" for ws
    unfolding isServable_def HasEndpoints_def by (intro obeys_rules) simp_all
  show "emits (own_event env cfg cch k) (holdLoop env fuel k deadline)"
  proof (induction fuel)
    case (Suc fuel)
    show ?case unfolding holdLoop.simps
      by (intro emits_bind_answer emits_case_sum emits_if emits_return emits_calls emits_ask isServable_own Suc)
        (auto intro: own_event.get got)
  qed (simp add: emits_return)
  show "obeys (holdLoop env fuel k deadline) (\<lambda>r _. \<forall>ws ok. r = Held ws ok \<longrightarrow> wsKey ws = k)"
  proof (induction fuel)
    case (Suc fuel)
    show ?case unfolding holdLoop.simps
      by (intro obeys_rules obeys_mono [OF serv] obeys_mono [OF Suc]) (auto dest: got)
  qed (simp add: obeys_return)
qed

lemma coldStartHold_own:
  assumes "namesKept env" and "wsKey ws = k"
  shows "emits (own_event env cfg cch k) (coldStartHold env cfg fuel ws)"
    and "obeys (coldStartHold env cfg fuel ws) (\<lambda>r _. \<forall>ws' ok. r = Held ws' ok \<longrightarrow> wsKey ws' = k)"
proof -
  have k: "(Namespace (wsMeta ws), Name (wsMeta ws)) = k" using assms(2) by (simp add: wsKey_def)
  show "emits (own_event env cfg cch k) (coldStartHold env cfg fuel ws)"
    unfolding coldStartHold_def requestWake_def k
    by (intro emits_rules holdLoop_own(1) [OF assms(1)]) (auto intro!: own_event.status simp: assms(2))
  show "obeys (coldStartHold env cfg fuel ws) (\<lambda>r _. \<forall>ws' ok. r = Held ws' ok \<longrightarrow> wsKey ws' = k)"
    unfolding coldStartHold_def requestWake_def k
    by (intro obeys_rules obeys_mono [OF holdLoop_own(2) [OF assms(1)]]) auto
qed

lemma publish_own:
  assumes "namesKept env"
  shows "emits (own_event env cfg cch k) (publish env app pod k n)"
proof -
  have got: "fst (rGet (workspaces env) k c) = Inr ws \<Longrightarrow> wsKey ws = k" for c ws
    using assms unfolding namesKept_def by blast
  show ?thesis
    unfolding publish_def
    by (intro emits_bind_answer emits_case_sum emits_return emits_calls)
      (auto intro!: own_event.get own_event.metric own_event.status simp: withConnection_def dest: got)
qed

lemma touchActivity_own:
  assumes "namesKept env"
  shows "emits (own_event env cfg cch k) (touchActivity env k t)"
proof -
  have got: "fst (rGet (workspaces env) k c) = Inr ws \<Longrightarrow> wsKey ws = k" for c ws
    using assms unfolding namesKept_def by blast
  show ?thesis
    unfolding touchActivity_def
    by (intro emits_bind_answer emits_case_sum emits_if emits_return emits_calls)
      (auto intro!: own_event.get own_event.status dest: got)
qed

lemma Resolve_address:
  "obeys (Resolve env cch ns name port) (\<lambda>r _. \<forall>addr. fst r = Inr addr \<longrightarrow> cch (ns, name) = Some addr \<or>
     (\<exists>c svc. fst (rGet (services env) (ns, name) c) = Inr svc \<and> addr = dialAddr (svcClusterIP svc) port))"
  unfolding Resolve_def by (intro obeys_rules) auto

lemma proxy_own:
  assumes "namesKept env" and "wsKey ws = k"
  shows "emits (own_event env cfg (rsCache st) k) (proxy env cfg st req ws)"
proof -
  have k: "(Namespace (wsMeta ws), Name (wsMeta ws)) = k" "Namespace (wsMeta ws) = fst k" "Name (wsMeta ws) = snd k"
    using assms(2) by (auto simp: wsKey_def)
  have res: "emits (own_event env cfg (rsCache st) k) (Resolve env (rsCache st) (fst k) (snd k) (WorkspacePort cfg))"
    unfolding Resolve_def by (intro emits_rules) (simp add: own_event.service)
  have addr: "own_event env cfg (rsCache st) k (Forwarded a h)"
    if "fst (run_state (Resolve env (rsCache st) (fst k) (snd k) (WorkspacePort cfg)) w) = r" "fst r = Inr a" for w r a h
    using obeys_answer [OF Resolve_address that(1)] that(2) by (intro own_event.forwarded) auto
  show ?thesis
    unfolding proxy_def Open_def Close_def forwardTo_def Let_def k prod.collapse
    by (intro emits_bind_answer emits_case_sum emits_case_option emits_if emits_return
        emits_ask res publish_own [OF assms(1)]) (auto intro: addr)
qed

lemma serve_own:
  assumes "namesKept env" and "wsKey ws = k"
  shows "emits (own_event env cfg (rsCache st) k) (serve env cfg st req k ws)"
  unfolding serve_def
  by (intro emits_rules touchActivity_own [OF assms(1)] proxy_own [OF assms] own_event.metric)

lemma serveWorkspace_own:
  assumes "namesKept env" and "wsKey ws = k"
  shows "emits (own_event env cfg (rsCache st) k) (serveWorkspace env cfg fuel st req ws)"
proof -
  have k: "(Namespace (wsMeta ws), Name (wsMeta ws)) = k" using assms(2) by (simp add: wsKey_def)
  show ?thesis
    unfolding serveWorkspace_def Let_def k
    by (intro emits_bind_answer emits_case_sum emits_case_holdResult emits_if emits_return emits_answer
        emits_rejectRequest isServable_own [OF assms(2)] coldStartHold_own(1) [OF assms] serve_own [OF assms]
        serve_own [OF assms(1)] own_event.metric)
      (auto dest: obeys_answer [OF coldStartHold_own(2) [OF assms]])
qed

text \<open>Claim C1. Requests stay with their own user: given that the API server keeps names, a request that
  resolves to an identity reads and writes only the Workspace, Service and EndpointSlices of that
  identity's own name (apart from the listing that counts the app's workspaces), and is forwarded
  only to an address that the cache or the live Service gave for that name.\<close>

theorem requests_stay_with_user:
  assumes "namesKept env" and "requestIdentity cfg req = Inr raw"
  shows "emits (own_event env cfg (rsCache st) (userWorkspace cfg raw)) (ServeHTTP env cfg fuel st req)"
proof -
  have "emits (own_event env cfg (rsCache st) (userWorkspace cfg raw)) (serveUser env cfg fuel st req raw)"
    unfolding serveUser_def
    by (intro emits_bind_answer emits_case_sum emits_case_ensureError emits_case_option emits_calls emits_answer
        emits_rejectRequest ensureWorkspace_own(1) [OF assms(1)] serveWorkspace_own [OF assms(1)] own_event.metric)
      (auto dest: obeys_answer [OF ensureWorkspace_own(2) [OF assms(1)]])
  then show ?thesis
    unfolding ServeHTTP_def assms(2) by (intro emits_rules own_event.metric) simp_all
qed

definition sampleConfig :: config where
  "sampleConfig = \<lparr>cfgApp = ''app'', cfgNamespace = ''ns'', IdentityHeader = ''X-User'', IdentityMaxLength = 64,
     cfgSharedPaths = [], CallerAuthHeader = ''Authorization'', CallerAuthScheme = ''Bearer'',
     CallerAuthSecret = ''s3cret'', UpstreamAuthHeader = [], UpstreamAuthScheme = [], UpstreamAuthSecret = [],
     WorkspacePort = 8888, ColdStartHold = 45 * second, cfgHeartbeatInterval = 30 * second, cfgMaxWorkspaces = 3,
     cfgPodName = ''router-0'', ListenAddr = '':8080'', MetricsAddr = '':9090''\<rparr>"

definition sampleRequest :: request where
  "sampleRequest = \<lparr>rqMethod = ''GET'', rqPath = ''/'',
     rqHeader = [(''Authorization'', [''Bearer s3cret'']), (''X-User'', [''alice''])]\<rparr>"

definition sampleREnv :: "(gotime \<times> workspace list) renv" where
  "sampleREnv = env.extend sampleEnv
     (renv.fields (\<lambda>_ _ s. (200, s)) (\<lambda>s. (fst s, s)) (\<lambda>s. (True, (fst s + second, snd s))))"

lemma sampleREnv_simps [simp]:
  "workspaces sampleREnv = workspaces sampleEnv" "endpointSlices sampleREnv = endpointSlices sampleEnv"
  "wallNow sampleREnv = (\<lambda>s. (fst s, s))" "pollTick sampleREnv = (\<lambda>s. (True, (fst s + second, snd s)))"
  by (simp_all add: sampleREnv_def env.defs renv.defs)

lemma sampleREnv_names: "namesKept sampleREnv"
  by (simp add: namesKept_def sample_env_defs)

lemma sampleRequest_identity: "requestIdentity sampleConfig sampleRequest = Inr ''alice''"
proof -
  have "Values (rqHeader sampleRequest) (IdentityHeader sampleConfig) = [''alice'']"
    by (simp add: Values_def CanonicalHeaderKey_def validHeaderFieldByte_def toUpperASCII_def toLowerASCII_def
        byteval_def Let_def sampleRequest_def sampleConfig_def)
  then have "Extract (rqHeader sampleRequest) (IdentityHeader sampleConfig) (IdentityMaxLength sampleConfig) = Inr ''alice''"
    unfolding extract_accepts_iff by (simp add: printable_def byteval_def Shared_def sampleConfig_def)
  then show ?thesis by (simp add: requestIdentity_def)
qed

theorem requests_stay_with_user_witness:
  "emits (own_event sampleREnv sampleConfig Map.empty (userWorkspace sampleConfig ''alice''))
     (ServeHTTP sampleREnv sampleConfig 50 \<lparr>rsCache = Map.empty, rsCounts = Map.empty\<rparr> sampleRequest)"
  using requests_stay_with_user [OF sampleREnv_names sampleRequest_identity,
      of "\<lparr>rsCache = Map.empty, rsCounts = Map.empty\<rparr>" 50] by simp

section \<open>The hold ends\<close>

text \<open>Time as the hold sees it: the wall clock reads \<open>T\<close>, no call moves it back, and every tick of the
  poll ticker moves it forward by at least \<open>d\<close>.\<close>

definition ticking :: "('s, 'x) renv_scheme \<Rightarrow> ('s \<Rightarrow> gotime) \<Rightarrow> duration \<Rightarrow> bool" where
  "ticking env T d \<longleftrightarrow> 0 < d \<and>
     (\<forall>s. fst (wallNow env s) = T s \<and> T s \<le> T (snd (wallNow env s))) \<and>
     (\<forall>s k. T s \<le> T (snd (rGet (workspaces env) k s))) \<and>
     (\<forall>s ns ls. T s \<le> T (snd (rList (endpointSlices env) ns ls s))) \<and>
     (\<forall>s. T s + d \<le> T (snd (pollTick env s)))"

lemma isServable_time:
  assumes "ticking env T d"
  shows "T (cluster w) \<le> T (cluster (snd (run_state (isServable env ws) w)))"
  using assms unfolding ticking_def isServable_def HasEndpoints_def doList_def
  by (auto split: sum.split)

lemma holdLoop_Suc:
  assumes tick: "ticking env T d"
  shows "fst (run_state (holdLoop env (Suc f) k deadline) w) \<noteq> HoldPending \<or>
    (\<exists>w'. run_state (holdLoop env (Suc f) k deadline) w = run_state (holdLoop env f k deadline) w' \<and>
          T (cluster w) + d \<le> T (cluster w') \<and> T (cluster w) < deadline)"
proof -
  obtain g w1 where g: "run_state (doGet (workspaces env) KWorkspace k) w = (g, w1)" by fastforce
  have "T (cluster w) \<le> T (snd (rGet (workspaces env) k (cluster w)))" using tick unfolding ticking_def by blast
  with g have w1: "T (cluster w) \<le> T (cluster w1)" by (auto simp: doGet_def)
  show ?thesis
  proof (cases g)
    case (Inl e)
    then show ?thesis by (simp add: g)
  next
    case (Inr cur)
    obtain r w2 where r: "run_state (isServable env cur) w1 = (r, w2)" by fastforce
    have w2: "T (cluster w1) \<le> T (cluster w2)" using isServable_time [OF tick, of w1 cur] by (simp add: r)
    let ?w3 = "w2\<lparr>cluster := snd (wallNow env (cluster w2)), trace := trace w2\<rparr>"
    let ?w4 = "w2\<lparr>cluster := snd (pollTick env (snd (wallNow env (cluster w2)))), trace := trace w2\<rparr>"
    have wall: "fst (wallNow env (cluster w2)) = T (cluster w2)" "T (cluster w2) \<le> T (cluster ?w3)"
      "T (cluster ?w3) + d \<le> T (cluster ?w4)" using tick by (simp_all add: ticking_def)
    consider (stop) "\<exists>e. r = Inl e" | (ok) "r = Inr True" | (late) "r = Inr False" "\<not> T (cluster w2) < deadline"
      | (poll) "r = Inr False" "T (cluster w2) < deadline" by (cases r) auto
    then show ?thesis
    proof cases
      case poll
      show ?thesis
      proof (cases "fst (pollTick env (snd (wallNow env (cluster w2))))")
        case True
        then have "run_state (holdLoop env (Suc f) k deadline) w = run_state (holdLoop env f k deadline) ?w4"
          using poll by (simp add: g Inr r wall)
        moreover have "T (cluster w) + d \<le> T (cluster ?w4)" "T (cluster w) < deadline"
          using w1 w2 wall poll by linarith+
        ultimately show ?thesis by blast
      qed (use poll in \<open>simp add: g Inr r wall\<close>)
    qed (auto simp: g Inr r wall)
  qed
qed

lemma holdLoop_ends:
  assumes "ticking env T d" and "deadline \<le> T (cluster w) + int n * d" and "n < fuel"
  shows "fst (run_state (holdLoop env fuel k deadline) w) \<noteq> HoldPending"
  using assms(2,3)
proof (induction n arbitrary: w fuel)
  case 0
  then obtain f where "fuel = Suc f" by (cases fuel) auto
  with 0 holdLoop_Suc [OF assms(1), of f k deadline w] show ?case by auto
next
  case (Suc n)
  then obtain f where f: "fuel = Suc f" by (cases fuel) auto
  consider "fst (run_state (holdLoop env (Suc f) k deadline) w) \<noteq> HoldPending"
    | w' where "run_state (holdLoop env (Suc f) k deadline) w = run_state (holdLoop env f k deadline) w'"
        "T (cluster w) + d \<le> T (cluster w')"
    using holdLoop_Suc [OF assms(1)] by blast
  then show ?case
  proof cases
    case (2 w')
    have "deadline \<le> T (cluster w') + int n * d" using Suc.prems(1) 2(2) by (simp add: distrib_right)
    with Suc.IH [of w' f] Suc.prems(2) f 2(1) show ?thesis by simp
  qed (simp add: f)
qed



section \<open>A connection whose opening could not be published\<close>

text \<open>A consequence of the code as written: Open counts the connection before it publishes, and the router
  closes only connections whose Open returned no error. So when the publication fails, the count
  stays raised after the request is over, and every later heartbeat publishes it.\<close>

theorem failed_open_leaks:
  assumes "rsCache st (Namespace (wsMeta ws), Name (wsMeta ws)) = Some addr"
    and "isUpgradeRequest (rqHeader req)"
    and "\<And>c. \<exists>e. fst (rGet (workspaces env) (Namespace (wsMeta ws), Name (wsMeta ws)) c) = Inl e"
  shows "obeys (proxy env cfg st req ws) (\<lambda>x _.
    countOf (rsCounts (snd x)) (Namespace (wsMeta ws), Name (wsMeta ws)) =
      wrap32 (countOf (rsCounts st) (Namespace (wsMeta ws), Name (wsMeta ws)) + 1))"
proof -
  let ?k = "(Namespace (wsMeta ws), Name (wsMeta ws))"
  have pub: "obeys (publish env a p ?k n) (\<lambda>r _. r \<noteq> None)" for a p n
    unfolding publish_def
  proof (intro obeys_bind obeys_doGet, goal_cases)
    case (1 r c)
    then obtain e where "r = Inl e" using assms(3) [of c] by auto
    then show ?case by (simp add: obeys_return)
  qed
  have opened: "obeys (Open env a p cs ?k) (\<lambda>r _. fst r \<noteq> None \<and> snd r = opened cs ?k)" for a p cs
    unfolding Open_def Let_def by (intro obeys_bind obeys_mono [OF pub] obeys_return) simp
  have count: "countOf (opened cs ?k) ?k = wrap32 (countOf cs ?k + 1)" for cs
    by (simp add: opened_def countOf_def)
  show ?thesis
    unfolding proxy_def Resolve_def Let_def forwardTo_def using assms(1,2)
    by (auto intro!: obeys_bind obeys_return obeys_mono [OF opened] obeys_ask simp: count)
qed

end
