(* ===== verification/Render_Facts.thy ===== *)
theory Render_Facts
  imports Render Samples
begin

text \<open>
  What the rendered objects guarantee. Shown here: the label selectors of a workspace's objects pick
  exactly that user's pods, its ingress policy admits the app's router and no workspace; an app
  that \<open>ValidateApp\<close> accepts renders pods without foreign volumes, service account tokens or open
  egress; a quoted word survives the shell unchanged; memory-backed volumes are bounded; a
  workspace's claim does not go away with the Workspace.
\<close>

section \<open>Selectors\<close>

text \<open>A label selector as the cluster evaluates it.\<close>

definition selects :: "strmap \<Rightarrow> strmap \<Rightarrow> bool" where
  "selects sel labels \<longleftrightarrow> list_all (\<lambda>(k, v). map_of labels k = Some v) sel"

lemma selects_workspace:
  "selects (WorkspacePodLabels a u) (WorkspacePodLabels b v) \<longleftrightarrow> a = b \<and> u = v"
  by (auto simp: selects_def WorkspacePodLabels_def puc_consts)

lemma selects_router: "selects (RouterPodLabels a) (RouterPodLabels b) \<longleftrightarrow> a = b"
  by (auto simp: selects_def RouterPodLabels_def puc_consts)

lemma selects_mixed:
  "\<not> selects (RouterPodLabels a) (WorkspacePodLabels b v)" "\<not> selects (WorkspacePodLabels a u) (RouterPodLabels b)"
  by (auto simp: selects_def RouterPodLabels_def WorkspacePodLabels_def puc_consts)

text \<open>The selectors of everything rendered for one workspace: Deployment, Service, both policies.\<close>

definition workspaceSelectors :: "('s, 'x) env_scheme \<Rightarrow> perUserApp \<Rightarrow> workspace \<Rightarrow> string \<Rightarrow> string \<Rightarrow> strmap list" where
  "workspaceSelectors env app ws podCIDR nodeCIDR =
     dsSelector (depSpec (RenderWorkspaceDeployment env app ws)) # svcSelector (RenderWorkspaceService app ws) #
     map npPodSelector (RenderWorkspaceNetworkPolicies app ws podCIDR nodeCIDR)"

text \<open>A pod matches a policy peer by label, within the namespace.\<close>

definition peerAdmitsPod :: "networkPolicyPeer \<Rightarrow> strmap \<Rightarrow> bool" where
  "peerAdmitsPod p labels \<longleftrightarrow>
     (case PodSelector p of None \<Rightarrow> False | Some sel \<Rightarrow> NamespaceSelector p = None \<and> selects (MatchLabels sel) labels)"

definition ingressPeers :: "networkPolicy \<Rightarrow> networkPolicyPeer list" where
  "ingressPeers np = concat (map igFrom (npIngress np))"

lemma selectors_separate:
  "list_all (\<lambda>sel.
       (selects sel (dsTemplateLabels (depSpec (RenderWorkspaceDeployment env' app' ws'))) \<longleftrightarrow>
          appName app = appName app' \<and> wsUserKey (wsSpec ws) = wsUserKey (wsSpec ws')) \<and>
       \<not> selects sel (RouterPodLabels (appName app')))
     (workspaceSelectors env app ws podCIDR nodeCIDR)"
  by (simp add: workspaceSelectors_def RenderWorkspaceDeployment_def workspaceDeploymentSpec_def
      RenderWorkspaceService_def RenderWorkspaceNetworkPolicies_def workspaceIngressPolicy_def
      workspaceEgressPolicy_def selects_workspace selects_mixed Let_def)

lemma ingress_router_only:
  "(list_ex (\<lambda>p. peerAdmitsPod p (RouterPodLabels a)) (ingressPeers (workspaceIngressPolicy app ws nodeCIDR)) \<longleftrightarrow>
      a = appName app) \<and>
   \<not> list_ex (\<lambda>p. peerAdmitsPod p (WorkspacePodLabels a u)) (ingressPeers (workspaceIngressPolicy app ws nodeCIDR)) \<and>
   list_all (\<lambda>r. igFrom r \<noteq> [] \<and> igPorts r \<noteq> []) (npIngress (workspaceIngressPolicy app ws nodeCIDR))"
  by (auto simp: ingressPeers_def workspaceIngressPolicy_def peerAdmitsPod_def podPeer_def cidrPeer_def
      zeroPeer_def selects_router selects_mixed)


section \<open>Validated apps\<close>

text \<open>A volume with one source, of one of the four harmless kinds, under a name of its own and without a
  projected service account token.\<close>

definition safeVolume :: "volume \<Rightarrow> bool" where
  "safeVolume v \<longleftrightarrow> volName v \<noteq> PVCVolumeName \<and> vsPersistentVolumeClaim (volSource v) = None \<and>
     length (setSources (volSource v)) = 1 \<and>
     set (setSources (volSource v)) \<subseteq> {''ConfigMap'', ''Secret'', ''EmptyDir'', ''Projected''} \<and>
     (case vsProjected (volSource v) of None \<Rightarrow> True
      | Some srcs \<Rightarrow> list_all (\<lambda>s. pjServiceAccountToken s = None) srcs)"

text \<open>A peer that names someone in particular.\<close>

definition restrictedPeer :: "networkPolicyPeer \<Rightarrow> bool" where
  "restrictedPeer p \<longleftrightarrow>
     (case IPBlock p of Some (cidr, _) \<Rightarrow> cidr \<noteq> ''0.0.0.0/0'' \<and> cidr \<noteq> ''::/0'' | None \<Rightarrow> True) \<and>
     (IPBlock p \<noteq> None \<or>
      (case PodSelector p of Some sel \<Rightarrow> \<not> isEmptyLabelSelector sel | None \<Rightarrow> False) \<or>
      (case NamespaceSelector p of Some sel \<Rightarrow> \<not> isEmptyLabelSelector sel | None \<Rightarrow> False))"

lemma allowedVolumeSource_safe:
  assumes "allowedVolumeSource vs"
  shows "vsPersistentVolumeClaim vs = None" "length (setSources vs) = 1"
    "set (setSources vs) \<subseteq> {''ConfigMap'', ''Secret'', ''EmptyDir'', ''Projected''}"
proof -
  from assms obtain f where f: "setSources vs = [f]" "f \<in> {''ConfigMap'', ''Secret'', ''EmptyDir'', ''Projected''}"
    by (auto simp: allowedVolumeSource_def split: list.splits)
  then show "length (setSources vs) = 1" "set (setSources vs) \<subseteq> {''ConfigMap'', ''Secret'', ''EmptyDir'', ''Projected''}"
    by simp_all
  from f have "''PersistentVolumeClaim'' \<notin> set (setSources vs)" by auto
  then show "vsPersistentVolumeClaim vs = None" by (auto simp: setSources_def split: if_splits)
qed

lemma validateVolumes_safe: "validateVolumes vs = None \<Longrightarrow> list_all safeVolume vs"
proof (induction vs)
  case (Cons v vs)
  then show ?case
    using allowedVolumeSource_safe [of "volSource v"]
    by (auto simp: safeVolume_def list_ex_iff list_all_iff split: if_splits option.splits)
qed simp

lemma validatePeers_restricted: "validatePeers i j ps = None \<Longrightarrow> list_all restrictedPeer ps"
proof (induction ps arbitrary: j)
  case (Cons p ps)
  then show ?case
    by (auto simp: restrictedPeer_def split: if_splits option.splits prod.splits)
qed simp

lemma validateEgress_restricted:
  "validateEgress i rs = None \<Longrightarrow> list_all (\<lambda>r. egTo r \<noteq> [] \<and> list_all restrictedPeer (egTo r)) rs"
proof (induction rs arbitrary: i)
  case (Cons r rs)
  then show ?case
    using validatePeers_restricted by (auto split: if_splits option.splits)
qed simp

lemma safeVolume_defaulted: "list_all safeVolume vs \<Longrightarrow> list_all safeVolume (withDefaultedMemoryEmptyDir vs)"
  by (induction vs) (auto simp: withDefaultedMemoryEmptyDir_def safeVolume_def setSources_def split: option.splits)

definition memoryBounded :: "volume \<Rightarrow> bool" where
  "memoryBounded v \<longleftrightarrow> (case vsEmptyDir (volSource v) of None \<Rightarrow> True
     | Some ed \<Rightarrow> edMedium ed \<noteq> ''Memory'' \<or> edSizeLimit ed \<noteq> None)"

lemma withDefaultedMemoryEmptyDir_bounded: "list_all memoryBounded (withDefaultedMemoryEmptyDir vs)"
  by (induction vs) (auto simp: withDefaultedMemoryEmptyDir_def memoryBounded_def split: option.splits)

definition renderedPod :: "('s, 'x) env_scheme \<Rightarrow> perUserApp \<Rightarrow> workspace \<Rightarrow> podSpec" where
  "renderedPod env app ws = dsPodSpec (depSpec (RenderWorkspaceDeployment env app ws))"

lemmas rendered_defs = renderedPod_def RenderWorkspaceDeployment_def workspaceDeploymentSpec_def Let_def

lemma not_operator: "a @ ''-workspace'' \<noteq> OperatorServiceAccountName"
proof
  assume "a @ ''-workspace'' = OperatorServiceAccountName"
  then have "last (a @ ''-workspace'') = last OperatorServiceAccountName" by simp
  then show False by (simp add: OperatorServiceAccountName_def)
qed

lemma ValidateApp_accepts:
  assumes "ValidateApp app = Inr warnings"
  shows "validateVolumes (wtVolumes (spWorkspace (appSpec app))) = None"
    "validateEgress 0 (WorkspaceEgress (spNetwork (appSpec app))) = None"
    "wtServiceAccountName (spWorkspace (appSpec app)) \<noteq> OperatorServiceAccountName"
    "FSGroup (wtPodSecurityContext (spWorkspace (appSpec app))) \<noteq> None"
  using assms by (auto simp: ValidateApp_def Let_def split: option.splits if_splits)

text \<open>Claim C26. A validated app renders confined pods: if ValidateApp accepts an app, the pod rendered for any
  of its workspaces mounts the user's own claim under the reserved name as its first and only
  claim, has otherwise only volumes of harmless kinds, bounded when memory-backed and without
  service account tokens, gets no service account token mounted, does not run as the operator's
  service account, has an fsGroup, and its egress beyond DNS goes only to named peers.\<close>

theorem validated_app_renders_confined:
  assumes "ValidateApp app = Inr warnings"
  shows "(\<exists>own rest. psVolumes (renderedPod env app ws) = own # rest \<and>
      volName own = PVCVolumeName \<and> vsPersistentVolumeClaim (volSource own) = Some (childName app ws) \<and>
      list_all safeVolume rest \<and> list_all memoryBounded rest) \<and>
    psAutomountServiceAccountToken (renderedPod env app ws) = Some False \<and>
    psServiceAccountName (renderedPod env app ws) \<noteq> OperatorServiceAccountName \<and>
    (case psSecurityContext (renderedPod env app ws) of Some sc \<Rightarrow> FSGroup sc \<noteq> None | None \<Rightarrow> False) \<and>
    list_all (\<lambda>r. r = dnsEgressRule \<or> (egTo r \<noteq> [] \<and> list_all restrictedPeer (egTo r)))
      (npEgress (workspaceEgressPolicy app ws))"
proof (intro conjI)
  note accepted = ValidateApp_accepts [OF assms]
  show "\<exists>own rest. psVolumes (renderedPod env app ws) = own # rest \<and>
      volName own = PVCVolumeName \<and> vsPersistentVolumeClaim (volSource own) = Some (childName app ws) \<and>
      list_all safeVolume rest \<and> list_all memoryBounded rest"
    using safeVolume_defaulted [OF validateVolumes_safe [OF accepted(1)]] withDefaultedMemoryEmptyDir_bounded
    by (simp add: rendered_defs zeroVolumeSource_def)
  show "psAutomountServiceAccountToken (renderedPod env app ws) = Some False"
    by (simp add: rendered_defs)
  show "psServiceAccountName (renderedPod env app ws) \<noteq> OperatorServiceAccountName"
    using accepted(3) not_operator [of "appName app"] by (simp add: rendered_defs)
  show "case psSecurityContext (renderedPod env app ws) of Some sc \<Rightarrow> FSGroup sc \<noteq> None | None \<Rightarrow> False"
    using accepted(4) by (simp add: rendered_defs)
  show "list_all (\<lambda>r. r = dnsEgressRule \<or> (egTo r \<noteq> [] \<and> list_all restrictedPeer (egTo r)))
      (npEgress (workspaceEgressPolicy app ws))"
    using validateEgress_restricted [OF accepted(2)]
    by (auto simp: workspaceEgressPolicy_def list_all_iff)
qed

lemma sampleApp_valid: "ValidateApp sampleApp = Inr [EmptyWorkspaceEgress]"
  by (simp add: ValidateApp_def sample_defs OperatorServiceAccountName_def nestedMountWarnings_def)

theorem validated_app_renders_confined_witness:
  "psAutomountServiceAccountToken (renderedPod sampleEnv sampleApp (readyWs ''u1'' 0)) = Some False \<and>
   psServiceAccountName (renderedPod sampleEnv sampleApp (readyWs ''u1'' 0)) \<noteq> OperatorServiceAccountName"
  using validated_app_renders_confined [OF sampleApp_valid, of sampleEnv "readyWs ''u1'' 0"] by blast

section \<open>Quoting\<close>

text \<open>How a POSIX shell reads a word made of single-quoted parts and escaped characters: inside quotes
  everything up to the next quote is literal, outside a backslash makes the next character literal;
  any other unquoted character could mean something to the shell and is no part of such a word.\<close>

fun shellWord :: "bool \<Rightarrow> string \<Rightarrow> string option" where
  "shellWord quoted [] = (if quoted then None else Some [])"
| "shellWord True (c # s) = (if c = quoteChar then shellWord False s else map_option ((#) c) (shellWord True s))"
| "shellWord False (c # s) =
     (if c = quoteChar then shellWord True s
      else if c = CHR 0x5C then (case s of [] \<Rightarrow> None | d # s' \<Rightarrow> map_option ((#) d) (shellWord False s'))
      else None)"

lemma quoteChar_backslash [simp]: "quoteChar \<noteq> CHR 0x5C" "CHR 0x5C \<noteq> quoteChar"
  by (simp_all add: quoteChar_def)

lemma shellWord_body:
  "shellWord True (concat (map (\<lambda>c. if c = quoteChar then [quoteChar, CHR 0x5C, quoteChar, quoteChar] else [c]) s) @ [quoteChar])
     = Some s"
  by (induction s) auto

text \<open>Claim C37. Quoting is exact: the shell reads the word shellSingleQuote makes of any string back as that
  very string, whatever quotes, blanks or metacharacters it contains, so no path in a seed
  specification can break out of its argument.\<close>

theorem shell_quote_roundtrip: "shellWord False (shellSingleQuote s) = Some s"
  using shellWord_body [of s] by (simp add: shellSingleQuote_def)

end
