(* ===== verification/Go_Time.thy ===== *)
theory Go_Time
  imports Go_Std
begin

text \<open>
  The two functions of package \<open>time\<close> through which a duration travels from the controller to the
  router: \<open>Duration.String\<close>, with which the controller renders a flag, and \<open>ParseDuration\<close>, with which
  the router's flag set reads it; and that they are inverse to each other on every duration.

  A Go string is its bytes, so the unit of microseconds is the two bytes of the micro sign.
  \<open>ParseDuration\<close> computes the fraction of a unit in floating point; the model truncates the exact
  quotient, which is the same whenever the scale (a power of ten) divides the unit, as it does in
  everything \<open>Duration.String\<close> prints.
\<close>

section \<open>Duration.String\<close>

definition digitChar :: "int \<Rightarrow> char" where
  "digitChar i = char_of (48 + nat i)"

text \<open>\<open>fmtFrac\<close>: the last \<open>prec\<close> decimal digits of \<open>v\<close> without trailing zeros, and the rest of \<open>v\<close>.\<close>

fun fmtFrac :: "nat \<Rightarrow> int \<Rightarrow> bool \<Rightarrow> string \<Rightarrow> string \<times> int" where
  "fmtFrac 0 v print acc = (if print then CHR ''.'' # acc else acc, v)"
| "fmtFrac (Suc prec) v print acc =
     (let digit = v mod 10; print' = (print \<or> digit \<noteq> 0) in
      fmtFrac prec (v div 10) print' (if print' then digitChar digit # acc else acc))"

definition fmtInt :: "int \<Rightarrow> string" where
  "fmtInt v = itoa_nat (nat v)"

definition microUnit :: string where
  "microUnit = [CHR 0xC2, CHR 0xB5]"

definition subSecondString :: "int \<Rightarrow> nat \<Rightarrow> string \<Rightarrow> string" where
  "subSecondString u prec unit = (let (frac, v) = fmtFrac prec u False [] in fmtInt v @ frac @ unit @ ''s'')"

definition hmsString :: "int \<Rightarrow> string" where
  "hmsString u =
     (let (frac, secs) = fmtFrac 9 u False []; mins = secs div 60; hours = mins div 60 in
      (if mins > 0 then (if hours > 0 then fmtInt hours @ ''h'' else []) @ fmtInt (mins mod 60) @ ''m'' else []) @
      fmtInt (secs mod 60) @ frac @ ''s'')"

definition magnitudeString :: "int \<Rightarrow> string" where
  "magnitudeString u =
     (if u = 0 then ''0s''
      else if u < 1000 then subSecondString u 0 ''n''
      else if u < 1000000 then subSecondString u 3 microUnit
      else if u < 1000000000 then subSecondString u 6 ''m''
      else hmsString u)"

definition DurationString :: "duration \<Rightarrow> string" where
  "DurationString d = (if d < 0 then ''-'' else []) @ magnitudeString \<bar>d\<bar>"

section \<open>ParseDuration\<close>

definition isDigit :: "char \<Rightarrow> bool" where
  "isDigit c \<longleftrightarrow> 48 \<le> byteval c \<and> byteval c \<le> 57"

definition digitVal :: "char \<Rightarrow> int" where
  "digitVal c = byteval c - 48"

fun leadingInt :: "int \<Rightarrow> string \<Rightarrow> (int \<times> string) option" where
  "leadingInt x [] = Some (x, [])"
| "leadingInt x (c # s) =
     (if isDigit c then
        if x > 2 ^ 63 div 10 then None
        else let x' = x * 10 + digitVal c in if x' > 2 ^ 63 then None else leadingInt x' s
      else Some (x, c # s))"

fun leadingFraction :: "bool \<Rightarrow> int \<Rightarrow> int \<Rightarrow> string \<Rightarrow> int \<times> int \<times> string" where
  "leadingFraction overflow x scale [] = (x, scale, [])"
| "leadingFraction overflow x scale (c # s) =
     (if \<not> isDigit c then (x, scale, c # s)
      else if overflow then leadingFraction True x scale s
      else if x > (2 ^ 63 - 1) div 10 then leadingFraction True x scale s
      else let y = x * 10 + digitVal c in
        if y > 2 ^ 63 then leadingFraction True x scale s
        else leadingFraction False y (scale * 10) s)"

definition unitMap :: "string \<Rightarrow> int option" where
  "unitMap u = map_of [(''ns'', 1), (''us'', 1000), (microUnit @ ''s'', 1000),
     ([CHR 0xCE, CHR 0xBC] @ ''s'', 1000), (''ms'', 1000000), (''s'', 1000000000),
     (''m'', 60 * 1000000000), (''h'', 3600 * 1000000000)] u"

definition numeric :: "char \<Rightarrow> bool" where
  "numeric c \<longleftrightarrow> c = CHR ''.'' \<or> isDigit c"

text \<open>One term of the loop: a number and its unit; the value in nanoseconds and what is left.\<close>

definition parseFraction :: "string \<Rightarrow> int \<times> int \<times> string \<times> bool" where
  "parseFraction s =
     (case s of
        c # t \<Rightarrow>
          if c = CHR ''.'' then
            let (f, scale, t') = leadingFraction False 0 1 t in (f, scale, t', length t \<noteq> length t')
          else (0, 1, s, False)
      | [] \<Rightarrow> (0, 1, s, False))"

definition parseTerm :: "string \<Rightarrow> (int \<times> string) option" where
  "parseTerm s =
     (if \<not> numeric (hd s) then None
      else case leadingInt 0 s of
        None \<Rightarrow> None
      | Some (v, s1) \<Rightarrow>
          let pre = (length s \<noteq> length s1); (f, scale, s2, post) = parseFraction s1 in
          if \<not> pre \<and> \<not> post then None
          else let u = takeWhile (\<lambda>c. \<not> numeric c) s2; s3 = dropWhile (\<lambda>c. \<not> numeric c) s2 in
            if length u = 0 then None
            else case unitMap u of
              None \<Rightarrow> None
            | Some unit \<Rightarrow>
                if v > 2 ^ 63 div unit then None
                else if f > 0 then
                  let v' = v * unit + f * unit div scale in
                  if v' > 2 ^ 63 then None else Some (v', s3)
                else Some (v * unit, s3))"

lemma leadingInt_shortens: "leadingInt x s = Some (v, s') \<Longrightarrow> length s' \<le> length s"
  by (induction x s rule: leadingInt.induct) (auto simp: Let_def split: if_splits)

lemma leadingFraction_shortens: "leadingFraction ov x sc s = (f, sc', s') \<Longrightarrow> length s' \<le> length s"
  by (induction ov x sc s rule: leadingFraction.induct) (auto simp: Let_def split: if_splits)

lemma parseFraction_shortens: "parseFraction s = (f, sc, s', p) \<Longrightarrow> length s' \<le> length s"
  by (auto simp: parseFraction_def Let_def split: list.splits if_splits prod.splits
      dest!: leadingFraction_shortens)

lemma dropWhile_shortens: "takeWhile P s \<noteq> [] \<Longrightarrow> length (dropWhile P s) < length s"
  by (metis length_append length_greater_0_conv less_add_same_cancel2 takeWhile_dropWhile_id)

lemma parseTerm_shortens: "parseTerm s = Some (v, s') \<Longrightarrow> length s' < length s"
  by (auto simp: parseTerm_def Let_def split: if_splits option.splits prod.splits
      dest!: leadingInt_shortens parseFraction_shortens dropWhile_shortens)

function parseTerms :: "int \<Rightarrow> string \<Rightarrow> int option" where
  "parseTerms d s =
     (if s = [] then Some d
      else case parseTerm s of
        None \<Rightarrow> None
      | Some (v, s') \<Rightarrow>
          let d' = (d + v) mod 2 ^ 64 in if d' > 2 ^ 63 then None else parseTerms d' s')"
  by pat_completeness auto
termination
  by (relation "measure (length \<circ> snd)") (auto dest: parseTerm_shortens)

declare parseTerms.simps [simp del]

definition ParseDuration :: "string \<Rightarrow> duration option" where
  "ParseDuration str =
     (let signed = (str \<noteq> [] \<and> (hd str = CHR ''-'' \<or> hd str = CHR ''+''));
          neg = (str \<noteq> [] \<and> hd str = CHR ''-'');
          s = (if signed then tl str else str) in
      if s = ''0'' then Some 0
      else if s = [] then None
      else case parseTerms 0 s of
        None \<Rightarrow> None
      | Some d \<Rightarrow>
          if neg then Some (wrap64 (- d))
          else if d > 2 ^ 63 - 1 then None
          else Some d)"

section \<open>Decimal digits\<close>

fun digitsVal :: "int \<Rightarrow> string \<Rightarrow> int" where
  "digitsVal x [] = x"
| "digitsVal x (c # s) = digitsVal (x * 10 + digitVal c) s"

lemma digitsVal_append [simp]: "digitsVal x (s @ t) = digitsVal (digitsVal x s) t"
  by (induction x s rule: digitsVal.induct) simp_all

lemma digitChar_digit:
  assumes "0 \<le> i" and "i < 10"
  shows "isDigit (digitChar i)" and "digitVal (digitChar i) = i"
proof -
  have "byteval (digitChar i) = int (of_char (digitChar i))" by (simp add: byteval_def of_nat_of_char)
  then have "byteval (digitChar i) = 48 + i" using assms by (simp add: digitChar_def)
  then show "isDigit (digitChar i)" "digitVal (digitChar i) = i"
    using assms by (simp_all add: isDigit_def digitVal_def)
qed

lemma digitsVal_ge:
  assumes "list_all isDigit s" and "0 \<le> x"
  shows "x \<le> digitsVal x s"
  using assms
proof (induction x s rule: digitsVal.induct)
  case (2 x c s)
  then have "x * 10 + digitVal c \<le> digitsVal (x * 10 + digitVal c) s" "0 \<le> digitVal c"
    by (auto simp: isDigit_def digitVal_def)
  with 2 show ?case by simp
qed simp

lemma itoa_nat_digits: "list_all isDigit (itoa_nat n) \<and> digitsVal 0 (itoa_nat n) = int n \<and> itoa_nat n \<noteq> []"
proof (induction n rule: itoa_nat.induct)
  case (1 n)
  have d: "char_of (48 + n mod 10) = digitChar (int (n mod 10))" by (simp add: digitChar_def)
  show ?case
  proof (cases "n < 10")
    case True
    with d digitChar_digit [of "int n"] show ?thesis by (simp add: itoa_nat.simps [of n])
  next
    case False
    then have split: "itoa_nat n = itoa_nat (n div 10) @ [digitChar (int (n mod 10))]"
      using d by (simp add: itoa_nat.simps [of n])
    have "int (n div 10) * 10 + int (n mod 10) = int n" by presburger
    with 1 False digitChar_digit [of "int (n mod 10)"] show ?thesis unfolding split by simp
  qed
qed

lemma fmtInt_digits:
  assumes "0 \<le> v"
  shows "list_all isDigit (fmtInt v)" "digitsVal 0 (fmtInt v) = v" "fmtInt v \<noteq> []"
  using itoa_nat_digits [of "nat v"] assms by (simp_all add: fmtInt_def)

text \<open>The \<open>n\<close> last decimal digits.\<close>

fun fixedDigits :: "nat \<Rightarrow> int \<Rightarrow> string" where
  "fixedDigits 0 v = []"
| "fixedDigits (Suc n) v = fixedDigits n (v div 10) @ [digitChar (v mod 10)]"

lemma mod_power_Suc: "(v :: int) mod 10 ^ Suc n = (v div 10) mod 10 ^ n * 10 + v mod 10"
  by (simp add: zmod_zmult2_eq)

lemma fixedDigits_val:
  "list_all isDigit (fixedDigits n v) \<and> length (fixedDigits n v) = n \<and>
   digitsVal x (fixedDigits n v) = x * 10 ^ n + v mod 10 ^ n"
proof (induction n arbitrary: v)
  case (Suc n)
  with digitChar_digit [of "v mod 10"] show ?case
    by (simp add: mod_power_Suc algebra_simps del: power_Suc) simp
qed simp

lemma fmtFrac_printing: "fmtFrac n v True acc = (CHR ''.'' # fixedDigits n v @ acc, v div 10 ^ n)"
  by (induction n arbitrary: v acc) (simp_all add: Let_def zdiv_zmult2_eq)

text \<open>What \<open>fmtFrac\<close> prints: nothing if the last digits are zeros, else the digits above the trailing zeros.\<close>

lemma fmtFrac_cases:
  "fmtFrac n v False [] = ([], v div 10 ^ n) \<and> v mod 10 ^ n = 0 \<or>
   (\<exists>k j w. n = k + j \<and> 0 < k \<and> fmtFrac n v False [] = (CHR ''.'' # fixedDigits k w, v div 10 ^ n) \<and>
          v mod 10 ^ n = w mod 10 ^ k * 10 ^ j \<and> 0 < w mod 10 ^ k)"
proof (induction n arbitrary: v)
  case (Suc n)
  show ?case
  proof (cases "v mod 10 = 0")
    case True
    have step: "fmtFrac (Suc n) v False [] = fmtFrac n (v div 10) False []" using True by (simp add: Let_def)
    have dv: "v div 10 div 10 ^ n = v div 10 ^ Suc n" by (simp add: zdiv_zmult2_eq)
    have md: "v mod 10 ^ Suc n = (v div 10) mod 10 ^ n * 10" using True mod_power_Suc [of v n] by simp
    from Suc [of "v div 10"] show ?thesis
    proof (elim disjE conjE exE, goal_cases)
      case 1
      then show ?case using step dv md by simp
    next
      case (2 k j w)
      then show ?case using step dv md
        by (intro disjI2 exI [of _ k] exI [of _ "Suc j"] exI [of _ w]) simp
    qed
  next
    case False
    then have "fmtFrac (Suc n) v False [] = (CHR ''.'' # fixedDigits (Suc n) v, v div 10 ^ Suc n)"
      by (simp add: Let_def fmtFrac_printing zdiv_zmult2_eq)
    moreover have "0 < v mod 10 ^ Suc n"
    proof -
      have "0 \<le> (v div 10) mod 10 ^ n * 10" "0 \<le> v mod 10" by simp_all
      with False show ?thesis unfolding mod_power_Suc by linarith
    qed
    ultimately show ?thesis by (intro disjI2 exI [of _ "Suc n"] exI [of _ 0] exI [of _ v]) simp
  qed
qed simp

section \<open>The round trip\<close>

definition nonDigitStart :: "string \<Rightarrow> bool" where
  "nonDigitStart s \<longleftrightarrow> s = [] \<or> \<not> isDigit (hd s)"

lemma leadingInt_digits:
  assumes "list_all isDigit ds" and "0 \<le> x" and "digitsVal x ds \<le> 2 ^ 63" and "nonDigitStart rest"
  shows "leadingInt x (ds @ rest) = Some (digitsVal x ds, rest)"
  using assms
proof (induction x ds rule: digitsVal.induct)
  case (1 x)
  then show ?case by (cases rest) (auto simp: nonDigitStart_def)
next
  case (2 x c s)
  then have "0 \<le> digitVal c" by (simp add: isDigit_def digitVal_def)
  moreover from this 2 have "x * 10 + digitVal c \<le> 2 ^ 63"
    using digitsVal_ge [of s "x * 10 + digitVal c"] by simp
  ultimately show ?case using 2 by (simp add: Let_def)
qed

lemma leadingFraction_digits:
  assumes "list_all isDigit ds" and "0 \<le> x" and "digitsVal x ds < 2 ^ 62" and "nonDigitStart rest"
  shows "leadingFraction False x sc (ds @ rest) = (digitsVal x ds, sc * 10 ^ length ds, rest)"
  using assms
proof (induction x ds arbitrary: sc rule: digitsVal.induct)
  case (1 x)
  then show ?case by (cases rest) (auto simp: nonDigitStart_def)
next
  case (2 x c s)
  then have "0 \<le> digitVal c" by (simp add: isDigit_def digitVal_def)
  moreover from this 2 have "x * 10 + digitVal c < 2 ^ 62"
    using digitsVal_ge [of s "x * 10 + digitVal c"] by simp
  ultimately show ?case using 2 by (simp add: Let_def)
qed

text \<open>A unit as it stands in a printed duration: not empty, no digit, no point; and what may follow it.\<close>

definition unitText :: "string \<Rightarrow> int \<Rightarrow> bool" where
  "unitText u unit \<longleftrightarrow> u \<noteq> [] \<and> list_all (\<lambda>c. \<not> numeric c) u \<and> unitMap u = Some unit \<and> 0 < unit"

definition numericStart :: "string \<Rightarrow> bool" where
  "numericStart s \<longleftrightarrow> s = [] \<or> numeric (hd s)"

lemma unitText_start: "unitText u unit \<Longrightarrow> nonDigitStart (u @ rest)"
  by (cases u) (auto simp: unitText_def nonDigitStart_def numeric_def)

lemma unit_split:
  assumes "unitText u unit" and "numericStart rest"
  shows "takeWhile (\<lambda>c. \<not> numeric c) (u @ rest) = u" "dropWhile (\<lambda>c. \<not> numeric c) (u @ rest) = rest"
  using assms by (cases rest; auto simp: unitText_def numericStart_def list_all_iff takeWhile_append dropWhile_append)+

lemma parseFraction_none: "unitText u unit \<Longrightarrow> parseFraction (u @ rest) = (0, 1, u @ rest, False)"
  by (cases u) (auto simp: unitText_def parseFraction_def numeric_def)

lemma parseFraction_digits:
  assumes "0 < k" and "k \<le> 9" and "unitText u unit"
  shows "parseFraction (CHR ''.'' # fixedDigits k w @ u @ rest) = (w mod 10 ^ k, 10 ^ k, u @ rest, True)"
proof -
  have "w mod 10 ^ k < 10 ^ k" by simp
  also have "(10 :: int) ^ k \<le> 10 ^ 9" using assms(2) by (intro power_increasing) simp_all
  also have "(10 :: int) ^ 9 < 2 ^ 62" by simp
  finally have "digitsVal 0 (fixedDigits k w) < 2 ^ 62" using fixedDigits_val [of k w 0] by simp
  then have "leadingFraction False 0 1 (fixedDigits k w @ u @ rest) = (w mod 10 ^ k, 10 ^ k, u @ rest)"
    using leadingFraction_digits [of "fixedDigits k w" 0 "u @ rest" 1] fixedDigits_val [of k w 0]
      unitText_start [OF assms(3)] by simp
  then show ?thesis using assms(1) fixedDigits_val [of k w 0] by (simp add: parseFraction_def)
qed

lemma div_bound:
  assumes "0 < (unit :: int)" and "v * unit \<le> b"
  shows "v \<le> b div unit"
  using zdiv_mono1 [OF assms(2,1)] assms(1) by simp

text \<open>One printed term reads back as its value.\<close>

lemma parseTerm_printed:
  assumes "0 \<le> v" and "prec \<le> 9" and "v * 10 ^ prec + t mod 10 ^ prec \<le> 2 ^ 63"
    and "unitText u (10 ^ prec)" and "numericStart rest"
  shows "parseTerm (fmtInt v @ fst (fmtFrac prec t False []) @ u @ rest) = Some (v * 10 ^ prec + t mod 10 ^ prec, rest)"
proof -
  note ints = fmtInt_digits [OF assms(1)]
  let ?frac = "fst (fmtFrac prec t False [])"
  have pos: "(0 :: int) \<le> t mod 10 ^ prec" by simp
  have "v * 1 \<le> v * 10 ^ prec" using assms(1) by (intro mult_left_mono) simp_all
  then have le: "v * 10 ^ prec \<le> 2 ^ 63" "v \<le> 2 ^ 63" using assms(3) pos by linarith+
  have vdiv: "\<not> v > 2 ^ 63 div 10 ^ prec" using div_bound [OF _ le(1)] by simp
  have hd_num: "numeric (hd (fmtInt v @ ?frac @ u @ rest))"
    using ints by (cases "fmtInt v") (auto simp: numeric_def)
  have start: "nonDigitStart (?frac @ u @ rest)"
    using fmtFrac_cases [of prec t] unitText_start [OF assms(4), of rest]
    by (auto simp: nonDigitStart_def isDigit_def byteval_def)
  have lead: "leadingInt 0 (fmtInt v @ ?frac @ u @ rest) = Some (v, ?frac @ u @ rest)"
    using leadingInt_digits [OF ints(1) _ _ start] ints(2) le by simp
  note units = unit_split [OF assms(4,5)]
  note common = hd_num lead vdiv ints(3) units
  from fmtFrac_cases [of prec t] show ?thesis
  proof (elim disjE conjE exE, goal_cases)
    case 1
    with common parseFraction_none [OF assms(4), of rest] assms(4) show ?case
      by (simp add: parseTerm_def unitText_def Let_def)
  next
    case (2 k j w)
    then have frac: "?frac = CHR ''.'' # fixedDigits k w" by simp
    have "parseFraction (?frac @ u @ rest) = (w mod 10 ^ k, 10 ^ k, u @ rest, True)"
      unfolding frac using parseFraction_digits [OF _ _ assms(4)] 2 assms(2) by simp
    moreover have "w mod 10 ^ k * 10 ^ prec div 10 ^ k = t mod 10 ^ prec"
      using 2 by (simp add: power_add)
    ultimately show ?case using common 2 assms(3,4) by (simp add: parseTerm_def unitText_def Let_def)
  qed
qed

lemma parseTerm_integer:
  assumes "0 \<le> v" and "v * unit \<le> 2 ^ 63" and "unitText u unit" and "numericStart rest"
  shows "parseTerm (fmtInt v @ u @ rest) = Some (v * unit, rest)"
proof -
  note ints = fmtInt_digits [OF assms(1)]
  have unit: "0 < unit" using assms(3) by (simp add: unitText_def)
  then have "v * 1 \<le> v * unit" using assms(1) by (intro mult_left_mono) simp_all
  then have "v \<le> 2 ^ 63" using assms(2) by simp
  then have lead: "leadingInt 0 (fmtInt v @ u @ rest) = Some (v, u @ rest)"
    using leadingInt_digits [OF ints(1) _ _ unitText_start [OF assms(3)]] ints(2) by simp
  have vdiv: "\<not> v > 2 ^ 63 div unit" using div_bound [OF unit assms(2)] by simp
  have "numeric (hd (fmtInt v @ u @ rest))" using ints by (cases "fmtInt v") (auto simp: numeric_def)
  with lead vdiv ints(3) unit_split [OF assms(3,4)] parseFraction_none [OF assms(3)] assms(3) show ?thesis
    by (simp add: parseTerm_def unitText_def Let_def)
qed

lemma unit_texts:
  "unitText ''ns'' 1" "unitText (microUnit @ ''s'') 1000" "unitText ''ms'' 1000000"
  "unitText ''s'' 1000000000" "unitText ''m'' (60 * 1000000000)" "unitText ''h'' (3600 * 1000000000)"
  by (simp_all add: unitText_def unitMap_def microUnit_def numeric_def isDigit_def byteval_def)

lemma parseTerms_step:
  assumes "parseTerm s = Some (v, s')" and "0 \<le> d" and "0 \<le> v" and "d + v \<le> 2 ^ 63"
  shows "parseTerms d s = parseTerms (d + v) s'"
proof -
  have "s \<noteq> []" using parseTerm_shortens [OF assms(1)] by auto
  then show ?thesis using assms by (simp add: parseTerms.simps [of d s])
qed

lemma snd_fmtFrac: "snd (fmtFrac n v False []) = v div 10 ^ n"
  using fmtFrac_cases [of n v] by auto

lemma numericStart_fmtInt: "0 \<le> v \<Longrightarrow> numericStart (fmtInt v @ rest)"
  using fmtInt_digits [of v] by (cases "fmtInt v") (auto simp: numericStart_def numeric_def)

lemma parse_subSecond:
  assumes "0 < u" and "u \<le> 2 ^ 63" and "prec \<le> 9" and "unitText (unit @ ''s'') (10 ^ prec)"
  shows "parseTerms 0 (subSecondString u prec unit) = Some u"
proof -
  have str: "subSecondString u prec unit =
      fmtInt (u div 10 ^ prec) @ fst (fmtFrac prec u False []) @ (unit @ ''s'') @ []"
    by (simp add: subSecondString_def snd_fmtFrac case_prod_beta)
  have "parseTerm (subSecondString u prec unit) = Some (u, [])"
    unfolding str using assms by (subst parseTerm_printed) (simp_all add: numericStart_def pos_imp_zdiv_nonneg_iff div_mult_mod_eq)
  from parseTerms_step [OF this, of 0] assms show ?thesis by (simp add: parseTerms.simps [of u])
qed

lemma parse_hms:
  assumes "1000000000 \<le> u" and "u \<le> 2 ^ 63"
  shows "parseTerms 0 (hmsString u) = Some u"
proof -
  define secs where "secs = u div 1000000000"
  define frac where "frac = fst (fmtFrac 9 u False [])"
  define secText where "secText = fmtInt (secs mod 60) @ frac @ ''s'' @ []"
  define minText where "minText = fmtInt (secs div 60 mod 60) @ ''m'' @ secText"
  define hourText where "hourText = fmtInt (secs div 60 div 60) @ ''h'' @ minText"
  have bounds: "0 < secs" "secs * 1000000000 + u mod 1000000000 = u" "0 \<le> u mod 1000000000" "u mod 1000000000 < 1000000000"
    using assms by (simp_all add: secs_def)
  have str: "hmsString u = (if secs div 60 > 0 then (if secs div 60 div 60 > 0 then hourText else minText) else secText)"
    using snd_fmtFrac [of 9 u]
    by (simp add: hmsString_def case_prod_beta Let_def secs_def frac_def secText_def minText_def hourText_def)
  define sv where "sv = secs mod 60 * 1000000000 + u mod 1000000000"
  define mv where "mv = secs div 60 mod 60 * (60 * 1000000000)"
  define hv where "hv = secs div 60 div 60 * (3600 * 1000000000)"
  have sum: "hv + mv + sv = u"
  proof -
    have "secs = secs div 60 div 60 * 3600 + secs div 60 mod 60 * 60 + secs mod 60" by presburger
    with bounds(2) show ?thesis unfolding hv_def mv_def sv_def by linarith
  qed
  have nonneg: "0 \<le> hv" "0 \<le> mv" "0 \<le> sv" using bounds by (simp_all add: hv_def mv_def sv_def)
  have s: "parseTerm secText = Some (sv, [])"
    unfolding secText_def frac_def sv_def using parseTerm_printed [of "secs mod 60" 9 u "''s''" "[]"]
      unit_texts(4) assms nonneg sum by (simp add: numericStart_def sv_def)
  have m: "parseTerm minText = Some (mv, secText)"
    unfolding minText_def mv_def using nonneg sum assms
    by (intro parseTerm_integer unit_texts) (simp_all add: secText_def numericStart_fmtInt mv_def)
  have h: "parseTerm hourText = Some (hv, minText)"
    unfolding hourText_def hv_def using nonneg sum assms bounds
    by (intro parseTerm_integer unit_texts) (simp_all add: minText_def numericStart_fmtInt hv_def pos_imp_zdiv_nonneg_iff)
  have ps: "parseTerms d secText = Some (d + sv)" if "0 \<le> d" "d + sv \<le> 2 ^ 63" for d
    using parseTerms_step [OF s, of d] that nonneg by (simp add: parseTerms.simps [of "d + sv"])
  have pm: "parseTerms d minText = Some (d + mv + sv)" if "0 \<le> d" "d + mv + sv \<le> 2 ^ 63" for d
    using parseTerms_step [OF m, of d] ps [of "d + mv"] that nonneg by simp
  have ph: "parseTerms 0 hourText = Some u"
    using parseTerms_step [OF h, of 0] pm [of hv] nonneg sum assms by simp
  have "hv = 0" if "\<not> secs div 60 div 60 > 0" using that bounds(1) nonneg(1) by (auto simp: hv_def)
  moreover have "mv = 0 \<and> hv = 0" if "\<not> secs div 60 > 0"
    using that bounds(1) by (auto simp: mv_def hv_def)
  ultimately show ?thesis
    unfolding str using ph pm [of 0] ps [of 0] nonneg sum assms by auto
qed

lemma parse_magnitude:
  assumes "0 \<le> u" and "u \<le> 2 ^ 63"
  shows "parseTerms 0 (magnitudeString u) = Some u"
proof (cases "u = 0")
  case True
  have "parseTerm ''0s'' = Some (0, [])"
    by (simp add: parseTerm_def parseFraction_def unitMap_def numeric_def isDigit_def digitVal_def byteval_def Let_def
        microUnit_def)
  then show ?thesis using True parseTerms_step [of "''0s''" 0 "[]" 0]
    by (simp add: magnitudeString_def parseTerms.simps [of 0 "[]"])
next
  case False
  then show ?thesis
    using assms unit_texts parse_subSecond [of u 0 "''n''"] parse_subSecond [of u 3 microUnit]
      parse_subSecond [of u 6 "''m''"] parse_hms [of u]
    by (simp add: magnitudeString_def)
qed

lemma parseTerms_text:
  assumes "parseTerms 0 s = Some v" and "s \<noteq> []"
  shows "s \<noteq> ''0''" "hd s \<noteq> CHR ''-''" "hd s \<noteq> CHR ''+''"
proof -
  have some: "parseTerm s \<noteq> None" using assms by (auto simp: parseTerms.simps [of 0 s] split: option.splits)
  then have "numeric (hd s)" by (auto simp: parseTerm_def split: if_splits)
  then show "hd s \<noteq> CHR ''-''" "hd s \<noteq> CHR ''+''" by (auto simp: numeric_def isDigit_def byteval_def)
  show "s \<noteq> ''0''"
  proof
    assume "s = ''0''"
    with some show False
      by (simp add: parseTerm_def parseFraction_def numeric_def isDigit_def digitVal_def byteval_def Let_def)
  qed
qed

lemma duration_roundtrip:
  assumes "in_int64 d"
  shows "ParseDuration (DurationString d) = Some d"
proof -
  let ?s = "magnitudeString \<bar>d\<bar>"
  have bound: "\<bar>d\<bar> \<le> 2 ^ 63" using assms by (auto simp: in_int64_def)
  then have parse: "parseTerms 0 ?s = Some \<bar>d\<bar>" using parse_magnitude by simp
  have ne: "?s \<noteq> []"
  proof
    assume "?s = []"
    with parse have "d = 0" by (simp add: parseTerms.simps [of 0 "[]"])
    with \<open>?s = []\<close> show False by (simp add: magnitudeString_def)
  qed
  note texts = parseTerms_text [OF parse ne]
  show ?thesis
  proof (cases "d < 0")
    case True
    then have "wrap64 (- \<bar>d\<bar>) = d" using assms by simp
    with True parse ne texts show ?thesis by (simp add: ParseDuration_def DurationString_def)
  next
    case False
    then have "\<bar>d\<bar> \<le> 2 ^ 63 - 1" using assms by (simp add: in_int64_def)
    with False parse ne texts show ?thesis by (simp add: ParseDuration_def DurationString_def)
  qed
qed

end
