(* ===== verification/Go_Flag.thy ===== *)
theory Go_Flag
  imports Go_Time
begin

text \<open>
  The parts of packages \<open>strconv\<close> and \<open>flag\<close> with which both subcommands read their command line:
  \<open>strconv.ParseInt\<close> in base 0 (prefixes and underscores included) and a \<open>flag.FlagSet\<close> of string,
  int, duration and repeated flags. A flag set is the map of its flags' current values; parsing
  stops at the first argument that is no flag, as the package documents.
\<close>

section \<open>strconv.ParseInt(s, 0, 64)\<close>

text \<open>\<open>lower(c)\<close>, which sets bit 5 of a byte.\<close>

definition lowerByte :: "char \<Rightarrow> int" where
  "lowerByte c = (if byteval c div 32 mod 2 = 1 then byteval c else byteval c + 32)"

definition digitIn :: "char \<Rightarrow> int option" where
  "digitIn c =
     (if isDigit c then Some (digitVal c)
      else if 97 \<le> lowerByte c \<and> lowerByte c \<le> 122 then Some (lowerByte c - 87)
      else None)"

fun parseDigits :: "int \<Rightarrow> int \<Rightarrow> string \<Rightarrow> int option" where
  "parseDigits base n [] = Some n"
| "parseDigits base n (c # s) =
     (if c = CHR ''_'' then parseDigits base n s
      else case digitIn c of
        None \<Rightarrow> None
      | Some d \<Rightarrow>
          if d \<ge> base \<or> n * base + d \<ge> 2 ^ 64 then None else parseDigits base (n * base + d) s)"

definition baseOf :: "string \<Rightarrow> int \<times> string" where
  "baseOf s =
     (if hd s = CHR ''0'' then
        if length s \<ge> 3 \<and> lowerByte (s ! 1) = 98 then (2, drop 2 s)
        else if length s \<ge> 3 \<and> lowerByte (s ! 1) = 111 then (8, drop 2 s)
        else if length s \<ge> 3 \<and> lowerByte (s ! 1) = 120 then (16, drop 2 s)
        else (8, drop 1 s)
      else (10, s))"

datatype sawChar = SawStart | SawDigit | SawUnderscore | SawOther

fun underscoreLoop :: "bool \<Rightarrow> sawChar \<Rightarrow> string \<Rightarrow> bool" where
  "underscoreLoop hex saw [] \<longleftrightarrow> saw \<noteq> SawUnderscore"
| "underscoreLoop hex saw (c # s) \<longleftrightarrow>
     (if isDigit c \<or> hex \<and> 97 \<le> lowerByte c \<and> lowerByte c \<le> 102 then underscoreLoop hex SawDigit s
      else if c = CHR ''_'' then saw = SawDigit \<and> underscoreLoop hex SawUnderscore s
      else saw \<noteq> SawUnderscore \<and> underscoreLoop hex SawOther s)"

definition underscoreOK :: "string \<Rightarrow> bool" where
  "underscoreOK s \<longleftrightarrow>
     (if length s \<ge> 2 \<and> hd s = CHR ''0'' \<and> lowerByte (s ! 1) \<in> {98, 111, 120}
      then underscoreLoop (lowerByte (s ! 1) = 120) SawDigit (drop 2 s)
      else underscoreLoop False SawStart s)"

text \<open>Without the sign, as \<open>ParseUint\<close> gets it; an error is \<open>None\<close>.\<close>

definition ParseUint0 :: "string \<Rightarrow> int option" where
  "ParseUint0 s =
     (if s = [] then None
      else let (base, t) = baseOf s in
        case parseDigits base 0 t of
          None \<Rightarrow> None
        | Some n \<Rightarrow> if CHR ''_'' \<in> set t \<and> \<not> underscoreOK s then None else Some n)"

definition ParseInt0 :: "string \<Rightarrow> int option" where
  "ParseInt0 s =
     (if s = [] then None
      else let neg = (hd s = CHR ''-'');
               t = (if hd s = CHR ''+'' \<or> hd s = CHR ''-'' then tl s else s) in
        case ParseUint0 t of
          None \<Rightarrow> None
        | Some un \<Rightarrow>
            if \<not> neg \<and> un \<ge> 2 ^ 63 then None
            else if neg \<and> un > 2 ^ 63 then None
            else Some (if neg then - un else un))"

lemma parseDigits_decimal:
  assumes "list_all isDigit s" and "0 \<le> x" and "digitsVal x s < 2 ^ 64"
  shows "parseDigits 10 x s = Some (digitsVal x s)"
  using assms
proof (induction x s rule: digitsVal.induct)
  case (2 x c s)
  then have c: "isDigit c" "0 \<le> digitVal c" "digitVal c < 10" by (auto simp: isDigit_def digitVal_def)
  then have "c \<noteq> CHR ''_''" by (auto simp: isDigit_def byteval_def)
  moreover have "x * 10 + digitVal c < 2 ^ 64"
    using 2 c digitsVal_ge [of s "x * 10 + digitVal c"] by simp
  ultimately show ?case using 2 c by (simp add: digitIn_def)
qed simp

lemma itoa_nat_hd: "0 < n \<Longrightarrow> hd (itoa_nat n) \<noteq> CHR ''0''"
proof (induction n rule: itoa_nat.induct)
  case (1 n)
  show ?case
  proof (cases "n < 10")
    case True
    have "digitVal (digitChar (int n)) = int n" using True digitChar_digit [of "int n"] by simp
    then have "digitChar (int n) \<noteq> CHR ''0''" using 1 by (auto simp: digitVal_def byteval_def)
    with True show ?thesis by (simp add: itoa_nat.simps [of n] digitChar_def)
  next
    case False
    with 1 show ?thesis using itoa_nat_digits [of "n div 10"] by (simp add: itoa_nat.simps [of n] Let_def)
  qed
qed

lemma ParseUint0_itoa:
  assumes "int n < 2 ^ 64"
  shows "ParseUint0 (itoa_nat n) = Some (int n)"
proof (cases "n = 0")
  case True
  have "itoa_nat 0 = ''0''" by code_simp
  with True show ?thesis by (simp add: ParseUint0_def baseOf_def)
next
  case False
  note digits = itoa_nat_digits [of n]
  have "CHR ''_'' \<notin> set (itoa_nat n)" using digits by (auto simp: list_all_iff isDigit_def byteval_def)
  moreover have "parseDigits 10 0 (itoa_nat n) = Some (int n)"
    using parseDigits_decimal [of "itoa_nat n" 0] digits assms by simp
  ultimately show ?thesis using False digits itoa_nat_hd [of n] by (simp add: ParseUint0_def baseOf_def)
qed

lemma itoa_nat_hd_sign: "hd (itoa_nat n) \<noteq> CHR ''-''" "hd (itoa_nat n) \<noteq> CHR ''+''"
  using itoa_nat_digits [of n] by (cases "itoa_nat n"; auto simp: isDigit_def byteval_def)+

lemma ParseInt0_Itoa [simp]:
  assumes "in_int64 i"
  shows "ParseInt0 (Itoa i) = Some i"
proof -
  have b: "- (2 ^ 63) \<le> i" "i < 2 ^ 63" using assms by (auto simp: in_int64_def)
  then have n: "ParseUint0 (itoa_nat (nat \<bar>i\<bar>)) = Some \<bar>i\<bar>" using ParseUint0_itoa [of "nat \<bar>i\<bar>"] by auto
  show ?thesis
  proof (cases "i < 0")
    case True
    with n b show ?thesis by (simp add: ParseInt0_def Itoa_def)
  next
    case False
    with n b itoa_nat_hd_sign [of "nat i"] itoa_nat_digits [of "nat i"] show ?thesis
      by (simp add: ParseInt0_def Itoa_def)
  qed
qed

section \<open>flag.FlagSet\<close>

datatype flagVal = VString string | VInt int | VDuration duration | VStrings "string list"

type_synonym flagSet = "string \<Rightarrow> flagVal option"

datatype flagError = BadFlagSyntax string | FlagNotDefined string | HelpRequested
  | FlagNeedsArgument string | InvalidFlagValue string string

fun setFlag :: "flagVal \<Rightarrow> string \<Rightarrow> flagVal option" where
  "setFlag (VString _) v = Some (VString v)"
| "setFlag (VInt _) v = map_option VInt (ParseInt0 v)"
| "setFlag (VDuration _) v = map_option VDuration (ParseDuration v)"
| "setFlag (VStrings vs) v = Some (VStrings (vs @ [v]))"

text \<open>An argument without its dashes: the flag's name and the value after the first equals sign.\<close>

definition splitFlag :: "string \<Rightarrow> string \<times> string option" where
  "splitFlag s =
     (takeWhile (\<lambda>c. c \<noteq> CHR ''='') s,
      if CHR ''='' \<in> set s then Some (tl (dropWhile (\<lambda>c. c \<noteq> CHR ''='') s)) else None)"

definition assignFlag :: "flagSet \<Rightarrow> string \<Rightarrow> flagVal \<Rightarrow> string \<Rightarrow> flagError + flagSet" where
  "assignFlag fs name old v =
     (case setFlag old v of
        None \<Rightarrow> Inl (InvalidFlagValue v name)
      | Some new \<Rightarrow> Inr (fs(name \<mapsto> new)))"

fun parseFlags :: "flagSet \<Rightarrow> string list \<Rightarrow> flagError + flagSet" where
  "parseFlags fs [] = Inr fs"
| "parseFlags fs (s # args) =
     (if length s < 2 \<or> hd s \<noteq> CHR ''-'' then Inr fs
      else if s = ''--'' then Inr fs
      else let body = (if s ! 1 = CHR ''-'' then drop 2 s else drop 1 s) in
        if body = [] \<or> hd body = CHR ''-'' \<or> hd body = CHR ''='' then Inl (BadFlagSyntax s)
        else let (name, value) = splitFlag body in
          case fs name of
            None \<Rightarrow> Inl (if name = ''help'' \<or> name = ''h'' then HelpRequested else FlagNotDefined name)
          | Some old \<Rightarrow>
              (case value of
                 Some v \<Rightarrow>
                   (case assignFlag fs name old v of
                      Inl e \<Rightarrow> Inl e
                    | Inr fs' \<Rightarrow> parseFlags fs' args)
               | None \<Rightarrow>
                   (case args of
                      [] \<Rightarrow> Inl (FlagNeedsArgument name)
                    | v # args' \<Rightarrow>
                        (case assignFlag fs name old v of
                           Inl e \<Rightarrow> Inl e
                         | Inr fs' \<Rightarrow> parseFlags fs' args'))))"

text \<open>The form in which the controller renders every flag.\<close>

definition flagArg :: "string \<Rightarrow> string \<Rightarrow> string" where
  "flagArg name v = ''--'' @ name @ ''='' @ v"

definition flagName :: "string \<Rightarrow> bool" where
  "flagName n \<longleftrightarrow> n \<noteq> [] \<and> hd n \<noteq> CHR ''-'' \<and> CHR ''='' \<notin> set n"

lemma splitFlag_assignment: "flagName n \<Longrightarrow> splitFlag (n @ ''='' @ v) = (n, Some v)"
  unfolding splitFlag_def flagName_def
  by (auto simp: takeWhile_append dropWhile_append)

declare parseFlags.simps(2) [simp del]

lemma parseFlags_assignment:
  assumes "flagName n"
  shows "parseFlags fs (flagArg n v # args) =
    (case fs n of
       None \<Rightarrow> Inl (if n = ''help'' \<or> n = ''h'' then HelpRequested else FlagNotDefined n)
     | Some old \<Rightarrow>
         (case setFlag old v of
            None \<Rightarrow> Inl (InvalidFlagValue v n)
          | Some new \<Rightarrow> parseFlags (fs(n \<mapsto> new)) args))"
proof -
  define b where "b = n @ ''='' @ v"
  have "b \<noteq> []" "hd b \<noteq> CHR ''-''" "hd b \<noteq> CHR ''=''"
    using assms by (cases n; auto simp: flagName_def b_def)+
  moreover have "flagArg n v = CHR ''-'' # CHR ''-'' # b" by (simp add: flagArg_def b_def)
  moreover have "splitFlag b = (n, Some v)" unfolding b_def by (rule splitFlag_assignment [OF assms])
  ultimately show ?thesis by (simp add: parseFlags.simps(2) assignFlag_def split: option.split)
qed

lemma parseFlags_repeated:
  assumes "flagName n" and "fs n = Some (VStrings vs)"
  shows "parseFlags fs (map (flagArg n) ps @ args) = parseFlags (fs(n \<mapsto> VStrings (vs @ ps))) args"
  using assms(2)
proof (induction ps arbitrary: fs vs)
  case Nil
  then show ?case by (simp add: fun_upd_idem)
next
  case (Cons p ps)
  then have "parseFlags fs (map (flagArg n) (p # ps) @ args) =
      parseFlags (fs(n \<mapsto> VStrings (vs @ [p]))) (map (flagArg n) ps @ args)"
    using parseFlags_assignment [OF assms(1), of fs p] by simp
  also have "\<dots> = parseFlags (fs(n \<mapsto> VStrings (vs @ p # ps))) args"
    using Cons.IH [of "fs(n \<mapsto> VStrings (vs @ [p]))" "vs @ [p]"]
    by (simp only: fun_upd_same fun_upd_upd append_assoc append.simps simp_thms)
  finally show ?case .
qed

end
