(* ===== verification/Cmd_Router.thy ===== *)
theory Cmd_Router
  imports Go_Flag Router_Proxy Identity Api_Types
begin

text \<open>
  \<open>cmd/main.go\<close>: the subcommands and the router's startup contract, its flags.

  The file system and the process environment are parameters (\<open>readFile\<close>, \<open>getenv\<close>). What \<open>runRouter\<close>
  does after parsing is in \<open>Router_Process\<close>.
\<close>

section \<open>Subcommands\<close>

datatype command = UsageError | UnknownSubcommand string | RunController "string list"
  | RunRouter "string list" | PrintLine string

definition run :: "string list \<Rightarrow> command" where
  "run argv =
     (if length argv < 2 then UsageError
      else if argv ! 1 = ''controller'' then RunController (drop 2 argv)
      else if argv ! 1 = ''router'' then RunRouter (drop 2 argv)
      else if argv ! 1 = ''userkey'' then
        if length argv \<noteq> 5 then UsageError
        else PrintLine (UserKey (argv ! 2) (argv ! 3) (argv ! 4))
      else UnknownSubcommand (argv ! 1))"

section \<open>parseRouterFlags\<close>

definition routerFlagSet :: flagSet where
  "routerFlagSet =
     [''app'' \<mapsto> VString [], ''namespace'' \<mapsto> VString [], ''identity-header'' \<mapsto> VString [],
      ''identity-max-length'' \<mapsto> VInt 256, ''shared-path'' \<mapsto> VStrings [],
      ''caller-auth-header'' \<mapsto> VString [], ''caller-auth-scheme'' \<mapsto> VString [],
      ''caller-auth-secret-file'' \<mapsto> VString [], ''upstream-auth-header'' \<mapsto> VString [],
      ''upstream-auth-scheme'' \<mapsto> VString [], ''upstream-auth-secret-file'' \<mapsto> VString [],
      ''workspace-port'' \<mapsto> VInt 0, ''cold-start-hold'' \<mapsto> VDuration 0,
      ''connection-heartbeat'' \<mapsto> VDuration 0, ''max-workspaces'' \<mapsto> VInt 0,
      ''listen-addr'' \<mapsto> VString ('':'' @ Itoa RouterPort),
      ''metrics-addr'' \<mapsto> VString ('':'' @ Itoa MetricsPort)]"

definition strFlag :: "flagSet \<Rightarrow> string \<Rightarrow> string" where
  "strFlag fs n = (case fs n of Some (VString s) \<Rightarrow> s | _ \<Rightarrow> [])"
definition intFlag :: "flagSet \<Rightarrow> string \<Rightarrow> int" where
  "intFlag fs n = (case fs n of Some (VInt i) \<Rightarrow> i | _ \<Rightarrow> 0)"
definition durationFlag :: "flagSet \<Rightarrow> string \<Rightarrow> duration" where
  "durationFlag fs n = (case fs n of Some (VDuration d) \<Rightarrow> d | _ \<Rightarrow> 0)"
definition stringsFlag :: "flagSet \<Rightarrow> string \<Rightarrow> string list" where
  "stringsFlag fs n = (case fs n of Some (VStrings ss) \<Rightarrow> ss | _ \<Rightarrow> [])"

lemmas flag_readers = strFlag_def intFlag_def durationFlag_def stringsFlag_def

datatype 'e routerFlagError = FlagError flagError | AppNamespaceRequired | IdentityHeaderRequired
  | CallerAuthRequired | RelativeSharedPath string | CallerSecretUnreadable 'e
  | UpstreamSecretFileRequired | UpstreamSecretUnreadable 'e

definition baseConfig :: "(string \<Rightarrow> string) \<Rightarrow> flagSet \<Rightarrow> string \<Rightarrow> config" where
  "baseConfig getenv fs callerSecret =
     \<lparr>cfgApp = strFlag fs ''app'', cfgNamespace = strFlag fs ''namespace'',
      IdentityHeader = strFlag fs ''identity-header'',
      IdentityMaxLength = intFlag fs ''identity-max-length'',
      cfgSharedPaths = stringsFlag fs ''shared-path'',
      CallerAuthHeader = strFlag fs ''caller-auth-header'',
      CallerAuthScheme = strFlag fs ''caller-auth-scheme'', CallerAuthSecret = callerSecret,
      UpstreamAuthHeader = [], UpstreamAuthScheme = [], UpstreamAuthSecret = [],
      WorkspacePort = wrap32 (intFlag fs ''workspace-port''),
      ColdStartHold = durationFlag fs ''cold-start-hold'',
      cfgHeartbeatInterval = durationFlag fs ''connection-heartbeat'',
      cfgMaxWorkspaces = wrap32 (intFlag fs ''max-workspaces''), cfgPodName = getenv ''POD_NAME'',
      ListenAddr = strFlag fs ''listen-addr'', MetricsAddr = strFlag fs ''metrics-addr''\<rparr>"

definition routerConfig ::
    "(string \<Rightarrow> 'e + string) \<Rightarrow> (string \<Rightarrow> string) \<Rightarrow> flagSet \<Rightarrow> 'e routerFlagError + config" where
  "routerConfig readFile getenv fs =
     (if strFlag fs ''app'' = [] \<or> strFlag fs ''namespace'' = [] then Inl AppNamespaceRequired
      else if strFlag fs ''identity-header'' = [] then Inl IdentityHeaderRequired
      else if strFlag fs ''caller-auth-header'' = [] \<or> strFlag fs ''caller-auth-secret-file'' = []
        then Inl CallerAuthRequired
      else case find (\<lambda>p. \<not> HasPrefix p ''/'') (stringsFlag fs ''shared-path'') of
        Some p \<Rightarrow> Inl (RelativeSharedPath p)
      | None \<Rightarrow>
          (case ReadSecretFile readFile (strFlag fs ''caller-auth-secret-file'') of
             Inl e \<Rightarrow> Inl (CallerSecretUnreadable e)
           | Inr callerSecret \<Rightarrow>
               let cfg = baseConfig getenv fs callerSecret in
               if strFlag fs ''upstream-auth-header'' \<noteq> [] then
                 if strFlag fs ''upstream-auth-secret-file'' = [] then Inl UpstreamSecretFileRequired
                 else case ReadSecretFile readFile (strFlag fs ''upstream-auth-secret-file'') of
                   Inl e \<Rightarrow> Inl (UpstreamSecretUnreadable e)
                 | Inr upstreamSecret \<Rightarrow>
                     Inr (cfg\<lparr>UpstreamAuthHeader := strFlag fs ''upstream-auth-header'',
                             UpstreamAuthScheme := strFlag fs ''upstream-auth-scheme'',
                             UpstreamAuthSecret := upstreamSecret\<rparr>)
               else Inr cfg))"

definition parseRouterFlags ::
    "(string \<Rightarrow> 'e + string) \<Rightarrow> (string \<Rightarrow> string) \<Rightarrow> string list \<Rightarrow> 'e routerFlagError + config" where
  "parseRouterFlags readFile getenv args =
     (case parseFlags routerFlagSet args of
        Inl e \<Rightarrow> Inl (FlagError e)
      | Inr fs \<Rightarrow> routerConfig readFile getenv fs)"

section \<open>What every accepted configuration has\<close>

text \<open>A router never starts without an app, a namespace, an identity header and a caller-auth header, nor with
  a relative shared path.\<close>

lemma accepted_config:
  assumes "parseRouterFlags readFile getenv args = Inr cfg"
  shows "cfgApp cfg \<noteq> [] \<and> cfgNamespace cfg \<noteq> [] \<and> IdentityHeader cfg \<noteq> [] \<and> CallerAuthHeader cfg \<noteq> [] \<and>
    list_all (\<lambda>p. HasPrefix p ''/'') (cfgSharedPaths cfg) \<and>
    in_int32 (WorkspacePort cfg) \<and> in_int32 (cfgMaxWorkspaces cfg)"
  using assms
  by (auto simp: parseRouterFlags_def routerConfig_def baseConfig_def Let_def find_None_iff list_all_iff wrap32_range
      split: sum.splits if_splits option.splits)

end
