(* ===== verification/Render_Router.thy ===== *)
theory Render_Router
  imports Render Go_Time
begin

text \<open>
  The router Deployment of \<open>internal/controller/render.go\<close>: its command line is the router's whole
  configuration, its two volumes are the credentials.
\<close>

definition callerAuthMountPath :: string where
  "callerAuthMountPath = ''/etc/puc/caller-auth''"
definition upstreamAuthMountPath :: string where
  "upstreamAuthMountPath = ''/etc/puc/upstream-auth''"
definition secretItemPath :: string where
  "secretItemPath = ''value''"

definition secretRefVolume :: "string \<Rightarrow> secretHeaderRef \<Rightarrow> volume" where
  "secretRefVolume name ref =
     \<lparr>volName = name,
      volSource = zeroVolumeSource\<lparr>vsSecret := Some \<lparr>ssSecretName = shSecretName ref,
        ssItems = [(shSecretKey ref, secretItemPath)]\<rparr>\<rparr>\<rparr>"

definition routerArgs :: "perUserApp \<Rightarrow> string list" where
  "routerArgs app =
     (let sp = appSpec app; ca = spCallerAuth sp in
      [''router'', ''--app='' @ appName app, ''--namespace='' @ Namespace (appMeta app),
       ''--identity-header='' @ idHeader (spIdentity sp),
       ''--identity-max-length='' @ Itoa (idMaxLength (spIdentity sp)),
       ''--caller-auth-header='' @ shHeader ca] @
      (if shScheme ca \<noteq> [] then [''--caller-auth-scheme='' @ shScheme ca] else []) @
      [''--caller-auth-secret-file='' @ callerAuthMountPath @ ''/'' @ secretItemPath,
       ''--workspace-port='' @ Itoa (wtPort (spWorkspace sp)),
       ''--cold-start-hold='' @ DurationString (wrap64 (ColdStartHoldSeconds (spRouter sp) * second)),
       ''--connection-heartbeat='' @ DurationString (ConnectionHeartbeatInterval (spLifecycle sp)),
       ''--max-workspaces='' @ Itoa (MaxWorkspaces (spLimits sp)),
       ''--listen-addr=:'' @ Itoa RouterPort, ''--metrics-addr=:'' @ Itoa MetricsPort] @
      map (\<lambda>p. ''--shared-path='' @ p) (SharedPaths (spRouter sp)) @
      (case wtUpstreamAuth (spWorkspace sp) of
         None \<Rightarrow> []
       | Some ua \<Rightarrow>
           [''--upstream-auth-header='' @ shHeader ua] @
           (if shScheme ua \<noteq> [] then [''--upstream-auth-scheme='' @ shScheme ua] else []) @
           [''--upstream-auth-secret-file='' @ upstreamAuthMountPath @ ''/'' @ secretItemPath]))"

definition routerVolumes :: "perUserApp \<Rightarrow> volume list" where
  "routerVolumes app =
     secretRefVolume ''caller-auth'' (spCallerAuth (appSpec app)) #
     (case wtUpstreamAuth (spWorkspace (appSpec app)) of
        None \<Rightarrow> [] | Some ua \<Rightarrow> [secretRefVolume ''upstream-auth'' ua])"

definition routerMounts :: "perUserApp \<Rightarrow> volumeMount list" where
  "routerMounts app =
     \<lparr>vmName = ''caller-auth'', vmMountPath = callerAuthMountPath, vmReadOnly = True\<rparr> #
     (case wtUpstreamAuth (spWorkspace (appSpec app)) of
        None \<Rightarrow> []
      | Some ua \<Rightarrow> [\<lparr>vmName = ''upstream-auth'', vmMountPath = upstreamAuthMountPath, vmReadOnly = True\<rparr>])"

definition routerContainer :: "perUserApp \<Rightarrow> string \<Rightarrow> container" where
  "routerContainer app img =
     zeroContainer\<lparr>ctName := ''router'', ctImage := img, ctArgs := routerArgs app,
       ctEnv := [\<lparr>evName = ''POD_NAME'', evValue = [], evFieldPath = Some ''metadata.name''\<rparr>],
       ctPorts := [(''http'', RouterPort), (''metrics'', MetricsPort)],
       ctResources := rtResources (spRouter (appSpec app)), ctVolumeMounts := routerMounts app\<rparr>"

text \<open>\<open>None\<close> is the error of an unresolved image.\<close>

definition RenderRouterDeployment :: "perUserApp \<Rightarrow> string \<Rightarrow> deployment option" where
  "RenderRouterDeployment app routerImage =
     (let img = (if rtImage (spRouter (appSpec app)) = [] then routerImage else rtImage (spRouter (appSpec app)));
          labels = RouterPodLabels (appName app) in
      if img = [] then None
      else Some
        \<lparr>depMeta = zeroMeta\<lparr>Name := routerName app, Namespace := Namespace (appMeta app), Labels := labels,
           OwnerReferences := [appOwnerRef app]\<rparr>,
         depSpec =
           \<lparr>dsReplicas = Some (rtReplicas (spRouter (appSpec app))), dsSelector = labels, dsStrategy = [],
            dsTemplateLabels = labels,
            dsPodSpec =
              \<lparr>psServiceAccountName = routerServiceAccountName app, psAutomountServiceAccountToken = None,
               psSecurityContext = None, psInitContainers = [], psContainers = [routerContainer app img],
               psVolumes = routerVolumes app, psNodeSelector = [], psTolerations = [],
               psTerminationGracePeriodSeconds = None\<rparr>\<rparr>,
         depReadyReplicas = 0\<rparr>)"

end
