(* ===== verification/Startup.thy ===== *)
theory Startup
  imports Cmd_Router Render_Router Samples
begin

text \<open>
  From the app's spec to the running router: the command line the controller renders
  (\<open>internal/controller/render.go\<close>) is read back by the router's own flag parser (\<open>cmd/main.go\<close>) as the
  configuration the spec asks for, credentials included.

  What the kubelet does between the two is not code of the repository: it starts the container with
  the rendered arguments, projects the keys of the mounted Secrets to files, and resolves downward-API
  variables. The theorems take that as the named hypothesis \<open>podRuns\<close>.
\<close>

section \<open>The rendered command line is a list of assignments\<close>

lemma router_args_assignments:
  "routerArgs app =
     (let sp = appSpec app; ca = spCallerAuth sp in
      [''router'', flagArg ''app'' (appName app), flagArg ''namespace'' (Namespace (appMeta app)),
       flagArg ''identity-header'' (idHeader (spIdentity sp)),
       flagArg ''identity-max-length'' (Itoa (idMaxLength (spIdentity sp))),
       flagArg ''caller-auth-header'' (shHeader ca)] @
      (if shScheme ca \<noteq> [] then [flagArg ''caller-auth-scheme'' (shScheme ca)] else []) @
      [flagArg ''caller-auth-secret-file'' (callerAuthMountPath @ ''/'' @ secretItemPath),
       flagArg ''workspace-port'' (Itoa (wtPort (spWorkspace sp))),
       flagArg ''cold-start-hold'' (DurationString (wrap64 (ColdStartHoldSeconds (spRouter sp) * second))),
       flagArg ''connection-heartbeat'' (DurationString (ConnectionHeartbeatInterval (spLifecycle sp))),
       flagArg ''max-workspaces'' (Itoa (MaxWorkspaces (spLimits sp))),
       flagArg ''listen-addr'' ('':'' @ Itoa RouterPort), flagArg ''metrics-addr'' ('':'' @ Itoa MetricsPort)] @
      map (flagArg ''shared-path'') (SharedPaths (spRouter sp)) @
      (case wtUpstreamAuth (spWorkspace sp) of
         None \<Rightarrow> []
       | Some ua \<Rightarrow>
           [flagArg ''upstream-auth-header'' (shHeader ua)] @
           (if shScheme ua \<noteq> [] then [flagArg ''upstream-auth-scheme'' (shScheme ua)] else []) @
           [flagArg ''upstream-auth-secret-file'' (upstreamAuthMountPath @ ''/'' @ secretItemPath)]))"
  by (simp add: routerArgs_def Let_def flagArg_def split: option.split)

lemma flag_names [simp]:
  "flagName ''app''" "flagName ''namespace''" "flagName ''identity-header''" "flagName ''identity-max-length''"
  "flagName ''shared-path''" "flagName ''caller-auth-header''" "flagName ''caller-auth-scheme''"
  "flagName ''caller-auth-secret-file''" "flagName ''upstream-auth-header''" "flagName ''upstream-auth-scheme''"
  "flagName ''upstream-auth-secret-file''" "flagName ''workspace-port''" "flagName ''cold-start-hold''"
  "flagName ''connection-heartbeat''" "flagName ''max-workspaces''" "flagName ''listen-addr''"
  "flagName ''metrics-addr''"
  by (simp_all add: flagName_def)

text \<open>The flag set after the part of the command line that every app has.\<close>

definition commonFlags :: "perUserApp \<Rightarrow> flagSet" where
  "commonFlags app =
     (let sp = appSpec app; ca = spCallerAuth sp in
      routerFlagSet(''app'' \<mapsto> VString (appName app), ''namespace'' \<mapsto> VString (Namespace (appMeta app)),
        ''identity-header'' \<mapsto> VString (idHeader (spIdentity sp)),
        ''identity-max-length'' \<mapsto> VInt (idMaxLength (spIdentity sp)),
        ''caller-auth-header'' \<mapsto> VString (shHeader ca), ''caller-auth-scheme'' \<mapsto> VString (shScheme ca),
        ''caller-auth-secret-file'' \<mapsto> VString (callerAuthMountPath @ ''/'' @ secretItemPath),
        ''workspace-port'' \<mapsto> VInt (wtPort (spWorkspace sp)),
        ''cold-start-hold'' \<mapsto> VDuration (ColdStartHoldSeconds (spRouter sp) * second),
        ''connection-heartbeat'' \<mapsto> VDuration (ConnectionHeartbeatInterval (spLifecycle sp)),
        ''max-workspaces'' \<mapsto> VInt (MaxWorkspaces (spLimits sp)),
        ''listen-addr'' \<mapsto> VString ('':'' @ Itoa RouterPort), ''metrics-addr'' \<mapsto> VString ('':'' @ Itoa MetricsPort),
        ''shared-path'' \<mapsto> VStrings (SharedPaths (spRouter sp))))"

text \<open>The ranges the API server keeps the fields of a stored app in, by their Go types.\<close>

definition typedSpec :: "perUserApp \<Rightarrow> bool" where
  "typedSpec app \<longleftrightarrow>
     (let sp = appSpec app in
      in_int32 (idMaxLength (spIdentity sp)) \<and> in_int32 (wtPort (spWorkspace sp)) \<and>
      in_int32 (ColdStartHoldSeconds (spRouter sp)) \<and> in_int32 (MaxWorkspaces (spLimits sp)) \<and>
      in_int64 (ConnectionHeartbeatInterval (spLifecycle sp)))"

lemma int32_int64: "in_int32 i \<Longrightarrow> in_int64 i"
  by (simp add: in_int32_def in_int64_def)

lemma int32_seconds: "in_int32 i \<Longrightarrow> in_int64 (i * second)"
  by (simp add: in_int32_def in_int64_def second_def)

lemma parse_common:
  assumes "typedSpec app"
  shows "parseFlags routerFlagSet (tl (routerArgs app)) =
    parseFlags (commonFlags app)
      (case wtUpstreamAuth (spWorkspace (appSpec app)) of
         None \<Rightarrow> []
       | Some ua \<Rightarrow>
           [flagArg ''upstream-auth-header'' (shHeader ua)] @
           (if shScheme ua \<noteq> [] then [flagArg ''upstream-auth-scheme'' (shScheme ua)] else []) @
           [flagArg ''upstream-auth-secret-file'' (upstreamAuthMountPath @ ''/'' @ secretItemPath)])"
proof -
  define rest where "rest =
      (case wtUpstreamAuth (spWorkspace (appSpec app)) of
         None \<Rightarrow> []
       | Some ua \<Rightarrow>
           [flagArg ''upstream-auth-header'' (shHeader ua)] @
           (if shScheme ua \<noteq> [] then [flagArg ''upstream-auth-scheme'' (shScheme ua)] else []) @
           [flagArg ''upstream-auth-secret-file'' (upstreamAuthMountPath @ ''/'' @ secretItemPath)])"
  define args where "args = map (flagArg ''shared-path'') (SharedPaths (spRouter (appSpec app))) @ rest"
  have ints: "in_int64 (idMaxLength (spIdentity (appSpec app)))" "in_int64 (wtPort (spWorkspace (appSpec app)))"
      "in_int64 (MaxWorkspaces (spLimits (appSpec app)))"
      "in_int64 (ColdStartHoldSeconds (spRouter (appSpec app)) * second)"
      "in_int64 (ConnectionHeartbeatInterval (spLifecycle (appSpec app)))"
    using assms int32_int64 int32_seconds by (auto simp: typedSpec_def Let_def)
  note durs = duration_roundtrip [OF ints(4)] duration_roundtrip [OF ints(5)]
  have "parseFlags routerFlagSet (tl (routerArgs app)) =
      parseFlags ((commonFlags app)(''shared-path'' \<mapsto> VStrings [])) args"
    by (simp add: router_args_assignments Let_def args_def [symmetric] rest_def [symmetric] parseFlags_assignment
        ints durs routerFlagSet_def commonFlags_def fun_upd_twist)
  also have "\<dots> = parseFlags (commonFlags app) rest"
    unfolding args_def by (subst parseFlags_repeated [of _ _ "[]"]) (simp_all add: commonFlags_def Let_def)
  finally show ?thesis by (simp add: rest_def)
qed

section \<open>From the spec to the configuration\<close>

text \<open>What the kubelet does with a pod of the given template: the file a container finds at a mounted item of
  a Secret volume has the data of the Secret's key, and a downward-API variable for
  \<open>metadata.name\<close> is the pod's name.\<close>

definition projected ::
    "(string \<Rightarrow> string \<Rightarrow> string option) \<Rightarrow> (string \<Rightarrow> 'e + string) \<Rightarrow> string \<Rightarrow> volume \<Rightarrow> bool" where
  "projected secrets readFile mountPath v \<longleftrightarrow>
     (case vsSecret (volSource v) of
        None \<Rightarrow> True
      | Some ss \<Rightarrow> list_all (\<lambda>(key, path). case secrets (ssSecretName ss) key of
            None \<Rightarrow> True
          | Some content \<Rightarrow> readFile (mountPath @ ''/'' @ path) = Inr content) (ssItems ss))"

definition podRuns ::
    "(string \<Rightarrow> string \<Rightarrow> string option) \<Rightarrow> string \<Rightarrow> podSpec \<Rightarrow> (string \<Rightarrow> 'e + string) \<Rightarrow> (string \<Rightarrow> string) \<Rightarrow> bool" where
  "podRuns secrets podName ps readFile getenv \<longleftrightarrow>
     list_all (\<lambda>ct.
       list_all (\<lambda>m. list_all (\<lambda>v. volName v = vmName m \<longrightarrow> projected secrets readFile (vmMountPath m) v)
         (psVolumes ps)) (ctVolumeMounts ct) \<and>
       list_all (\<lambda>ev. evFieldPath ev = Some ''metadata.name'' \<longrightarrow> getenv (evName ev) = podName) (ctEnv ct))
     (psContainers ps)"

text \<open>The configuration an app's spec asks for.\<close>

definition appConfig :: "perUserApp \<Rightarrow> string \<Rightarrow> string \<Rightarrow> string \<Rightarrow> config" where
  "appConfig app callerSecret upstreamSecret podName =
     (let sp = appSpec app; ca = spCallerAuth sp; ua = wtUpstreamAuth (spWorkspace sp) in
      \<lparr>cfgApp = appName app, cfgNamespace = Namespace (appMeta app),
       IdentityHeader = idHeader (spIdentity sp), IdentityMaxLength = idMaxLength (spIdentity sp),
       cfgSharedPaths = SharedPaths (spRouter sp),
       CallerAuthHeader = shHeader ca, CallerAuthScheme = shScheme ca, CallerAuthSecret = callerSecret,
       UpstreamAuthHeader = (case ua of None \<Rightarrow> [] | Some u \<Rightarrow> shHeader u),
       UpstreamAuthScheme = (case ua of None \<Rightarrow> [] | Some u \<Rightarrow> shScheme u),
       UpstreamAuthSecret = (case ua of None \<Rightarrow> [] | Some u \<Rightarrow> upstreamSecret),
       WorkspacePort = wtPort (spWorkspace sp),
       ColdStartHold = ColdStartHoldSeconds (spRouter sp) * second,
       cfgHeartbeatInterval = ConnectionHeartbeatInterval (spLifecycle sp),
       cfgMaxWorkspaces = MaxWorkspaces (spLimits sp), cfgPodName = podName,
       ListenAddr = '':'' @ Itoa RouterPort, MetricsAddr = '':'' @ Itoa MetricsPort\<rparr>)"

text \<open>The names and paths the API server's validation of the custom resource requires.\<close>

definition admissibleSpec :: "perUserApp \<Rightarrow> bool" where
  "admissibleSpec app \<longleftrightarrow>
     appName app \<noteq> [] \<and> Namespace (appMeta app) \<noteq> [] \<and> idHeader (spIdentity (appSpec app)) \<noteq> [] \<and>
     list_all (\<lambda>p. HasPrefix p ''/'') (SharedPaths (spRouter (appSpec app))) \<and>
     (case wtUpstreamAuth (spWorkspace (appSpec app)) of None \<Rightarrow> True | Some ua \<Rightarrow> shHeader ua \<noteq> [])"

lemma commonFlags_upstream:
  assumes "f \<in> {''upstream-auth-header'', ''upstream-auth-scheme'', ''upstream-auth-secret-file''}"
  shows "commonFlags app f = Some (VString [])"
  using assms by (auto simp: commonFlags_def Let_def routerFlagSet_def)

lemma validated_caller_auth: "ValidateApp app = Inr ws \<Longrightarrow> shHeader (spCallerAuth (appSpec app)) \<noteq> []"
  by (auto simp: ValidateApp_def Let_def split: if_splits option.splits)

lemma router_pod_files:
  assumes "podRuns secrets podName ps readFile getenv"
    and "psContainers ps = [routerContainer app img]" and "psVolumes ps = routerVolumes app"
  shows "secrets (shSecretName (spCallerAuth (appSpec app))) (shSecretKey (spCallerAuth (appSpec app))) = Some content \<Longrightarrow>
      readFile (callerAuthMountPath @ ''/'' @ secretItemPath) = Inr content"
    and "wtUpstreamAuth (spWorkspace (appSpec app)) = Some ua \<Longrightarrow>
      secrets (shSecretName ua) (shSecretKey ua) = Some content \<Longrightarrow>
      readFile (upstreamAuthMountPath @ ''/'' @ secretItemPath) = Inr content"
    and "getenv ''POD_NAME'' = podName"
  using assms
  by (auto simp: podRuns_def projected_def routerContainer_def routerMounts_def routerVolumes_def secretRefVolume_def
      split: option.splits)

lemma parse_router_flag_set:
  assumes "typedSpec app"
  shows "parseFlags routerFlagSet (tl (routerArgs app)) = Inr
    (case wtUpstreamAuth (spWorkspace (appSpec app)) of
       None \<Rightarrow> commonFlags app
     | Some ua \<Rightarrow> (commonFlags app)(''upstream-auth-header'' \<mapsto> VString (shHeader ua),
         ''upstream-auth-scheme'' \<mapsto> VString (shScheme ua),
         ''upstream-auth-secret-file'' \<mapsto> VString (upstreamAuthMountPath @ ''/'' @ secretItemPath)))"
proof -
  have idem: "(commonFlags app)(''upstream-auth-header'' \<mapsto> h, ''upstream-auth-secret-file'' \<mapsto> x) =
      (commonFlags app)(''upstream-auth-header'' \<mapsto> h, ''upstream-auth-scheme'' \<mapsto> VString [], ''upstream-auth-secret-file'' \<mapsto> x)" for h x
    by (rule ext) (simp add: commonFlags_upstream)
  show ?thesis
    unfolding parse_common [OF assms]
    by (auto simp: parseFlags_assignment commonFlags_upstream idem split: option.split)
qed

text \<open>What the configuration is read from: the flags, the two secret files, the environment.\<close>

definition credentialsAt ::
    "(string \<Rightarrow> 'e + string) \<Rightarrow> perUserApp \<Rightarrow> string \<Rightarrow> string \<Rightarrow> bool" where
  "credentialsAt readFile app callerData upstreamData \<longleftrightarrow>
     readFile (callerAuthMountPath @ ''/'' @ secretItemPath) = Inr callerData \<and>
     (wtUpstreamAuth (spWorkspace (appSpec app)) \<noteq> None \<longrightarrow>
       readFile (upstreamAuthMountPath @ ''/'' @ secretItemPath) = Inr upstreamData)"

lemma find_relative: "list_all (\<lambda>p. HasPrefix p ''/'') ps \<Longrightarrow> find (\<lambda>p. \<not> HasPrefix p ''/'') ps = None"
  by (auto simp: find_None_iff list_all_iff)

lemma common_readers:
  "strFlag (commonFlags app) ''app'' = appName app"
  "strFlag (commonFlags app) ''namespace'' = Namespace (appMeta app)"
  "strFlag (commonFlags app) ''identity-header'' = idHeader (spIdentity (appSpec app))"
  "intFlag (commonFlags app) ''identity-max-length'' = idMaxLength (spIdentity (appSpec app))"
  "strFlag (commonFlags app) ''caller-auth-header'' = shHeader (spCallerAuth (appSpec app))"
  "strFlag (commonFlags app) ''caller-auth-scheme'' = shScheme (spCallerAuth (appSpec app))"
  "strFlag (commonFlags app) ''caller-auth-secret-file'' = callerAuthMountPath @ ''/'' @ secretItemPath"
  "intFlag (commonFlags app) ''workspace-port'' = wtPort (spWorkspace (appSpec app))"
  "durationFlag (commonFlags app) ''cold-start-hold'' = ColdStartHoldSeconds (spRouter (appSpec app)) * second"
  "durationFlag (commonFlags app) ''connection-heartbeat'' = ConnectionHeartbeatInterval (spLifecycle (appSpec app))"
  "intFlag (commonFlags app) ''max-workspaces'' = MaxWorkspaces (spLimits (appSpec app))"
  "strFlag (commonFlags app) ''listen-addr'' = '':'' @ Itoa RouterPort"
  "strFlag (commonFlags app) ''metrics-addr'' = '':'' @ Itoa MetricsPort"
  "stringsFlag (commonFlags app) ''shared-path'' = SharedPaths (spRouter (appSpec app))"
  by (simp_all add: flag_readers commonFlags_def Let_def)

lemma common_no_upstream: "strFlag (commonFlags app) ''upstream-auth-header'' = []"
  by (simp add: strFlag_def commonFlags_upstream)

lemma readers_upd:
  "strFlag (fs(n \<mapsto> v)) m = (if m = n then (case v of VString s \<Rightarrow> s | _ \<Rightarrow> []) else strFlag fs m)"
  "n \<noteq> m \<Longrightarrow> intFlag (fs(n \<mapsto> v)) m = intFlag fs m"
  "n \<noteq> m \<Longrightarrow> durationFlag (fs(n \<mapsto> v)) m = durationFlag fs m"
  "n \<noteq> m \<Longrightarrow> stringsFlag (fs(n \<mapsto> v)) m = stringsFlag fs m"
  by (simp_all add: flag_readers)

lemma router_args_config:
  assumes "typedSpec app" and "admissibleSpec app" and "shHeader (spCallerAuth (appSpec app)) \<noteq> []"
    and "credentialsAt readFile app callerData upstreamData"
  shows "parseRouterFlags readFile getenv (tl (routerArgs app)) =
    Inr (appConfig app (TrimRightNL callerData) (TrimRightNL upstreamData) (getenv ''POD_NAME''))"
proof -
  have ints: "wrap32 (wtPort (spWorkspace (appSpec app))) = wtPort (spWorkspace (appSpec app))"
      "wrap32 (MaxWorkspaces (spLimits (appSpec app))) = MaxWorkspaces (spLimits (appSpec app))"
    using assms(1) by (simp_all add: typedSpec_def Let_def)
  have paths: "callerAuthMountPath @ ''/'' @ secretItemPath \<noteq> []" "upstreamAuthMountPath @ ''/'' @ secretItemPath \<noteq> []"
    by simp_all
  note adm = assms(2) [unfolded admissibleSpec_def]
  note cred = assms(4) [unfolded credentialsAt_def]
  show ?thesis
  proof (cases "wtUpstreamAuth (spWorkspace (appSpec app))")
    case None
    then show ?thesis using adm assms(3) cred
      by (simp add: parseRouterFlags_def parse_router_flag_set [OF assms(1)] routerConfig_def baseConfig_def common_readers
          common_no_upstream find_relative ReadSecretFile_def appConfig_def Let_def ints)
  next
    case (Some ua)
    then show ?thesis using adm assms(3) cred
      by (simp add: parseRouterFlags_def parse_router_flag_set [OF assms(1)] routerConfig_def baseConfig_def common_readers
          readers_upd find_relative ReadSecretFile_def appConfig_def Let_def ints)
  qed
qed


definition tokenApp :: perUserApp where
  "tokenApp = sampleApp\<lparr>appSpec := sampleSpec\<lparr>
     spRouter := (spRouter sampleSpec)\<lparr>SharedPaths := [''/openapi.json'']\<rparr>,
     spWorkspace := sampleTemplate\<lparr>wtUpstreamAuth := Some \<lparr>shSecretName = ''upstream'', shSecretKey = ''token'',
       shHeader = ''X-Token'', shScheme = []\<rparr>\<rparr>\<rparr>\<rparr>"

definition tokenFiles :: "string \<Rightarrow> unit + string" where
  "tokenFiles path =
     (if path = ''/etc/puc/caller-auth/value'' then Inr (''s3cret'' @ [CHR 0x0A])
      else if path = ''/etc/puc/upstream-auth/value'' then Inr ''up'' else Inl ())"

definition tokenSecrets :: "string \<Rightarrow> string \<Rightarrow> string option" where
  "tokenSecrets name key =
     (if key = ''token'' then if name = ''caller'' then Some (''s3cret'' @ [CHR 0x0A]) else Some ''up'' else None)"


end
