(* ===== verification/PerUserApp_Controller.thy ===== *)
theory PerUserApp_Controller
  imports Render_Router Render_Facts Samples
begin

text \<open>
  \<open>internal/controller/peruserapp_controller.go\<close>: the reconciler of a PerUserApp. It validates the
  spec, reports the result in the ConfigValid condition, and only for a valid app brings the router's
  identity objects, Deployment, Service and NetworkPolicy up to date and reports
  WorkspaceLimitReached.

  Error and warning texts are part of what it writes, so they are modelled word for word; the quoting
  of \<open>%q\<close> and the text of an API error come from libraries and are fields of the reconciler.
\<close>

section \<open>The reconciler\<close>

record appReconciler =
  RouterImage :: string
  appPodCIDR :: string
  appNodeCIDR :: string
  goQuote :: "string \<Rightarrow> string"
  apiErrorText :: "error \<Rightarrow> string"

datatype appError = ConfigErr configError | StorageClassUnreadable string error
  | StorageClassPolicy string "string option" | RouterImageUnresolved

definition emDash :: string where
  "emDash = [CHR 0xE2, CHR 0x80, CHR 0x94]"

definition egressIndex :: "nat \<Rightarrow> nat \<Rightarrow> string" where
  "egressIndex i j = ''spec.network.workspaceEgress['' @ Itoa (int i) @ ''].to['' @ Itoa (int j) @ '']: ''"

definition configErrorText :: "(string \<Rightarrow> string) \<Rightarrow> configError \<Rightarrow> string" where
  "configErrorText q e =
     (case e of
        VolumeNameReserved \<Rightarrow>
        ''spec.workspace.volumes: volume name '' @ q PVCVolumeName @
     '' is reserved for the per-user PVC; a user volume with this name would collide with it on the pod spec''
      | VolumeSourceNotAllowed v \<Rightarrow>
        ''spec.workspace.volumes['' @ v @ '']: volume source is not on the allowlist (configMap, secret, emptyDir, projected only); it may reach another user's files''
      | ProjectedTokenForbidden v \<Rightarrow>
        ''spec.workspace.volumes['' @ v @ '']: a projected serviceAccountToken source is forbidden; it ignores automountServiceAccountToken:false and the mounted token can create pods and read PVCs across served namespaces''
      | OperatorServiceAccountForbidden \<Rightarrow>
        ''spec.workspace.serviceAccountName: '' @ q OperatorServiceAccountName @
     '' is the operator's own service account and must never be assigned to a workspace pod''
      | AutomountTokenRejected \<Rightarrow>
        ''spec.workspace.automountServiceAccountToken: true is rejected; the workspace ServiceAccount is deliberately tokenless and this value is always rendered false''
      | FSGroupRequired \<Rightarrow>
        ''spec.workspace.podSecurityContext.fsGroup: required; a freshly provisioned volume is root-owned without it and the workspace container cannot write to it''
      | RunAsUserRequired \<Rightarrow>
        ''spec.workspace.podSecurityContext: runAsNonRoot is true but runAsUser is unset; the image's own USER directive is not guaranteed numeric and this becomes a CreateContainerConfigError for every user of this app''
      | EgressToEmpty i \<Rightarrow>
        ''spec.network.workspaceEgress['' @ Itoa (int i) @ '']: to must be non-empty; an absent to is allow-to-anywhere and reaches every other workspace and the router''
      | EgressPeerUnset i j \<Rightarrow>
        egressIndex i j @ ''peer must set one of ipBlock, podSelector or namespaceSelector''
      | EgressPodSelectorEmpty i j \<Rightarrow>
        egressIndex i j @ ''podSelector is empty (matches every pod) with no namespaceSelector; in an egress peer this resolves to every pod in the workspace's OWN namespace '' @
     emDash @ '' every other user's workspace, and the router '' @ emDash @ '' not just the intended target''
      | EgressNamespaceSelectorEmpty i j \<Rightarrow>
        egressIndex i j @ ''namespaceSelector is empty (matches every namespace) and podSelector is absent or also empty; this resolves to every pod in every namespace in the cluster''
      | EgressAllAddresses i j cidr \<Rightarrow>
        egressIndex i j @ ''ipBlock.cidr '' @ q cidr @ '' allows every address, including every other workspace and the router; an except list is not accepted as a carve-out here because this validator has no access to the actual pod CIDR to confirm it excludes it''
      | RouterIngressOpen \<Rightarrow>
        ''spec.network.routerIngress: from is empty and fromTraefik is false; this is a silent default-allow on the router's ingress''
      | CallerAuthMissing \<Rightarrow>
        ''spec.callerAuth: mandatory; without it, anyone who can open a socket to the router can set the identity header and become any user'')"

definition configWarningText :: "(string \<Rightarrow> string) \<Rightarrow> configWarning \<Rightarrow> string" where
  "configWarningText q w =
     (case w of
        EmptyWorkspaceEgress \<Rightarrow>
        ''spec.network.workspaceEgress is empty: the workspace pod will have DNS-only egress and cannot reach any declared peer''
      | NestedMount m mp \<Rightarrow>
        ''volume mount '' @ q m @ '' is nested under the workspace mount '' @ q mp @
     '': a file written there is on a different, volatile volume and vanishes on the next reap'')"

definition appErrorText :: "appReconciler \<Rightarrow> appError \<Rightarrow> string" where
  "appErrorText r err =
     (case err of
        ConfigErr e \<Rightarrow>
        configErrorText (goQuote r) e
      | StorageClassUnreadable sc e \<Rightarrow>
        ''spec.storage.storageClassName '' @ goQuote r sc @ '': '' @ apiErrorText r e
      | StorageClassPolicy sc policy \<Rightarrow>
        ''spec.storage.storageClassName '' @ goQuote r sc @ '' has reclaimPolicy '' @
     (case policy of None \<Rightarrow> ''unset'' | Some p \<Rightarrow> p) @
     '', must be Retain: a Delete policy destroys the underlying volume the moment its PersistentVolumeClaim is deleted, defeating the survive-cascade-delete guarantee every per-user PVC depends on''
      | RouterImageUnresolved \<Rightarrow>
        ''router image unresolved: RELATED_IMAGE_ROUTER must be set on the controller, or spec.router.image set for development'')"

section \<open>Validation\<close>

definition ValidateStorageClass :: "('s, 'x) env_scheme \<Rightarrow> perUserApp \<Rightarrow> ('s, appError option) m" where
  "ValidateStorageClass env app = do {
     let name = stStorageClassName (spStorage (appSpec app));
     g \<leftarrow> doGet (storageClasses env) KStorageClass ([], name);
     case g of
       Inl e \<Rightarrow> ret (Some (StorageClassUnreadable name e))
     | Inr sc \<Rightarrow>
         ret (if scReclaimPolicy sc \<noteq> Some ''Retain'' then Some (StorageClassPolicy name (scReclaimPolicy sc)) else None)
   }"

definition routerImageOf :: "appReconciler \<Rightarrow> perUserApp \<Rightarrow> string" where
  "routerImageOf r app =
     (if rtImage (spRouter (appSpec app)) = [] then RouterImage r else rtImage (spRouter (appSpec app)))"

text \<open>The three checks before ConfigValid is decided, in their order; the warnings on success.\<close>

definition validate ::
    "('s, 'x) env_scheme \<Rightarrow> appReconciler \<Rightarrow> perUserApp \<Rightarrow> ('s, appError + configWarning list) m" where
  "validate env r app =
     (case ValidateApp app of
        Inl e \<Rightarrow> ret (Inl (ConfigErr e))
      | Inr warnings \<Rightarrow> do {
          v \<leftarrow> ValidateStorageClass env app;
          case v of
            Some e \<Rightarrow> ret (Inl e)
          | None \<Rightarrow> ret (if routerImageOf r app = [] then Inl RouterImageUnresolved else Inr warnings)
        })"

section \<open>Conditions\<close>

definition setAppCondition ::
    "('s, 'x) env_scheme \<Rightarrow> perUserApp \<Rightarrow> string \<Rightarrow> conditionStatus \<Rightarrow> string \<Rightarrow> string \<Rightarrow> ('s, perUserApp) m" where
  "setAppCondition env app condType status reason message = do {
     cs \<leftarrow> ask (setStatusCondition env (apConditions (appStatus app))
            \<lparr>cdType = condType, cdStatus = status, cdReason = reason, cdMessage = message,
             cdObservedGeneration = Generation (appMeta app), cdLastTransitionTime = 0\<rparr>) (\<lambda>_. []);
     ret (app\<lparr>appStatus := (appStatus app)\<lparr>apConditions := cs\<rparr>\<rparr>)
   }"

definition equalConditions :: "('s, 'x) env_scheme \<Rightarrow> condition list \<Rightarrow> condition list \<Rightarrow> bool" where
  "equalConditions env a b \<longleftrightarrow>
     (if length a \<noteq> length b then False
      else list_all (\<lambda>ca. case findStatusCondition env b (cdType ca) of
          None \<Rightarrow> False
        | Some cb \<Rightarrow> cdStatus cb = cdStatus ca \<and> cdReason cb = cdReason ca \<and> cdMessage cb = cdMessage ca) a)"

definition patchAppStatusIfChanged ::
    "('s, 'x) env_scheme \<Rightarrow> perUserApp \<Rightarrow> perUserApp \<Rightarrow> ('s, error option) m" where
  "patchAppStatusIfChanged env app base =
     (if equalConditions env (apConditions (appStatus app)) (apConditions (appStatus base)) then ret None
      else do { r \<leftarrow> doStatusPatch (perUserApps env) AppObj base app; ret (errOf r) })"

section \<open>The router's objects\<close>

definition named :: "objectMeta \<Rightarrow> objectMeta" where
  "named m = zeroMeta\<lparr>Name := Name m, Namespace := Namespace m\<rparr>"

definition owned :: "objectMeta \<Rightarrow> objectMeta \<Rightarrow> objectMeta" where
  "owned desired m = m\<lparr>Labels := Labels desired, OwnerReferences := OwnerReferences desired\<rparr>"

definition ensureServiceAccount :: "('s, 'x) env_scheme \<Rightarrow> serviceAccount \<Rightarrow> ('s, error option) m" where
  "ensureServiceAccount env desired = do {
     x \<leftarrow> doCreateOrUpdate (serviceAccounts env) SaObj \<lparr>saMeta = named (saMeta desired)\<rparr>
            (\<lambda>sa. sa\<lparr>saMeta := owned (saMeta desired) (saMeta sa)\<rparr>);
     ret (errOf x)
   }"

definition ensureWorkspaceIdentity :: "('s, 'x) env_scheme \<Rightarrow> perUserApp \<Rightarrow> ('s, error option) m" where
  "ensureWorkspaceIdentity env app = ensureServiceAccount env (RenderWorkspaceServiceAccount app)"

definition ensureRouterIdentity :: "('s, 'x) env_scheme \<Rightarrow> perUserApp \<Rightarrow> ('s, error option) m" where
  "ensureRouterIdentity env app = do {
     e \<leftarrow> ensureServiceAccount env (RenderRouterServiceAccount app);
     case e of
       Some e \<Rightarrow> ret (Some e)
     | None \<Rightarrow> do {
         let desired = RenderRouterRoleBinding app;
         x \<leftarrow> doCreateOrUpdate (roleBindings env) RbObj
                \<lparr>rbMeta = named (rbMeta desired), rbSubjects = [], rbRoleRef = ([], [], [])\<rparr>
                (\<lambda>rb. rb\<lparr>rbMeta := owned (rbMeta desired) (rbMeta rb), rbSubjects := rbSubjects desired,
                         rbRoleRef := rbRoleRef desired\<rparr>);
         ret (errOf x)
       }
   }"

definition zeroDeploymentSpec :: deploymentSpec where
  "zeroDeploymentSpec = \<lparr>dsReplicas = None, dsSelector = [], dsStrategy = [], dsTemplateLabels = [],
     dsPodSpec = \<lparr>psServiceAccountName = [], psAutomountServiceAccountToken = None, psSecurityContext = None,
       psInitContainers = [], psContainers = [], psVolumes = [], psNodeSelector = [], psTolerations = [],
       psTerminationGracePeriodSeconds = None\<rparr>\<rparr>"

definition ensureRouterDeployment :: "('s, 'x) env_scheme \<Rightarrow> deployment \<Rightarrow> ('s, error option) m" where
  "ensureRouterDeployment env desired = do {
     x \<leftarrow> doCreateOrUpdate (deployments env) DepObj
            \<lparr>depMeta = named (depMeta desired), depSpec = zeroDeploymentSpec, depReadyReplicas = 0\<rparr>
            (\<lambda>dep. dep\<lparr>depMeta := owned (depMeta desired) (depMeta dep), depSpec := depSpec desired\<rparr>);
     ret (errOf x)
   }"

text \<open>The ClusterIP of an existing Service stays as it is.\<close>

definition ensureRouterService :: "('s, 'x) env_scheme \<Rightarrow> service \<Rightarrow> ('s, error option) m" where
  "ensureRouterService env desired = do {
     x \<leftarrow> doCreateOrUpdate (services env) SvcObj
            \<lparr>svcMeta = named (svcMeta desired), svcType = [], svcSelector = [], svcPorts = [], svcClusterIP = []\<rparr>
            (\<lambda>svc. svc\<lparr>svcMeta := owned (svcMeta desired) (svcMeta svc), svcType := svcType desired,
                        svcSelector := svcSelector desired, svcPorts := svcPorts desired\<rparr>);
     ret (errOf x)
   }"

definition ensureRouterPolicy :: "('s, 'x) env_scheme \<Rightarrow> networkPolicy \<Rightarrow> ('s, error option) m" where
  "ensureRouterPolicy env desired = do {
     x \<leftarrow> doCreateOrUpdate (networkPolicies env) NpObj
            \<lparr>npMeta = named (npMeta desired), npPodSelector = [], npPolicyTypes = [], npIngress = [], npEgress = []\<rparr>
            (\<lambda>np. np\<lparr>npMeta := owned (npMeta desired) (npMeta np), npPodSelector := npPodSelector desired,
                      npPolicyTypes := npPolicyTypes desired, npIngress := npIngress desired,
                      npEgress := npEgress desired\<rparr>);
     ret (errOf x)
   }"

text \<open>\<open>if err := m; err != nil { return err }\<close>\<close>

definition orElse :: "('s, error option) m \<Rightarrow> ('s, error option) m \<Rightarrow> ('s, error option) m" where
  "orElse m k = do { e \<leftarrow> m; case e of Some e \<Rightarrow> ret (Some e) | None \<Rightarrow> k }"

definition ensureRouterWorkload ::
    "('s, 'x) env_scheme \<Rightarrow> appReconciler \<Rightarrow> perUserApp \<Rightarrow> string \<Rightarrow> ('s, error option) m" where
  "ensureRouterWorkload env r app routerImage =
     (case RenderRouterDeployment app routerImage of
        None \<Rightarrow> ret (Some (OtherError (appErrorText r RouterImageUnresolved)))
      | Some desiredDep \<Rightarrow>
          orElse (ensureRouterDeployment env desiredDep)
            (orElse (ensureRouterService env (RenderRouterService app))
              (ensureRouterPolicy env (RenderRouterNetworkPolicy app (appPodCIDR r) (appNodeCIDR r)))))"

section \<open>Reconcile\<close>

definition appLimitReached :: "perUserApp \<Rightarrow> workspace list \<Rightarrow> bool" where
  "appLimitReached app items \<longleftrightarrow> wrap32 (int (length items)) \<ge> MaxWorkspaces (spLimits (appSpec app))"

definition workspaceLimitReached :: "('s, 'x) env_scheme \<Rightarrow> perUserApp \<Rightarrow> ('s, error + bool) m" where
  "workspaceLimitReached env app = do {
     l \<leftarrow> doList (workspaces env) KWorkspace (Namespace (appMeta app)) [(LabelApp, appName app)];
     case l of Inl e \<Rightarrow> ret (Inl e) | Inr items \<Rightarrow> ret (Inr (appLimitReached app items))
   }"

fun recordWarnings :: "appReconciler \<Rightarrow> configWarning list \<Rightarrow> ('s, unit) m" where
  "recordWarnings r [] = ret ()"
| "recordWarnings r (w # ws) = do { emit (Recorded (configWarningText (goQuote r) w)); recordWarnings r ws }"

definition reportLimit :: "('s, 'x) env_scheme \<Rightarrow> perUserApp \<Rightarrow> perUserApp \<Rightarrow> ('s, error option) m" where
  "reportLimit env app base = do {
     l \<leftarrow> workspaceLimitReached env app;
     case l of
       Inl e \<Rightarrow> ret (Some e)
     | Inr reached \<Rightarrow> do {
         app \<leftarrow> (if reached
                then setAppCondition env app CondWorkspaceLimitReached ConditionTrue ''LimitReached''
                       ''the fleet is at spec.limits.maxWorkspaces''
                else setAppCondition env app CondWorkspaceLimitReached ConditionFalse ''BelowLimit''
                       ''the fleet is below spec.limits.maxWorkspaces'');
         patchAppStatusIfChanged env app base
       }
   }"

definition reconcileValid ::
    "('s, 'x) env_scheme \<Rightarrow> appReconciler \<Rightarrow> perUserApp \<Rightarrow> configWarning list \<Rightarrow> ('s, error option) m" where
  "reconcileValid env r base warnings = do {
     app \<leftarrow> setAppCondition env base CondConfigValid ConditionTrue ''Valid'' ''spec passed validation'';
     recordWarnings r warnings;
     orElse (ensureWorkspaceIdentity env app)
       (orElse (ensureRouterIdentity env app)
         (orElse (ensureRouterWorkload env r app (routerImageOf r app))
           (reportLimit env app base)))
   }"

definition reconcileInvalid ::
    "('s, 'x) env_scheme \<Rightarrow> appReconciler \<Rightarrow> perUserApp \<Rightarrow> appError \<Rightarrow> ('s, error option) m" where
  "reconcileInvalid env r base verr = do {
     app \<leftarrow> setAppCondition env base CondConfigValid ConditionFalse ReasonConfigInvalid (appErrorText r verr);
     patchAppStatusIfChanged env app base
   }"

definition ReconcileApp :: "('s, 'x) env_scheme \<Rightarrow> appReconciler \<Rightarrow> key \<Rightarrow> ('s, error option) m" where
  "ReconcileApp env r req = do {
     g \<leftarrow> doGet (perUserApps env) KPerUserApp req;
     case g of
       Inl e \<Rightarrow> ret (if IsNotFound e then None else Some e)
     | Inr app \<Rightarrow> do {
         v \<leftarrow> validate env r app;
         case v of
           Inl verr \<Rightarrow> reconcileInvalid env r app verr
         | Inr warnings \<Rightarrow> reconcileValid env r app warnings
       }
   }"

text \<open>The watch on Workspaces: which app a changed Workspace requeues.\<close>

definition mapWorkspaceToApp :: "workspace \<Rightarrow> key list" where
  "mapWorkspaceToApp ws =
     (if wsAppRef (wsSpec ws) = [] then [] else [(Namespace (wsMeta ws), wsAppRef (wsSpec ws))])"

section \<open>What a pass may write\<close>

text \<open>The objects of a router, as rendered.\<close>

definition routerObjects :: "appReconciler \<Rightarrow> perUserApp \<Rightarrow> obj list" where
  "routerObjects r app =
     [SaObj (RenderWorkspaceServiceAccount app), SaObj (RenderRouterServiceAccount app),
      RbObj (RenderRouterRoleBinding app), SvcObj (RenderRouterService app),
      NpObj (RenderRouterNetworkPolicy app (appPodCIDR r) (appNodeCIDR r))] @
     (case RenderRouterDeployment app (routerImageOf r app) of None \<Rightarrow> [] | Some dep \<Rightarrow> [DepObj dep])"

text \<open>A valid app: its spec passed, the environment answered with a StorageClass that retains volumes, and an
  image is known.\<close>

definition validApp :: "('s, 'x) env_scheme \<Rightarrow> appReconciler \<Rightarrow> perUserApp \<Rightarrow> bool" where
  "validApp env r app \<longleftrightarrow>
     (\<exists>ws. ValidateApp app = Inr ws) \<and> routerImageOf r app \<noteq> [] \<and>
     (\<exists>c sc. fst (rGet (storageClasses env) ([], stStorageClassName (spStorage (appSpec app))) c) = Inr sc \<and>
        scReclaimPolicy sc = Some ''Retain'')"

text \<open>A status that differs from the one read in the two conditions the reconciler owns only.\<close>

definition ownConditionsOnly :: "('s, 'x) env_scheme \<Rightarrow> perUserApp \<Rightarrow> perUserApp \<Rightarrow> bool" where
  "ownConditionsOnly env b x \<longleftrightarrow>
     x = b\<lparr>appStatus := (appStatus b)\<lparr>apConditions := apConditions (appStatus x)\<rparr>\<rparr> \<and>
     (\<forall>t. t \<noteq> CondConfigValid \<longrightarrow> t \<noteq> CondWorkspaceLimitReached \<longrightarrow>
        findStatusCondition env (apConditions (appStatus x)) t = findStatusCondition env (apConditions (appStatus b)) t)"

text \<open>What a pass over \<open>app\<close> may do: read, send the router's objects and the warnings of a valid app,
  and report its own two conditions. There is no case for a Create, Update, Patch or Delete.\<close>

inductive app_event :: "('s, 'x) env_scheme \<Rightarrow> appReconciler \<Rightarrow> perUserApp \<Rightarrow> event \<Rightarrow> bool"
  for env :: "('s, 'x) env_scheme" and r :: appReconciler and app :: perUserApp where
  read: "is_read c \<Longrightarrow> app_event env r app (Api c er)"
| warned: "validApp env r app \<Longrightarrow> ValidateApp app = Inr ws \<Longrightarrow> w \<in> set ws \<Longrightarrow>
    app_event env r app (Recorded (configWarningText (goQuote r) w))"
| ensured: "validApp env r app \<Longrightarrow> ob \<in> set (routerObjects r app) \<Longrightarrow>
    app_event env r app (Api (CreateOrUpdate ob) er)"
| reported: "ownConditionsOnly env app x \<Longrightarrow> app_event env r app (Api (StatusPatch (AppObj app) (AppObj x)) er)"

inductive_simps app_event_write [simp]:
  "app_event env r app (Api (Delete ob) er)" "app_event env r app (Api (Create ob) er)"
  "app_event env r app (Api (Update ob) er)" "app_event env r app (Api (Patch b x) er)"

text \<open>A list of objects was sent in some order, all of them and with success if no error is returned.\<close>

definition sends :: "obj list \<Rightarrow> error option \<Rightarrow> event list \<Rightarrow> bool" where
  "sends obs res es \<longleftrightarrow>
     (\<forall>e \<in> set es. \<exists>ob \<in> set obs. \<exists>er. e = Api (CreateOrUpdate ob) er) \<and>
     (res = None \<longrightarrow> (\<forall>ob \<in> set obs. Api (CreateOrUpdate ob) None \<in> set es))"

text \<open>The status \<open>x\<close> of \<open>app\<close> reached the cluster, or was there already.\<close>

definition statusStored :: "('s, 'x) env_scheme \<Rightarrow> perUserApp \<Rightarrow> perUserApp \<Rightarrow> event list \<Rightarrow> bool" where
  "statusStored env app x es \<longleftrightarrow>
     Api (StatusPatch (AppObj app) (AppObj x)) None \<in> set es \<or>
     equalConditions env (apConditions (appStatus x)) (apConditions (appStatus app))"

definition conditionIs :: "('s, 'x) env_scheme \<Rightarrow> perUserApp \<Rightarrow> string \<Rightarrow> conditionStatus \<Rightarrow> bool" where
  "conditionIs env x t st \<longleftrightarrow>
     (\<exists>c. findStatusCondition env (apConditions (appStatus x)) t = Some c \<and> cdStatus c = st)"

abbreviation sameApp :: "perUserApp \<Rightarrow> perUserApp \<Rightarrow> bool" where
  "sameApp app app' \<equiv> appMeta app' = appMeta app \<and> appSpec app' = appSpec app"

lemma routerImageOf_status: "sameApp app app' \<Longrightarrow> routerImageOf r app' = routerImageOf r app"
  by (simp add: routerImageOf_def)

lemma routerObjects_status:
  assumes "sameApp app app'"
  shows "routerObjects r app' = routerObjects r app"
proof -
  have "RouterPodLabels (appName app') = RouterPodLabels (appName app)" "appOwnerRef app' = appOwnerRef app"
      "routerName app' = routerName app" "routerServiceAccountName app' = routerServiceAccountName app"
      "workspaceServiceAccountName app' = workspaceServiceAccountName app"
      "routerContainer app' = routerContainer app" "routerVolumes app' = routerVolumes app"
    using assms by (simp_all add: appOwnerRef_def routerName_def routerServiceAccountName_def
        workspaceServiceAccountName_def routerContainer_def fun_eq_iff routerArgs_def routerMounts_def routerVolumes_def)
  with assms show ?thesis
    by (simp add: routerObjects_def RenderWorkspaceServiceAccount_def RenderRouterServiceAccount_def
        RenderRouterRoleBinding_def RenderRouterService_def RenderRouterNetworkPolicy_def RenderRouterDeployment_def
        routerImageOf_def Let_def)
qed

text \<open>Each CreateOrUpdate sends the rendered object: what it leaves out of the desired one is empty there.\<close>

lemma sends_one: "e = errOf r \<Longrightarrow> sends [ob] e [Api (CreateOrUpdate ob) (errOf r)]"
  by (simp add: sends_def)

lemma sends_append: "sends obs None es \<Longrightarrow> sends obs' res es' \<Longrightarrow> sends (obs @ obs') res (es @ es')"
  by (auto simp: sends_def)

lemma sends_failed: "sends obs (Some e) es \<Longrightarrow> sends (obs @ obs') (Some e) es"
  by (auto simp: sends_def)

lemma obeys_orElse:
  assumes "obeys m P" and "\<And>e es. P (Some e) es \<Longrightarrow> Q (Some e) es"
    and "\<And>es. P None es \<Longrightarrow> obeys k (\<lambda>res es'. Q res (es @ es'))"
  shows "obeys (orElse m k) Q"
  unfolding orElse_def
  by (intro obeys_bind, rule obeys_mono [OF assms(1)], intro obeys_rules) (use assms(2,3) in auto)

lemma sends_orElse:
  "obeys m (sends obs) \<Longrightarrow> obeys k (sends obs') \<Longrightarrow> obeys (orElse m k) (sends (obs @ obs'))"
  by (erule obeys_orElse, erule sends_failed) (auto intro: sends_append elim: obeys_mono)

lemma sends_ensureServiceAccount:
  "saMeta sa = owned (saMeta sa) (named (saMeta sa)) \<Longrightarrow> obeys (ensureServiceAccount env sa) (sends [SaObj sa])"
  unfolding ensureServiceAccount_def by (intro obeys_rules) (cases sa; auto intro: sends_one)

lemma sends_ensureWorkspaceIdentity:
  "obeys (ensureWorkspaceIdentity env app) (sends [SaObj (RenderWorkspaceServiceAccount app)])"
  unfolding ensureWorkspaceIdentity_def
  by (rule sends_ensureServiceAccount) (simp add: RenderWorkspaceServiceAccount_def named_def owned_def)

lemma sends_ensureRouterIdentity:
  "obeys (ensureRouterIdentity env app)
     (sends [SaObj (RenderRouterServiceAccount app), RbObj (RenderRouterRoleBinding app)])"
proof -
  have "obeys (ensureServiceAccount env (RenderRouterServiceAccount app)) (sends [SaObj (RenderRouterServiceAccount app)])"
    by (rule sends_ensureServiceAccount) (simp add: RenderRouterServiceAccount_def named_def owned_def)
  then show ?thesis
    unfolding ensureRouterIdentity_def
    by (intro obeys_bind, elim obeys_mono, intro obeys_rules)
      (auto simp: RenderRouterRoleBinding_def named_def owned_def sends_def)
qed

lemma sends_ensureRouterWorkload:
  assumes "RenderRouterDeployment app img = Some dep"
  shows "obeys (ensureRouterWorkload env r app img)
     (sends [DepObj dep, SvcObj (RenderRouterService app),
        NpObj (RenderRouterNetworkPolicy app (appPodCIDR r) (appNodeCIDR r))])"
proof -
  have dep: "\<lparr>depMeta = owned (depMeta dep) (named (depMeta dep)), depSpec = depSpec dep, depReadyReplicas = 0\<rparr> = dep"
    using assms by (auto simp: RenderRouterDeployment_def named_def owned_def Let_def split: if_splits)
  have "obeys (ensureRouterDeployment env dep) (sends [DepObj dep])"
    unfolding ensureRouterDeployment_def by (intro obeys_rules) (auto simp: dep intro: sends_one)
  moreover have "obeys (ensureRouterService env (RenderRouterService app)) (sends [SvcObj (RenderRouterService app)])"
    unfolding ensureRouterService_def
    by (intro obeys_rules) (auto simp: RenderRouterService_def named_def owned_def Let_def intro: sends_one)
  moreover have "obeys (ensureRouterPolicy env (RenderRouterNetworkPolicy app pc nc))
      (sends [NpObj (RenderRouterNetworkPolicy app pc nc)])" for pc nc
    unfolding ensureRouterPolicy_def
    by (intro obeys_rules) (auto simp: RenderRouterNetworkPolicy_def named_def owned_def Let_def intro: sends_one)
  ultimately show ?thesis
    using sends_orElse [OF _ sends_orElse] unfolding ensureRouterWorkload_def assms by fastforce
qed

lemma setAppCondition_obeys:
  assumes "status_conditions (setStatusCondition env) (removeStatusCondition env) (findStatusCondition env)"
    and "ownConditionsOnly env b app" and "ct \<in> {CondConfigValid, CondWorkspaceLimitReached}"
  shows "obeys (setAppCondition env app ct st reason msg) (\<lambda>x es. es = [] \<and> sameApp b x \<and> ownConditionsOnly env b x \<and>
    conditionIs env x ct st \<and> (\<forall>t. t \<noteq> ct \<longrightarrow> (\<forall>st. conditionIs env x t st \<longleftrightarrow> conditionIs env app t st)))"
proof -
  note other = status_conditions.find_set_other [OF assms(1)]
  note same = status_conditions.find_set [OF assms(1)]
  obtain cs\<^sub>0 where b: "app = b\<lparr>appStatus := (appStatus b)\<lparr>apConditions := cs\<^sub>0\<rparr>\<rparr>"
    using assms(2) by (auto simp: ownConditionsOnly_def)
  show ?thesis
    unfolding setAppCondition_def
  proof (intro obeys_rules, goal_cases)
    case (1 cs c)
    let ?c = "\<lparr>cdType = ct, cdStatus = st, cdReason = reason, cdMessage = msg,
        cdObservedGeneration = Generation (appMeta app), cdLastTransitionTime = 0\<rparr>"
    have keep: "findStatusCondition env cs t = findStatusCondition env (apConditions (appStatus app)) t" if "t \<noteq> ct" for t
      using other [of t ?c "apConditions (appStatus app)" c] 1 that by simp
    have "\<exists>d. findStatusCondition env cs ct = Some d \<and> cdStatus d = st"
      using same [of "apConditions (appStatus app)" ?c c] 1 by auto
    with keep show ?case using assms(2,3) unfolding b by (auto simp: ownConditionsOnly_def conditionIs_def)
  qed
qed

lemma patchAppStatus_obeys:
  assumes "ownConditionsOnly env app x"
  shows "obeys (patchAppStatusIfChanged env x app)
    (\<lambda>res es. list_all (app_event env r app) es \<and> (res = None \<longrightarrow> statusStored env app x es) \<and>
       (\<forall>ob er. Api (CreateOrUpdate ob) er \<notin> set es))"
  unfolding patchAppStatusIfChanged_def
proof (intro obeys_rules, goal_cases)
  case 1
  then show ?case by (simp add: statusStored_def)
next
  case (2 res c)
  then show ?case by (cases res) (auto simp: statusStored_def intro: app_event.reported [OF assms])
qed


section \<open>A pass over an app\<close>

text \<open>What is promised of a pass that read \<open>app\<close>: its events, and, when it returns no error, that a
  status with the ConfigValid condition is stored, True only with every object of the router sent.\<close>

definition appPass :: "('s, 'x) env_scheme \<Rightarrow> appReconciler \<Rightarrow> perUserApp \<Rightarrow> error option \<Rightarrow> event list \<Rightarrow> bool" where
  "appPass env r app res es \<longleftrightarrow> list_all (app_event env r app) es \<and>
     (res = None \<longrightarrow> (\<exists>x. ownConditionsOnly env app x \<and> statusStored env app x es \<and>
        (conditionIs env x CondConfigValid ConditionFalse \<and> (\<forall>ob er. Api (CreateOrUpdate ob) er \<notin> set es) \<or>
         conditionIs env x CondConfigValid ConditionTrue \<and>
           (\<forall>ob \<in> set (routerObjects r app). Api (CreateOrUpdate ob) None \<in> set es))))"

lemma ownConditionsOnly_refl: "ownConditionsOnly env app app"
  by (simp add: ownConditionsOnly_def)

lemma appPass_prefix:
  assumes "list_all (\<lambda>e. app_event env r app e \<and> (\<forall>ob er. e \<noteq> Api (CreateOrUpdate ob) er)) es"
    and "appPass env r app res es'"
  shows "appPass env r app res (es @ es')"
proof -
  have "\<forall>ob er. Api (CreateOrUpdate ob) er \<notin> set es" using assms(1) by (auto simp: list_all_iff)
  moreover have "statusStored env app x es' \<Longrightarrow> statusStored env app x (es @ es')" for x
    by (auto simp: statusStored_def)
  moreover have "list_all (app_event env r app) es" using assms(1) by (auto simp: list_all_iff)
  ultimately show ?thesis using assms(2) unfolding appPass_def list_all_append set_append Un_iff by blast
qed

lemma reconcileInvalid_obeys:
  assumes "status_conditions (setStatusCondition env) (removeStatusCondition env) (findStatusCondition env)"
  shows "obeys (reconcileInvalid env r app verr) (appPass env r app)"
  unfolding reconcileInvalid_def
  by (intro obeys_bind, rule obeys_mono [OF setAppCondition_obeys [OF assms ownConditionsOnly_refl]], simp,
      rule obeys_mono [OF patchAppStatus_obeys [where r = r]])
    (auto simp: appPass_def)

lemma reportLimit_obeys:
  assumes "status_conditions (setStatusCondition env) (removeStatusCondition env) (findStatusCondition env)"
    and "ownConditionsOnly env app x"
  shows "obeys (reportLimit env x app) (\<lambda>res es. list_all (app_event env r app) es \<and>
    (res = None \<longrightarrow> (\<exists>y. ownConditionsOnly env app y \<and> statusStored env app y es \<and>
       (\<forall>st. conditionIs env y CondConfigValid st \<longleftrightarrow> conditionIs env x CondConfigValid st))))"
proof -
  have ne: "CondConfigValid \<noteq> CondWorkspaceLimitReached" by (simp add: puc_consts)
  have patch: "obeys (do { y \<leftarrow> setAppCondition env x CondWorkspaceLimitReached st reason msg;
        patchAppStatusIfChanged env y app }) (\<lambda>res es. list_all (app_event env r app) es \<and>
      (res = None \<longrightarrow> (\<exists>y. ownConditionsOnly env app y \<and> statusStored env app y es \<and>
         (\<forall>st. conditionIs env y CondConfigValid st \<longleftrightarrow> conditionIs env x CondConfigValid st))))" for st reason msg
    by (intro obeys_bind, rule obeys_mono [OF setAppCondition_obeys [OF assms]], simp,
        rule obeys_mono [OF patchAppStatus_obeys [where r = r]]) (use ne in auto)
  have read: "app_event env r app (Api (ListCall k ns ls) er)" for k ns ls er
    by (rule app_event.read) simp
  have report: "reportLimit env x app = do {
      l \<leftarrow> doList (workspaces env) KWorkspace (Namespace (appMeta x)) [(LabelApp, appName x)];
      case l of
        Inl e \<Rightarrow> ret (Some e)
      | Inr items \<Rightarrow> do {
          y \<leftarrow> setAppCondition env x CondWorkspaceLimitReached
                 (if appLimitReached x items then ConditionTrue else ConditionFalse)
                 (if appLimitReached x items then ''LimitReached'' else ''BelowLimit'')
                 (if appLimitReached x items then ''the fleet is at spec.limits.maxWorkspaces''
                  else ''the fleet is below spec.limits.maxWorkspaces'');
          patchAppStatusIfChanged env y app } }"
    unfolding reportLimit_def workspaceLimitReached_def
    by (rule state_ext) (simp split: sum.split prod.split)
  show ?thesis
    unfolding report
    by (intro obeys_bind obeys_doList obeys_case_sum obeys_return obeys_mono [OF patch [unfolded]]) (auto simp: read statusStored_def)
qed

lemma recordWarnings_obeys:
  assumes "validApp env r app" and "ValidateApp app = Inr ws" and "set ws' \<subseteq> set ws"
  shows "emits (\<lambda>e. app_event env r app e \<and> (\<forall>ob er. e \<noteq> Api (CreateOrUpdate ob) er)) (recordWarnings r ws')"
  using assms(3) by (induction ws') (auto intro!: emits_rules app_event.warned [OF assms(1,2)])

lemma sends_events:
  "validApp env r app \<Longrightarrow> set obs \<subseteq> set (routerObjects r app) \<Longrightarrow> sends obs res es \<Longrightarrow> list_all (app_event env r app) es"
  by (fastforce simp: sends_def list_all_iff intro: app_event.ensured)

text \<open>The status of the app plays no part in what is rendered.\<close>

lemma ensureAll_obeys:
  assumes "validApp env r app" and "sameApp app x"
  shows "obeys (orElse (ensureWorkspaceIdentity env x) (orElse (ensureRouterIdentity env x)
      (ensureRouterWorkload env r x (routerImageOf r x)))) (sends (routerObjects r app))"
proof -
  have "routerImageOf r x \<noteq> []"
    using assms routerImageOf_status [OF assms(2)] by (simp add: validApp_def)
  then have "RenderRouterDeployment x (routerImageOf r x) \<noteq> None"
    by (simp add: RenderRouterDeployment_def Let_def)
  then obtain dep where dep: "RenderRouterDeployment x (routerImageOf r x) = Some dep" by blast
  have "obeys (orElse (ensureWorkspaceIdentity env x) (orElse (ensureRouterIdentity env x)
      (ensureRouterWorkload env r x (routerImageOf r x)))) (sends (routerObjects r x))"
    by (rule obeys_mono [OF sends_orElse [OF sends_ensureWorkspaceIdentity
            sends_orElse [OF sends_ensureRouterIdentity sends_ensureRouterWorkload [OF dep]]]])
      (auto simp: sends_def routerObjects_def dep)
  then show ?thesis using routerObjects_status [OF assms(2)] by simp
qed

lemma orElse_assoc: "orElse (orElse a b) c = orElse a (orElse b c)"
  unfolding orElse_def by (rule state_ext) (auto split: option.split prod.split)

lemma reconcileValid_obeys:
  assumes "status_conditions (setStatusCondition env) (removeStatusCondition env) (findStatusCondition env)"
    and "validApp env r app" and "ValidateApp app = Inr ws"
  shows "obeys (reconcileValid env r app ws) (appPass env r app)"
proof -
  have "obeys (orElse (orElse (ensureWorkspaceIdentity env x) (orElse (ensureRouterIdentity env x)
        (ensureRouterWorkload env r x (routerImageOf r x)))) (reportLimit env x app)) (appPass env r app)"
    if x: "sameApp app x" "ownConditionsOnly env app x" "conditionIs env x CondConfigValid ConditionTrue" for x
  proof (rule obeys_orElse [OF ensureAll_obeys [OF assms(2) x(1)]])
    fix e es assume "sends (routerObjects r app) (Some e) es"
    then show "appPass env r app (Some e) es" using sends_events [OF assms(2) subset_refl] by (simp add: appPass_def)
  next
    fix es assume "sends (routerObjects r app) None es"
    then show "obeys (reportLimit env x app) (\<lambda>res es'. appPass env r app res (es @ es'))"
      using sends_events [OF assms(2) subset_refl] x(3)
      by (intro obeys_mono [OF reportLimit_obeys [OF assms(1) x(2)]]) (auto simp: appPass_def sends_def statusStored_def)
  qed
  then have ensure: "obeys (orElse (ensureWorkspaceIdentity env x) (orElse (ensureRouterIdentity env x)
      (orElse (ensureRouterWorkload env r x (routerImageOf r x)) (reportLimit env x app)))) (appPass env r app)"
    if "sameApp app x" "ownConditionsOnly env app x" "conditionIs env x CondConfigValid ConditionTrue" for x
    using that by (simp add: orElse_assoc)
  show ?thesis
    unfolding reconcileValid_def
    by (intro obeys_bind, intro obeys_mono [OF setAppCondition_obeys [OF assms(1) ownConditionsOnly_refl]], simp,
        intro obeys_bind, intro obeys_mono [OF recordWarnings_obeys [OF assms(2,3) subset_refl, unfolded emits_def]],
        rule obeys_mono [OF ensure])
      (auto intro: appPass_prefix)
qed

lemma validate_obeys:
  "obeys (validate env r app) (\<lambda>v es. list_all (\<lambda>e. \<exists>c er. e = Api c er \<and> is_read c) es \<and>
     (\<forall>ws. v = Inr ws \<longrightarrow> validApp env r app \<and> ValidateApp app = Inr ws))"
  unfolding validate_def ValidateStorageClass_def
  by (intro obeys_rules) (auto simp: validApp_def split: if_splits option.splits)

lemma reconcile_read_app:
  assumes "status_conditions (setStatusCondition env) (removeStatusCondition env) (findStatusCondition env)"
  shows "obeys (do { v \<leftarrow> validate env r app; case v of
             Inl verr \<Rightarrow> reconcileInvalid env r app verr
           | Inr warnings \<Rightarrow> reconcileValid env r app warnings }) (appPass env r app)"
proof (intro obeys_bind, rule obeys_mono [OF validate_obeys], intro obeys_case_sum, goal_cases)
  case (1 v es verr)
  then show ?case
    by (intro obeys_mono [OF reconcileInvalid_obeys [OF assms]] appPass_prefix)
      (auto simp: list_all_iff intro: app_event.read)
next
  case (2 v es ws)
  then show ?case
    by (intro obeys_mono [OF reconcileValid_obeys [OF assms]] appPass_prefix)
      (auto simp: list_all_iff intro: app_event.read)
qed

text \<open>Claim C15. A reconcile pass that read the app only reads, sends the rendered objects of the router
  and records the warnings, the last two only for an app that passed every check, and patches a status in which
  nothing but the ConfigValid and WorkspaceLimitReached conditions may differ from the status read: it never
  creates, patches or deletes a Workspace and a condition of another owner survives. When it returns without an
  error the status is stored, with ConfigValid False and no object touched, or with ConfigValid True and every
  object of the router accepted by the API server.\<close>

theorem app_reconcile_contract:
  assumes "status_conditions (setStatusCondition env) (removeStatusCondition env) (findStatusCondition env)"
    and "fst (rGet (perUserApps env) req (cluster w)) = Inr app"
    and "run_state (ReconcileApp env r req) w = (res, w')"
  shows "\<exists>es. trace w' = trace w @ Api (Get KPerUserApp req) None # es \<and> appPass env r app res es"
proof -
  let ?k = "do { v \<leftarrow> validate env r app; case v of
             Inl verr \<Rightarrow> reconcileInvalid env r app verr
           | Inr warnings \<Rightarrow> reconcileValid env r app warnings }"
  let ?w = "w\<lparr>cluster := snd (rGet (perUserApps env) req (cluster w)), trace := trace w @ [Api (Get KPerUserApp req) None]\<rparr>"
  have "run_state ?k ?w = (res, w')"
    using assms(2,3) by (simp add: ReconcileApp_def doGet_def)
  with obeysD [OF reconcile_read_app [OF assms(1)]] show ?thesis by fastforce
qed

text \<open>A cluster in which the app, its StorageClass and an empty fleet are found.\<close>

definition appEnv :: "(gotime \<times> workspace list) env" where
  "appEnv = sampleEnv\<lparr>storageClasses := refusing\<lparr>rGet := \<lambda>k s.
     (Inr \<lparr>scMeta = zeroMeta\<lparr>Name := snd k\<rparr>, scReclaimPolicy = Some ''Retain''\<rparr>, s)\<rparr>\<rparr>"

definition sampleAppReconciler :: appReconciler where
  "sampleAppReconciler = \<lparr>RouterImage = ''router:1'', appPodCIDR = ''10.0.0.0/8'', appNodeCIDR = ''192.168.0.0/16'',
     goQuote = \<lambda>s. s, apiErrorText = \<lambda>_. []\<rparr>"

lemma appEnv_conditions:
  "status_conditions (setStatusCondition appEnv) (removeStatusCondition appEnv) (findStatusCondition appEnv)"
  using list_conditions.status_conditions_axioms [where clk = fst] by (simp add: appEnv_def sampleEnv_def)

theorem app_reconcile_contract_witness:
  "fst (run_state (ReconcileApp appEnv sampleAppReconciler (''ns'', ''app'')) \<lparr>cluster = (0, []), trace = []\<rparr>) = None \<and>
   validApp appEnv sampleAppReconciler sampleApp \<and>
   (\<exists>es. trace (snd (run_state (ReconcileApp appEnv sampleAppReconciler (''ns'', ''app'')) \<lparr>cluster = (0, []), trace = []\<rparr>)) =
      Api (Get KPerUserApp (''ns'', ''app'')) None # es \<and> appPass appEnv sampleAppReconciler sampleApp None es)"
proof -
  let ?w = "\<lparr>cluster = (0, []), trace = []\<rparr>"
  have get: "fst (rGet (perUserApps appEnv) (''ns'', ''app'') (cluster ?w)) = Inr sampleApp"
    by (simp add: appEnv_def sampleEnv_def)
  have valid: "validApp appEnv sampleAppReconciler sampleApp"
    by (simp add: validApp_def sampleApp_valid routerImageOf_def sampleAppReconciler_def appEnv_def)
  have check: "run_state (validate appEnv sampleAppReconciler sampleApp) w =
      (Inr [EmptyWorkspaceEgress], w\<lparr>trace := trace w @ [Api (Get KStorageClass ([], stStorageClassName (spStorage (appSpec sampleApp)))) None]\<rparr>)" for w
    by (simp add: validate_def sampleApp_valid ValidateStorageClass_def client_defs appEnv_def routerImageOf_def Let_def
        sampleAppReconciler_def)
  have ensured: "fst (run_state (reconcileValid appEnv sampleAppReconciler sampleApp [EmptyWorkspaceEgress]) w) = None" for w
    by (simp add: reconcileValid_def setAppCondition_def sampleAppReconciler_def orElse_def
        ensureWorkspaceIdentity_def ensureServiceAccount_def ensureRouterIdentity_def ensureRouterWorkload_def
        ensureRouterDeployment_def ensureRouterService_def ensureRouterPolicy_def reportLimit_def workspaceLimitReached_def
        patchAppStatusIfChanged_def RenderRouterDeployment_def routerImageOf_def Let_def client_defs appEnv_def sample_env_defs)
  have none: "fst (run_state (ReconcileApp appEnv sampleAppReconciler (''ns'', ''app'')) ?w) = None"
    using get by (simp add: ReconcileApp_def check ensured doGet_def)
  with valid show ?thesis
    using app_reconcile_contract [OF appEnv_conditions get prod.collapse [symmetric], of sampleAppReconciler] by simp
qed

end
