(* ===== verification/Metrics.thy ===== *)
theory Metrics
  imports Cluster
begin

text \<open>
  \<open>internal/metrics/metrics.go\<close>: the fifteen collectors the operator registers and the functions that
  update them.

  The collectors themselves are the Prometheus client library's. The library is the record
  \<open>prometheus\<close> of the operations the package calls, over abstract vector types, and the locale
  \<open>prometheus_laws\<close> states what the library documents of them; it is interpreted on vectors that are
  maps from label values to samples. A float64 sample is modelled by the integer it holds (all samples
  written are counts, Unix seconds, or 0 and 1, all exact in a float64), an observed latency by its duration.

  The trace of a handler names each update as a \<open>metric\<close>; \<open>applyMetric\<close> performs it, so the registry after a
  handler is the fold over the handler's trace.
\<close>

section \<open>The client library\<close>

type_synonym labels = "string list"

record ('g, 'c, 'h) prometheus =
  gaugeSet :: "'g \<Rightarrow> labels \<Rightarrow> int \<Rightarrow> 'g"
  gaugeDelete :: "'g \<Rightarrow> labels \<Rightarrow> 'g"
  gaugeReset :: "'g \<Rightarrow> 'g"
  gaugeValue :: "'g \<Rightarrow> labels \<Rightarrow> int option"
  counterInc :: "'c \<Rightarrow> labels \<Rightarrow> 'c"
  counterReset :: "'c \<Rightarrow> 'c"
  counterValue :: "'c \<Rightarrow> labels \<Rightarrow> int"
  histObserve :: "'h \<Rightarrow> labels \<Rightarrow> duration \<Rightarrow> 'h"
  histReset :: "'h \<Rightarrow> 'h"
  histCount :: "'h \<Rightarrow> labels \<Rightarrow> int"

section \<open>The collectors\<close>

record ('g, 'c, 'h) registry =
  workspacesByPhase :: 'g
  workspacePVCsTotal :: 'g
  workspaceUserInfo :: 'g
  workspaceStartsTotal :: 'c
  workspaceStartSeconds :: 'h
  reconcileErrorsTotal :: 'c
  startFailuresTotal :: 'c
  workspaceReapedTotal :: 'c
  reaperLastCompletion :: 'g
  routerRequestsTotal :: 'c
  routerIdentityRejectedTotal :: 'c
  routerRequestRejectedTotal :: 'c
  routerOpenUpgradedConnections :: 'g
  watchedNamespaceReady :: 'g
  controllerLeader :: 'g

definition boolToFloat :: "bool \<Rightarrow> int" where
  "boolToFloat b = (if b then 1 else 0)"

section \<open>The update functions\<close>

definition setWorkspacesByPhase where
  "setWorkspacesByPhase P ns app p n reg =
     reg\<lparr>workspacesByPhase := gaugeSet P (workspacesByPhase reg) [ns, app, p] n\<rparr>"

definition setWorkspacePVCsTotal where
  "setWorkspacePVCsTotal P ns app n reg =
     reg\<lparr>workspacePVCsTotal := gaugeSet P (workspacePVCsTotal reg) [ns, app] n\<rparr>"

definition setWorkspaceUserInfo where
  "setWorkspaceUserInfo P ns app userKey userDisplay present reg =
     reg\<lparr>workspaceUserInfo := gaugeSet P (workspaceUserInfo reg) [ns, app, userKey, userDisplay] (boolToFloat present)\<rparr>"

definition deleteWorkspaceUserInfo where
  "deleteWorkspaceUserInfo P ns app userKey userDisplay reg =
     reg\<lparr>workspaceUserInfo := gaugeDelete P (workspaceUserInfo reg) [ns, app, userKey, userDisplay]\<rparr>"

definition recordWorkspaceStart where
  "recordWorkspaceStart P ns app res reg =
     reg\<lparr>workspaceStartsTotal := counterInc P (workspaceStartsTotal reg) [ns, app, res]\<rparr>"

definition observeWorkspaceStartSeconds where
  "observeWorkspaceStartSeconds P ns app d reg =
     reg\<lparr>workspaceStartSeconds := histObserve P (workspaceStartSeconds reg) [ns, app] d\<rparr>"

definition recordReconcileError where
  "recordReconcileError P ns app k reg =
     reg\<lparr>reconcileErrorsTotal := counterInc P (reconcileErrorsTotal reg) [ns, app, k]\<rparr>"

definition recordStartFailureCounter where
  "recordStartFailureCounter P ns app reason reg =
     reg\<lparr>startFailuresTotal := counterInc P (startFailuresTotal reg) [ns, app, reason]\<rparr>"

definition recordWorkspaceReaped where
  "recordWorkspaceReaped P ns app reason reg =
     reg\<lparr>workspaceReapedTotal := counterInc P (workspaceReapedTotal reg) [ns, app, reason]\<rparr>"

definition setReaperLastCompletion where
  "setReaperLastCompletion P ns app unixSeconds reg =
     reg\<lparr>reaperLastCompletion := gaugeSet P (reaperLastCompletion reg) [ns, app] unixSeconds\<rparr>"

definition recordRouterRequest where
  "recordRouterRequest P ns app code reg =
     reg\<lparr>routerRequestsTotal := counterInc P (routerRequestsTotal reg) [ns, app, code]\<rparr>"

definition recordIdentityRejection where
  "recordIdentityRejection P ns app r reg =
     reg\<lparr>routerIdentityRejectedTotal := counterInc P (routerIdentityRejectedTotal reg) [ns, app, r]\<rparr>"

definition recordRequestRejection where
  "recordRequestRejection P ns app reason reg =
     reg\<lparr>routerRequestRejectedTotal := counterInc P (routerRequestRejectedTotal reg) [ns, app, reason]\<rparr>"

definition setOpenUpgradedConnections where
  "setOpenUpgradedConnections P ns app podName n reg =
     reg\<lparr>routerOpenUpgradedConnections := gaugeSet P (routerOpenUpgradedConnections reg) [ns, app, podName] n\<rparr>"

definition setWatchedNamespaceReady where
  "setWatchedNamespaceReady P ns ready reg =
     reg\<lparr>watchedNamespaceReady := gaugeSet P (watchedNamespaceReady reg) [ns] (boolToFloat ready)\<rparr>"

definition setLeader where
  "setLeader P podName leader reg =
     reg\<lparr>controllerLeader := gaugeSet P (controllerLeader reg) [podName] (boolToFloat leader)\<rparr>"

definition resetForTest :: "('g, 'c, 'h) prometheus \<Rightarrow> ('g, 'c, 'h) registry \<Rightarrow> ('g, 'c, 'h) registry" where
  "resetForTest P reg =
     \<lparr>workspacesByPhase = gaugeReset P (workspacesByPhase reg),
      workspacePVCsTotal = gaugeReset P (workspacePVCsTotal reg),
      workspaceUserInfo = gaugeReset P (workspaceUserInfo reg),
      workspaceStartsTotal = counterReset P (workspaceStartsTotal reg),
      workspaceStartSeconds = histReset P (workspaceStartSeconds reg),
      reconcileErrorsTotal = counterReset P (reconcileErrorsTotal reg),
      startFailuresTotal = counterReset P (startFailuresTotal reg),
      workspaceReapedTotal = counterReset P (workspaceReapedTotal reg),
      reaperLastCompletion = gaugeReset P (reaperLastCompletion reg),
      routerRequestsTotal = counterReset P (routerRequestsTotal reg),
      routerIdentityRejectedTotal = counterReset P (routerIdentityRejectedTotal reg),
      routerRequestRejectedTotal = counterReset P (routerRequestRejectedTotal reg),
      routerOpenUpgradedConnections = gaugeReset P (routerOpenUpgradedConnections reg),
      watchedNamespaceReady = gaugeReset P (watchedNamespaceReady reg),
      controllerLeader = gaugeReset P (controllerLeader reg)\<rparr>"

lemmas metric_updates = setWorkspacesByPhase_def setWorkspacePVCsTotal_def setWorkspaceUserInfo_def
  deleteWorkspaceUserInfo_def recordWorkspaceStart_def observeWorkspaceStartSeconds_def recordReconcileError_def
  recordStartFailureCounter_def recordWorkspaceReaped_def setReaperLastCompletion_def recordRouterRequest_def
  recordIdentityRejection_def recordRequestRejection_def setOpenUpgradedConnections_def
  setWatchedNamespaceReady_def setLeader_def

text \<open>The update a trace event stands for.\<close>

fun applyMetric :: "('g, 'c, 'h) prometheus \<Rightarrow> metric \<Rightarrow> ('g, 'c, 'h) registry \<Rightarrow> ('g, 'c, 'h) registry" where
  "applyMetric P (SetWorkspacesByPhase ns app p n) = setWorkspacesByPhase P ns app p n"
| "applyMetric P (SetWorkspacePVCsTotal ns app n) = setWorkspacePVCsTotal P ns app n"
| "applyMetric P (SetWorkspaceUserInfo ns app u d b) = setWorkspaceUserInfo P ns app u d b"
| "applyMetric P (DeleteWorkspaceUserInfo ns app u d) = deleteWorkspaceUserInfo P ns app u d"
| "applyMetric P (RecordWorkspaceStart ns app r) = recordWorkspaceStart P ns app r"
| "applyMetric P (ObserveWorkspaceStartSeconds ns app d) = observeWorkspaceStartSeconds P ns app d"
| "applyMetric P (RecordReconcileError ns app k) = recordReconcileError P ns app k"
| "applyMetric P (RecordStartFailureMetric ns app r) = recordStartFailureCounter P ns app r"
| "applyMetric P (RecordWorkspaceReaped ns app r) = recordWorkspaceReaped P ns app r"
| "applyMetric P (SetReaperLastCompletion ns app n) = setReaperLastCompletion P ns app n"
| "applyMetric P (RecordRouterRequest ns app c) = recordRouterRequest P ns app c"
| "applyMetric P (RecordIdentityRejection ns app r) = recordIdentityRejection P ns app r"
| "applyMetric P (RecordRequestRejection ns app r) = recordRequestRejection P ns app r"
| "applyMetric P (SetOpenUpgradedConnections ns app p n) = setOpenUpgradedConnections P ns app p n"
| "applyMetric P (SetWatchedNamespaceReady ns b) = setWatchedNamespaceReady P ns b"
| "applyMetric P (SetLeader p b) = setLeader P p b"

fun applyEvent :: "('g, 'c, 'h) prometheus \<Rightarrow> event \<Rightarrow> ('g, 'c, 'h) registry \<Rightarrow> ('g, 'c, 'h) registry" where
  "applyEvent P (Metric mt) reg = applyMetric P mt reg"
| "applyEvent P _ reg = reg"

text \<open>The registry after a trace.\<close>

definition afterTrace :: "('g, 'c, 'h) prometheus \<Rightarrow> event list \<Rightarrow> ('g, 'c, 'h) registry \<Rightarrow> ('g, 'c, 'h) registry" where
  "afterTrace P es reg = fold (applyEvent P) es reg"

lemma afterTrace_simps [simp]:
  "afterTrace P [] reg = reg"
  "afterTrace P (e # es) reg = afterTrace P es (applyEvent P e reg)"
  "afterTrace P (es @ es') reg = afterTrace P es' (afterTrace P es reg)"
  by (simp_all add: afterTrace_def)

text \<open>A reading that each event \<open>x\<close> raises by one counts the occurrences of \<open>x\<close>; one that no event of the trace
  changes is kept.\<close>

lemma afterTrace_count:
  fixes f :: "('g, 'c, 'h) registry \<Rightarrow> int"
  assumes "\<And>mt reg. f (applyMetric P mt reg) = f reg + (if Metric mt = x then 1 else 0)" and "x = Metric mx"
  shows "f (afterTrace P es reg) = f reg + int (count_list es x)"
proof (induction es arbitrary: reg)
  case (Cons e es)
  have "f (applyEvent P e reg) = f reg + (if e = x then 1 else 0)" using assms by (cases e) auto
  with Cons show ?case by simp
qed simp

lemma afterTrace_kept:
  assumes "\<And>mt reg. Metric mt \<in> set es \<Longrightarrow> f (applyMetric P mt reg) = f reg"
  shows "f (afterTrace P es reg) = f reg"
  using assms
proof (induction es arbitrary: reg)
  case (Cons e es)
  have "f (applyEvent P e reg) = f reg" using Cons.prems by (cases e) auto
  with Cons show ?case by simp
qed simp

section \<open>What the library promises\<close>

text \<open>A gauge reads what was last set for its label values until it is deleted or reset; a counter grows by one
  for the label values incremented; no operation disturbs another row.\<close>

locale prometheus_laws =
  fixes P :: "('g, 'c, 'h) prometheus"
  assumes gauge_set: "gaugeValue P (gaugeSet P g ls n) ls' = (if ls' = ls then Some n else gaugeValue P g ls')"
    and gauge_delete: "gaugeValue P (gaugeDelete P g ls) ls' = (if ls' = ls then None else gaugeValue P g ls')"
    and gauge_reset: "gaugeValue P (gaugeReset P g) ls = None"
    and counter_inc: "counterValue P (counterInc P c ls) ls' = counterValue P c ls' + (if ls' = ls then 1 else 0)"
    and counter_reset: "counterValue P (counterReset P c) ls = 0"
    and hist_observe: "histCount P (histObserve P h ls d) ls' = histCount P h ls' + (if ls' = ls then 1 else 0)"
    and hist_reset: "histCount P (histReset P h) ls = 0"
begin

lemmas laws = gauge_set gauge_delete gauge_reset counter_inc counter_reset hist_observe hist_reset

text \<open>A counter after a trace is its value before and one for each event that names its row.\<close>

lemma routerRequests_after:
  "counterValue P (routerRequestsTotal (afterTrace P es reg)) [ns, app, code] =
     counterValue P (routerRequestsTotal reg) [ns, app, code] +
       int (count_list es (Metric (RecordRouterRequest ns app code)))"
  by (rule afterTrace_count [OF _ refl], case_tac mt) (auto simp: metric_updates laws)

lemma identityRejected_after:
  "counterValue P (routerIdentityRejectedTotal (afterTrace P es reg)) [ns, app, r] =
     counterValue P (routerIdentityRejectedTotal reg) [ns, app, r] +
       int (count_list es (Metric (RecordIdentityRejection ns app r)))"
  by (rule afterTrace_count [OF _ refl], case_tac mt) (auto simp: metric_updates laws)

lemma requestRejected_after:
  "counterValue P (routerRequestRejectedTotal (afterTrace P es reg)) [ns, app, r] =
     counterValue P (routerRequestRejectedTotal reg) [ns, app, r] +
       int (count_list es (Metric (RecordRequestRejection ns app r)))"
  by (rule afterTrace_count [OF _ refl], case_tac mt) (auto simp: metric_updates laws)

text \<open>A gauge row keeps its value through every event that does not write the row.\<close>

lemma phaseGauge_kept:
  assumes "\<forall>n. Metric (SetWorkspacesByPhase ns app p n) \<notin> set es"
  shows "gaugeValue P (workspacesByPhase (afterTrace P es reg)) [ns, app, p] =
    gaugeValue P (workspacesByPhase reg) [ns, app, p]"
  by (rule afterTrace_kept, case_tac mt) (use assms in \<open>auto simp: metric_updates laws\<close>)

end

text \<open>Vectors as functions from label values; a histogram is the number of its samples.\<close>

definition mapPrometheus :: "(labels \<Rightarrow> int option, labels \<Rightarrow> int, labels \<Rightarrow> int) prometheus" where
  "mapPrometheus =
     \<lparr>gaugeSet = \<lambda>g ls n. g(ls \<mapsto> n), gaugeDelete = \<lambda>g ls. g(ls := None), gaugeReset = \<lambda>_ _. None,
      gaugeValue = \<lambda>g. g,
      counterInc = \<lambda>c ls. c(ls := c ls + 1), counterReset = \<lambda>_ _. 0, counterValue = \<lambda>c. c,
      histObserve = \<lambda>h ls d. h(ls := h ls + 1), histReset = \<lambda>_ _. 0, histCount = \<lambda>h. h\<rparr>"

interpretation map_prometheus: prometheus_laws mapPrometheus
  by unfold_locales (auto simp: mapPrometheus_def)

end
