(* ===== verification/Metrics_Facts.thy ===== *)
theory Metrics_Facts
  imports Metrics Workspace_Controller Router_Server
begin

text \<open>
  What the series say of the program: the gauges of an app's fleet after a refresh, and how the router
  accounts for a request. Both are read off the registry after the handler's trace, for every client
  library that satisfies the laws of \<open>prometheus_laws\<close>.
\<close>

section \<open>The fleet\<close>

definition inPhase :: "Phase \<Rightarrow> workspace list \<Rightarrow> int" where
  "inPhase p items = int (length (filter (\<lambda>w. phase w = p) items))"

definition reportedPhases :: "Phase list" where
  "reportedPhases = [PhasePending, PhaseStarting, PhaseReady, PhaseIdle, PhaseFailed]"

definition phaseEvents :: "string \<Rightarrow> string \<Rightarrow> workspace list \<Rightarrow> event list" where
  "phaseEvents ns app items =
     map (\<lambda>p. Metric (SetWorkspacesByPhase ns app (phaseString p) (inPhase p items))) reportedPhases"

lemma run_setPhaseGauges:
  "run_state (setPhaseGauges ns app items ps) w = ((), w\<lparr>trace := trace w @
     map (\<lambda>p. Metric (SetWorkspacesByPhase ns app (phaseString p) (inPhase p items))) ps\<rparr>)"
  by (induction ps arbitrary: w) (simp_all add: record_metric_def inPhase_def)

lemma phaseEvents_registry:
  assumes "prometheus_laws P"
  shows "workspacesByPhase (afterTrace P (phaseEvents ns app items) reg) =
      fold (\<lambda>p g. gaugeSet P g [ns, app, phaseString p] (inPhase p items)) reportedPhases (workspacesByPhase reg)"
    and "workspacePVCsTotal (afterTrace P (phaseEvents ns app items) reg) = workspacePVCsTotal reg"
  by (simp_all add: phaseEvents_def reportedPhases_def metric_updates)

text \<open>The registry after a successful refresh from the listings \<open>items\<close> and \<open>pvcs\<close>.\<close>

definition fleetShown ::
    "('g, 'c, 'h) prometheus \<Rightarrow> string \<Rightarrow> string \<Rightarrow> workspace list \<Rightarrow> persistentVolumeClaim list \<Rightarrow>
     ('g, 'c, 'h) registry \<Rightarrow> ('g, 'c, 'h) registry \<Rightarrow> bool" where
  "fleetShown P ns app items pvcs reg reg' \<longleftrightarrow>
     (\<forall>p \<in> set reportedPhases. gaugeValue P (workspacesByPhase reg') [ns, app, phaseString p] = Some (inPhase p items)) \<and>
     gaugeValue P (workspacePVCsTotal reg') [ns, app] = Some (int (length pvcs)) \<and>
     (\<forall>ns' app' s. (ns', app') \<noteq> (ns, app) \<longrightarrow>
        gaugeValue P (workspacesByPhase reg') [ns', app', s] = gaugeValue P (workspacesByPhase reg) [ns', app', s] \<and>
        gaugeValue P (workspacePVCsTotal reg') [ns', app'] = gaugeValue P (workspacePVCsTotal reg) [ns', app'])"

text \<open>A refresh of the gauges whose two listings are answered leaves, for the app refreshed, exactly the
  number of listed workspaces in each of the five phases and the number of listed claims, whatever the rows held
  before, and does not touch a row of another app or of an app of the same name in another namespace.\<close>

lemma gauges_describe_fleet:
  assumes "prometheus_laws P"
    and "rList (workspaces env) ns [(LabelApp, app)] (cluster w) = (Inr items, c)"
    and "rList (claims env) ns [(LabelApp, app)] c = (Inr pvcs, c')"
    and "run_state (refreshGauges env ns app) w = (res, w')"
  shows "res = None \<and> (\<exists>es. trace w' = trace w @ es \<and> (\<forall>reg. fleetShown P ns app items pvcs reg (afterTrace P es reg)))"
proof -
  note laws = prometheus_laws.laws [OF assms(1)]
  let ?es = "Api (ListCall KWorkspace ns [(LabelApp, app)]) None # phaseEvents ns app items @
      [Api (ListCall KPVC ns [(LabelApp, app)]) None, Metric (SetWorkspacePVCsTotal ns app (int (length pvcs)))]"
  have "fleetShown P ns app items pvcs reg (afterTrace P ?es reg)" for reg
    using phaseEvents_registry [OF assms(1), of ns app items]
    by (auto simp: fleetShown_def metric_updates reportedPhases_def laws)
  moreover have "res = None" "trace w' = trace w @ ?es"
    using assms(2-4)
    by (auto simp: refreshGauges_def client_defs run_setPhaseGauges phaseEvents_def reportedPhases_def inPhase_def)
  ultimately show ?thesis by blast
qed

lemma gauges_describe_fleet_witness:
  "\<exists>es. trace (snd (run_state (refreshGauges sampleEnv ''ns'' ''app'')
        \<lparr>cluster = (0, [readyWs ''u1'' 0, idleWs ''u2'' 0, readyWs ''u3'' 0]), trace = []\<rparr>)) = es \<and>
     (\<forall>reg. gaugeValue mapPrometheus (workspacesByPhase (afterTrace mapPrometheus es reg)) [''ns'', ''app'', ''Ready''] = Some 2)"
proof -
  let ?items = "[readyWs ''u1'' 0, idleWs ''u2'' 0, readyWs ''u3'' 0]"
  have "\<exists>es. trace (snd (run_state (refreshGauges sampleEnv ''ns'' ''app'') \<lparr>cluster = (0, ?items), trace = []\<rparr>)) = [] @ es \<and>
      (\<forall>reg. fleetShown mapPrometheus ''ns'' ''app'' ?items [] reg (afterTrace mapPrometheus es reg))"
    using gauges_describe_fleet [OF map_prometheus.prometheus_laws_axioms, of sampleEnv "''ns''" "''app''"
        "\<lparr>cluster = (0, ?items), trace = []\<rparr>" ?items "(0, ?items)" "[]" "(0, ?items)"]
    by (simp add: sampleEnv_def refusing_def prod_eq_iff)
  then show ?thesis
    by (auto simp: fleetShown_def reportedPhases_def inPhase_def sample_defs)
qed

text \<open>The path of a deleted workspace does not refresh: the rows that counted it stay until another
  workspace of the app is reconciled.\<close>

lemma deletion_leaves_gauges:
  assumes "prometheus_laws P"
  shows "obeys (reconcileDelete env ws) (\<lambda>_ es. \<forall>reg ns app s.
     gaugeValue P (workspacesByPhase (afterTrace P es reg)) [ns, app, s] = gaugeValue P (workspacesByPhase reg) [ns, app, s])"
  unfolding reconcileDelete_def by (intro obeys_rules) (auto simp: metric_updates)

section \<open>The router's accounting of a request\<close>

text \<open>The events of the three counters the router owns.\<close>

fun accountEvent :: "event \<Rightarrow> bool" where
  "accountEvent (Metric (RecordRouterRequest _ _ _)) = True"
| "accountEvent (Metric (RecordIdentityRejection _ _ _)) = True"
| "accountEvent (Metric (RecordRequestRejection _ _ _)) = True"
| "accountEvent _ = False"

text \<open>The account of an answered request: its rejection, if it was rejected for its identity or refused with a
  reason, then its code.\<close>

definition rejectReasons :: "string list" where
  "rejectReasons = [RejectHoldExpired, RejectBackoff, RejectRWOPConflict, RejectWorkspaceLimit, RejectTerminating]"

definition rejectionOf :: "config \<Rightarrow> request \<Rightarrow> response \<Rightarrow> event list" where
  "rejectionOf cfg req resp =
     (if \<not> checkCallerAuth cfg (rqHeader req) then []
      else case requestIdentity cfg req of
        Inl rej \<Rightarrow> [Metric (RecordIdentityRejection (cfgNamespace cfg) (cfgApp cfg) (reasonString (rejReason rej)))]
      | Inr _ \<Rightarrow> (case resp of
            Rejected code reason \<Rightarrow>
              if code = StatusServiceUnavailable
              then [Metric (RecordRequestRejection (cfgNamespace cfg) (cfgApp cfg) reason)] else []
          | _ \<Rightarrow> []))"

definition account :: "config \<Rightarrow> request \<Rightarrow> response \<Rightarrow> event list" where
  "account cfg req resp =
     (if resp = Holding then []
      else rejectionOf cfg req resp @
        [Metric (RecordRouterRequest (cfgNamespace cfg) (cfgApp cfg) (Itoa (responseCode resp)))])"

definition accounted :: "config \<Rightarrow> request \<Rightarrow> response \<times> routerState \<Rightarrow> event list \<Rightarrow> bool" where
  "accounted cfg req x es \<longleftrightarrow> filter accountEvent es = account cfg req (fst x) \<and>
     (\<forall>reason. fst x = Rejected StatusServiceUnavailable reason \<longrightarrow> reason \<in> set rejectReasons)"

text \<open>Handlers that leave the three counters alone.\<close>

abbreviation uncounted :: "('s, 'a) m \<Rightarrow> bool" where
  "uncounted m \<equiv> emits (\<lambda>e. \<not> accountEvent e) m"

lemma obeys_bind_uncounted:
  assumes "uncounted m" and "\<And>x. obeys (f x) (accounted cfg req)"
  shows "obeys (State_Monad.bind m f) (accounted cfg req)"
proof (rule obeys_bind, rule obeys_mono [OF assms(1) [unfolded emits_def]])
  fix x es assume "list_all (\<lambda>e. \<not> accountEvent e) es"
  then have "filter accountEvent es = []" by (simp add: filter_empty_conv list_all_iff)
  then show "obeys (f x) (\<lambda>y es'. accounted cfg req y (es @ es'))"
    by (intro obeys_mono [OF assms(2)]) (simp add: accounted_def)
qed

lemma uncounted_client:
  "uncounted (ensureEnqueuedAt env ws)" "uncounted (createWorkspace env cfg raw u)"
  "uncounted (ensureWorkspace env cfg raw u)" "uncounted (isServable env ws)" "uncounted (touchActivity env k t)"
  "uncounted (publish env app pn k n)" "uncounted (Resolve env cache ns svc port)"
  unfolding createWorkspace_def ensureWorkspace_def ensureEnqueuedAt_def isServable_def HasEndpoints_def
    touchActivity_def publish_def Resolve_def
  by (intro emits_rules; simp)+

lemma uncounted_hold: "uncounted (coldStartHold env cfg fuel ws)"
proof -
  have "uncounted (holdLoop env fuel k t)" for k t
    by (induction fuel) (auto intro!: emits_rules uncounted_client)
  then show ?thesis unfolding coldStartHold_def requestWake_def by (intro emits_rules) simp_all
qed

lemma uncounted_proxy: "uncounted (proxy env cfg st req ws)"
  unfolding proxy_def Open_def Close_def forwardTo_def by (intro emits_rules uncounted_client) simp_all

text \<open>The proxied answer is the upstream's, or a 502.\<close>

lemma proxy_answers:
  "obeys (proxy env cfg st req ws) (\<lambda>x _. (\<exists>code. fst x = Proxied code) \<or> (\<exists>msg. fst x = Rejected StatusBadGateway msg))"
  unfolding proxy_def Open_def Close_def forwardTo_def
  by (intro obeys_rules obeys_mono [OF uncounted_client(6) [unfolded emits_def]]
      obeys_mono [OF uncounted_client(7) [unfolded emits_def]]) auto

lemma serve_accounted:
  assumes "authorised cfg req raw"
  shows "obeys (serve env cfg st req k ws) (accounted cfg req)"
proof -
  have "obeys (do { r \<leftarrow> proxy env cfg st req ws; answer cfg (fst r) (snd r) }) (accounted cfg req)"
    by (rule obeys_bind, rule obeys_mono [OF emits_conj_obeys [OF uncounted_proxy proxy_answers]], unfold answer_def,
        intro obeys_rules)
      (use assms in \<open>auto simp: accounted_def account_def rejectionOf_def authorised_def list_all_iff filter_empty_conv
        StatusServiceUnavailable_def StatusBadGateway_def\<close>)
  then show ?thesis
    unfolding serve_def
    by (rule obeys_bind_uncounted [OF emits_calls(1) obeys_bind_uncounted [OF uncounted_client(5)]])
qed

lemma answer_accounted:
  assumes "rejectionOf cfg req resp = []" and "resp \<noteq> Holding" and "\<And>reason. resp \<noteq> Rejected StatusServiceUnavailable reason"
  shows "obeys (answer cfg resp st) (accounted cfg req)"
  unfolding answer_def by (intro obeys_rules) (use assms in \<open>simp add: accounted_def account_def\<close>)

lemma internal_accounted:
  "authorised cfg req raw \<Longrightarrow> obeys (answer cfg (Rejected StatusBadGateway msg) st) (accounted cfg req)"
  by (rule answer_accounted)
    (simp_all add: rejectionOf_def authorised_def StatusServiceUnavailable_def StatusBadGateway_def)

lemma rejectRequest_accounted:
  assumes "authorised cfg req raw" and "reason \<in> set rejectReasons"
  shows "obeys (rejectRequest cfg reason st) (accounted cfg req)"
  unfolding rejectRequest_def answer_def
  by (intro obeys_rules) (use assms in \<open>simp add: accounted_def account_def rejectionOf_def authorised_def\<close>)

lemma serveUser_accounted:
  assumes "authorised cfg req raw"
  shows "obeys (serveUser env cfg fuel st req raw) (accounted cfg req)"
proof -
  have reasons: "reason \<in> set rejectReasons" if "classify ws t = Some reason" for ws t reason
    using that by (auto simp: classify_def rejectReasons_def split: if_splits)
  have limit: "RejectWorkspaceLimit \<in> set rejectReasons" "RejectHoldExpired \<in> set rejectReasons"
    by (simp_all add: rejectReasons_def)
  note steps = internal_accounted [OF assms] serve_accounted [OF assms] rejectRequest_accounted [OF assms]
  have "obeys (ret (Holding, st)) (accounted cfg req)"
    by (intro obeys_return) (simp add: accounted_def account_def)
  then have ws: "obeys (serveWorkspace env cfg fuel st req ws) (accounted cfg req)" for ws
    unfolding serveWorkspace_def
    by (intro obeys_let obeys_bind_uncounted uncounted_client obeys_case_sum obeys_if uncounted_hold steps limit)
      (auto split: holdResult.split intro: steps limit)
  show ?thesis
    unfolding serveUser_def
    by (intro obeys_bind_uncounted uncounted_client obeys_case_sum)
      (auto split: ensureError.split option.split intro!: steps limit reasons obeys_bind_uncounted emits_calls ws)
qed

text \<open>No reason of one rejection counter is a reason of the other.\<close>

lemma reasons_disjoint: "reasonString r \<notin> set rejectReasons"
  by (cases r) (simp_all add: rejectReasons_def puc_consts)

lemma ServeHTTP_accounted: "obeys (ServeHTTP env cfg fuel st req) (accounted cfg req)"
  unfolding ServeHTTP_def
proof (intro obeys_if obeys_case_sum serveUser_accounted, goal_cases)
  case 1
  then show ?case
    by (intro answer_accounted) (simp_all add: rejectionOf_def StatusUnauthorized_def StatusServiceUnavailable_def)
next
  case (2 rej)
  then have "rejStatus rej \<noteq> StatusServiceUnavailable"
    by (auto simp: requestIdentity_def Extract_def reject_identity_def Let_def StatusServiceUnavailable_def
        StatusUnauthorized_def StatusBadRequest_def split: sum.splits if_splits)
  with 2 show ?case unfolding answer_def
    by (intro obeys_rules) (simp add: accounted_def account_def rejectionOf_def)
next
  case (3 raw)
  then show ?case by (simp add: authorised_def)
qed

lemma count_accounted: "accountEvent x \<Longrightarrow> count_list es x = count_list (filter accountEvent es) x"
  by (induction es) auto

text \<open>Claim C19. Every answered request is counted once: of the request counter exactly the row of the answer's code
  grows, by one; of the identity-rejection counter a row grows exactly if the caller was authenticated and its
  identity refused, the row of that reason; of the request-rejection counter a row grows exactly if an authorised
  request was answered 503, the row of the answer's reason, one of the five of the closed set. The two
  rejection counters never share a reason, and nothing is counted for an answer that is still being held.\<close>

theorem requests_accounted:
  assumes "prometheus_laws P" and "run_state (ServeHTTP env cfg fuel st req) w = ((resp, st'), w')" and "resp \<noteq> Holding"
  shows "\<exists>es. trace w' = trace w @ es \<and>
    (\<forall>reg code. counterValue P (routerRequestsTotal (afterTrace P es reg)) [cfgNamespace cfg, cfgApp cfg, code] =
       counterValue P (routerRequestsTotal reg) [cfgNamespace cfg, cfgApp cfg, code] +
         (if code = Itoa (responseCode resp) then 1 else 0)) \<and>
    (\<forall>reg reason. counterValue P (routerIdentityRejectedTotal (afterTrace P es reg)) [cfgNamespace cfg, cfgApp cfg, reason] =
       counterValue P (routerIdentityRejectedTotal reg) [cfgNamespace cfg, cfgApp cfg, reason] +
         (if checkCallerAuth cfg (rqHeader req) \<and>
             (\<exists>rej. requestIdentity cfg req = Inl rej \<and> reason = reasonString (rejReason rej)) then 1 else 0)) \<and>
    (\<forall>reg reason. counterValue P (routerRequestRejectedTotal (afterTrace P es reg)) [cfgNamespace cfg, cfgApp cfg, reason] =
       counterValue P (routerRequestRejectedTotal reg) [cfgNamespace cfg, cfgApp cfg, reason] +
         (if (\<exists>raw. authorised cfg req raw) \<and> resp = Rejected StatusServiceUnavailable reason then 1 else 0)) \<and>
    (\<forall>reason. resp = Rejected StatusServiceUnavailable reason \<longrightarrow>
       reason \<in> set rejectReasons \<and> (\<forall>r. reason \<noteq> reasonString r))"
proof -
  obtain es where es: "trace w' = trace w @ es" "filter accountEvent es = account cfg req resp"
      "\<forall>reason. resp = Rejected StatusServiceUnavailable reason \<longrightarrow> reason \<in> set rejectReasons"
    using obeysD [OF ServeHTTP_accounted assms(2)] by (auto simp: accounted_def)
  let ?n = "cfgNamespace cfg" and ?a = "cfgApp cfg"
  have "count_list es (Metric (RecordRouterRequest ?n ?a code)) = (if code = Itoa (responseCode resp) then 1 else 0)" for code
    using assms(3) count_accounted [of "Metric (RecordRouterRequest ?n ?a code)" es]
    by (auto simp: es(2) account_def rejectionOf_def split: sum.splits response.splits)
  moreover have "count_list es (Metric (RecordIdentityRejection ?n ?a reason)) =
      (if checkCallerAuth cfg (rqHeader req) \<and>
          (\<exists>rej. requestIdentity cfg req = Inl rej \<and> reason = reasonString (rejReason rej)) then 1 else 0)" for reason
    using assms(3) count_accounted [of "Metric (RecordIdentityRejection ?n ?a reason)" es]
    by (auto simp: es(2) account_def rejectionOf_def split: sum.splits response.splits)
  moreover have "count_list es (Metric (RecordRequestRejection ?n ?a reason)) =
      (if (\<exists>raw. authorised cfg req raw) \<and> resp = Rejected StatusServiceUnavailable reason then 1 else 0)" for reason
    using assms(3) count_accounted [of "Metric (RecordRequestRejection ?n ?a reason)" es]
    by (auto simp: es(2) account_def rejectionOf_def authorised_def split: sum.splits response.splits)
  moreover have "\<forall>reason. resp = Rejected StatusServiceUnavailable reason \<longrightarrow>
      reason \<in> set rejectReasons \<and> (\<forall>r. reason \<noteq> reasonString r)"
    using es(3) reasons_disjoint by blast
  ultimately show ?thesis
    using es(1) prometheus_laws.routerRequests_after [OF assms(1)] prometheus_laws.identityRejected_after [OF assms(1)]
      prometheus_laws.requestRejected_after [OF assms(1)]
    by (intro exI [of _ es]) simp
qed

text \<open>An authenticated caller without an identity header.\<close>

definition anonymousRequest :: request where
  "anonymousRequest = \<lparr>rqMethod = ''GET'', rqPath = ''/'', rqHeader = [(''Authorization'', [''Bearer s3cret''])]\<rparr>"

theorem requests_accounted_witness:
  "\<exists>es. trace (snd (run_state (ServeHTTP sampleREnv sampleConfig 0 \<lparr>rsCache = Map.empty, rsCounts = Map.empty\<rparr> anonymousRequest)
       \<lparr>cluster = (0, []), trace = []\<rparr>)) = es \<and>
     (\<forall>reg. counterValue mapPrometheus (routerIdentityRejectedTotal (afterTrace mapPrometheus es reg)) [''ns'', ''app'', ''missing''] =
        counterValue mapPrometheus (routerIdentityRejectedTotal reg) [''ns'', ''app'', ''missing''] + 1)"
proof -
  let ?st = "\<lparr>rsCache = Map.empty, rsCounts = Map.empty\<rparr>" and ?w = "\<lparr>cluster = (0, []), trace = []\<rparr>"
  have auth: "checkCallerAuth sampleConfig (rqHeader anonymousRequest)" by code_simp
  have ident: "requestIdentity sampleConfig anonymousRequest = Inl \<lparr>rejReason = ReasonMissing, rejStatus = 401\<rparr>" by code_simp
  obtain resp st' w' where run: "run_state (ServeHTTP sampleREnv sampleConfig 0 ?st anonymousRequest) ?w = ((resp, st'), w')"
    by (metis prod.exhaust)
  then have "resp \<noteq> Holding"
    by (auto simp: ServeHTTP_def auth ident answer_def record_metric_def)
  from requests_accounted [OF map_prometheus.prometheus_laws_axioms run this] run auth ident show ?thesis
    by (auto simp: sampleConfig_def)
qed

end
