(* ===== verification/Rbac.thy ===== *)
theory Rbac
  imports Cluster
begin

text \<open>
  \<open>internal/rbacspec/rbacspec.go\<close>: the (group, resource, verb) tuples the controller needs in a served
  namespace, and what the client calls of a trace need. The startup probe of the controller checks the list
  (\<open>Cmd_Controller\<close>); \<open>Rbac_Facts\<close> shows that the list covers every call the controllers make.
\<close>

section \<open>The list\<close>

record namespaceCheck =
  ncGroup :: string
  ncResource :: string
  ncVerb :: string
  ncClusterScoped :: bool

definition GroupName :: string where
  "GroupName = ''apps.kettleofketchup''"

definition check :: "string \<Rightarrow> string \<Rightarrow> string \<Rightarrow> namespaceCheck" where
  "check g r v = \<lparr>ncGroup = g, ncResource = r, ncVerb = v, ncClusterScoped = False\<rparr>"

definition clusterCheck :: "string \<Rightarrow> string \<Rightarrow> string \<Rightarrow> namespaceCheck" where
  "clusterCheck g r v = \<lparr>ncGroup = g, ncResource = r, ncVerb = v, ncClusterScoped = True\<rparr>"

definition ControllerNamespaceChecks :: "namespaceCheck list" where
  "ControllerNamespaceChecks =
     [check GroupName ''peruserapps'' ''get'', check GroupName ''peruserapps'' ''list'',
      check GroupName ''peruserapps'' ''watch'',
      check GroupName ''peruserapps/status'' ''get'', check GroupName ''peruserapps/status'' ''update'',
      check GroupName ''peruserapps/status'' ''patch'',
      check GroupName ''workspaces'' ''get'', check GroupName ''workspaces'' ''list'',
      check GroupName ''workspaces'' ''watch'', check GroupName ''workspaces'' ''create'',
      check GroupName ''workspaces'' ''update'', check GroupName ''workspaces'' ''patch'',
      check GroupName ''workspaces'' ''delete'',
      check GroupName ''workspaces/status'' ''get'', check GroupName ''workspaces/status'' ''update'',
      check GroupName ''workspaces/status'' ''patch'', check GroupName ''workspaces/finalizers'' ''update'',
      check ''apps'' ''deployments'' ''get'', check ''apps'' ''deployments'' ''list'',
      check ''apps'' ''deployments'' ''watch'', check ''apps'' ''deployments'' ''create'',
      check ''apps'' ''deployments'' ''update'', check ''apps'' ''deployments'' ''patch'',
      check '''' ''services'' ''get'', check '''' ''services'' ''list'', check '''' ''services'' ''watch'',
      check '''' ''services'' ''create'', check '''' ''services'' ''update'', check '''' ''services'' ''patch'',
      check '''' ''persistentvolumeclaims'' ''get'', check '''' ''persistentvolumeclaims'' ''list'',
      check '''' ''persistentvolumeclaims'' ''watch'', check '''' ''persistentvolumeclaims'' ''create'',
      check '''' ''persistentvolumeclaims'' ''update'', check '''' ''persistentvolumeclaims'' ''patch'',
      check '''' ''persistentvolumeclaims'' ''delete'',
      check '''' ''pods'' ''get'', check '''' ''pods'' ''list'', check '''' ''pods'' ''watch'',
      check '''' ''serviceaccounts'' ''get'', check '''' ''serviceaccounts'' ''list'',
      check '''' ''serviceaccounts'' ''watch'', check '''' ''serviceaccounts'' ''create'',
      check '''' ''serviceaccounts'' ''update'', check '''' ''serviceaccounts'' ''patch'',
      check '''' ''events'' ''create'', check '''' ''events'' ''patch'',
      check ''networking.k8s.io'' ''networkpolicies'' ''get'', check ''networking.k8s.io'' ''networkpolicies'' ''list'',
      check ''networking.k8s.io'' ''networkpolicies'' ''watch'', check ''networking.k8s.io'' ''networkpolicies'' ''create'',
      check ''networking.k8s.io'' ''networkpolicies'' ''update'', check ''networking.k8s.io'' ''networkpolicies'' ''patch'',
      check ''rbac.authorization.k8s.io'' ''rolebindings'' ''get'', check ''rbac.authorization.k8s.io'' ''rolebindings'' ''list'',
      check ''rbac.authorization.k8s.io'' ''rolebindings'' ''watch'',
      check ''rbac.authorization.k8s.io'' ''rolebindings'' ''create'',
      check ''rbac.authorization.k8s.io'' ''rolebindings'' ''update'',
      check ''rbac.authorization.k8s.io'' ''rolebindings'' ''patch'',
      clusterCheck ''storage.k8s.io'' ''storageclasses'' ''get'', clusterCheck ''storage.k8s.io'' ''storageclasses'' ''list'',
      clusterCheck ''storage.k8s.io'' ''storageclasses'' ''watch'',
      clusterCheck '''' ''persistentvolumes'' ''get'', clusterCheck '''' ''persistentvolumes'' ''list'',
      clusterCheck '''' ''persistentvolumes'' ''watch'', clusterCheck '''' ''persistentvolumes'' ''patch'']"

section \<open>What a call needs\<close>

text \<open>The group, plural and scope under which the API server serves a kind.\<close>

fun kindResource :: "kind \<Rightarrow> string \<times> string \<times> bool" where
  "kindResource KWorkspace = (GroupName, ''workspaces'', False)"
| "kindResource KPerUserApp = (GroupName, ''peruserapps'', False)"
| "kindResource KDeployment = (''apps'', ''deployments'', False)"
| "kindResource KService = ('''', ''services'', False)"
| "kindResource KNetworkPolicy = (''networking.k8s.io'', ''networkpolicies'', False)"
| "kindResource KPVC = ('''', ''persistentvolumeclaims'', False)"
| "kindResource KPV = ('''', ''persistentvolumes'', True)"
| "kindResource KPod = ('''', ''pods'', False)"
| "kindResource KEndpointSlice = (''discovery.k8s.io'', ''endpointslices'', False)"
| "kindResource KStorageClass = (''storage.k8s.io'', ''storageclasses'', True)"

fun objResource :: "obj \<Rightarrow> string \<times> string \<times> bool" where
  "objResource (WsObj _) = kindResource KWorkspace"
| "objResource (AppObj _) = kindResource KPerUserApp"
| "objResource (DepObj _) = kindResource KDeployment"
| "objResource (SvcObj _) = kindResource KService"
| "objResource (NpObj _) = kindResource KNetworkPolicy"
| "objResource (PvcObj _) = kindResource KPVC"
| "objResource (PvObj _) = kindResource KPV"
| "objResource (SaObj _) = ('''', ''serviceaccounts'', False)"
| "objResource (RbObj _) = (''rbac.authorization.k8s.io'', ''rolebindings'', False)"

definition verbOn :: "string \<times> string \<times> bool \<Rightarrow> string \<Rightarrow> namespaceCheck" where
  "verbOn gr v = \<lparr>ncGroup = fst gr, ncResource = fst (snd gr), ncVerb = v, ncClusterScoped = snd (snd gr)\<rparr>"

definition statusOf :: "string \<times> string \<times> bool \<Rightarrow> string \<times> string \<times> bool" where
  "statusOf gr = (fst gr, fst (snd gr) @ ''/status'', snd (snd gr))"

text \<open>The manager's client answers a Get or List from its cache, which lists and watches the kind.\<close>

fun neededVerbs :: "call \<Rightarrow> namespaceCheck list" where
  "neededVerbs (Get k _) = map (verbOn (kindResource k)) [''get'', ''list'', ''watch'']"
| "neededVerbs (ListCall k _ _) = map (verbOn (kindResource k)) [''list'', ''watch'']"
| "neededVerbs (Create x) = [verbOn (objResource x) ''create'']"
| "neededVerbs (Update x) = [verbOn (objResource x) ''update'']"
| "neededVerbs (Patch _ x) = [verbOn (objResource x) ''patch'']"
| "neededVerbs (StatusUpdate x) = [verbOn (statusOf (objResource x)) ''update'']"
| "neededVerbs (StatusPatch _ x) = [verbOn (statusOf (objResource x)) ''patch'']"
| "neededVerbs (Delete x) = [verbOn (objResource x) ''delete'']"
| "neededVerbs (CreateOrUpdate x) = map (verbOn (objResource x)) [''get'', ''list'', ''watch'', ''create'', ''update'']"

definition covered :: "namespaceCheck \<Rightarrow> bool" where
  "covered c \<longleftrightarrow> c \<in> set ControllerNamespaceChecks"

text \<open>An event whose every verb is on the list; recording a Kubernetes Event creates or patches one.\<close>

fun eventCovered :: "event \<Rightarrow> bool" where
  "eventCovered (Api c _) = list_all covered (neededVerbs c)"
| "eventCovered (Recorded _) = list_all covered (map (verbOn ('''', ''events'', False)) [''create'', ''patch''])"
| "eventCovered (Metric _) = True"
| "eventCovered (Forwarded _ _) = False"

text \<open>The list, evaluated: reads of every kind but EndpointSlices, writes by kind.\<close>

lemma covered_reads:
  "list_all (\<lambda>k. list_all (\<lambda>v. covered (verbOn (kindResource k) v)) [''get'', ''list'', ''watch''])
     [KWorkspace, KPerUserApp, KDeployment, KService, KNetworkPolicy, KPVC, KPV, KPod, KStorageClass]"
  by code_simp

lemma covered_writes:
  "list_all (\<lambda>v. covered (verbOn (kindResource KWorkspace) v)) [''create'', ''update'', ''patch'', ''delete'']"
  "list_all (\<lambda>v. covered (verbOn (statusOf (kindResource KWorkspace)) v)) [''update'', ''patch'']"
  "list_all (\<lambda>v. covered (verbOn (statusOf (kindResource KPerUserApp)) v)) [''update'', ''patch'']"
  "list_all (\<lambda>k. list_all (\<lambda>v. covered (verbOn (kindResource k) v)) [''create'', ''update'', ''patch''])
     [KDeployment, KService, KNetworkPolicy, KPVC]"
  "list_all (\<lambda>v. covered (verbOn (kindResource KPVC) v)) [''delete'']"
  "list_all (\<lambda>v. covered (verbOn (kindResource KPV) v)) [''patch'']"
  "list_all (\<lambda>v. covered (verbOn ([], ''serviceaccounts'', False) v)) [''get'', ''list'', ''watch'', ''create'', ''update'', ''patch'']"
  "list_all (\<lambda>v. covered (verbOn (''rbac.authorization.k8s.io'', ''rolebindings'', False) v))
     [''get'', ''list'', ''watch'', ''create'', ''update'', ''patch'']"
  "list_all (\<lambda>v. covered (verbOn ([], ''events'', False) v)) [''create'', ''patch'']"
  by code_simp+

lemma covered_calls [simp]:
  "eventCovered (Api (Get k x) er) \<longleftrightarrow> k \<noteq> KEndpointSlice"
  "eventCovered (Api (ListCall k ns ls) er) \<longleftrightarrow> k \<noteq> KEndpointSlice"
  "eventCovered (Api (Update (WsObj w)) er)" "eventCovered (Api (StatusUpdate (WsObj w)) er)"
  "eventCovered (Api (StatusPatch b (WsObj w)) er)" "eventCovered (Api (Patch b (WsObj w)) er)"
  "eventCovered (Api (Delete (WsObj w)) er)" "eventCovered (Api (StatusPatch b (AppObj a)) er)"
  "eventCovered (Api (Create (PvcObj c)) er)" "eventCovered (Api (Update (PvcObj c)) er)"
  "eventCovered (Api (Patch b (PvcObj c)) er)" "eventCovered (Api (Delete (PvcObj c)) er)"
  "eventCovered (Api (Patch b (PvObj v)) er)"
  "eventCovered (Api (Create (DepObj d)) er)" "eventCovered (Api (Update (DepObj d)) er)"
  "eventCovered (Api (Patch b (DepObj d)) er)"
  "eventCovered (Api (Create (SvcObj sv)) er)" "eventCovered (Api (Create (NpObj n)) er)"
  "eventCovered (Api (Update (SvcObj sv)) er)" "eventCovered (Api (Update (NpObj n)) er)"
  "eventCovered (Api (CreateOrUpdate (DepObj d)) er)" "eventCovered (Api (CreateOrUpdate (SvcObj sv)) er)"
  "eventCovered (Api (CreateOrUpdate (NpObj n)) er)" "eventCovered (Api (CreateOrUpdate (SaObj sa)) er)"
  "eventCovered (Api (CreateOrUpdate (RbObj r)) er)" "eventCovered (Recorded msg)"
proof -
  have "\<not> covered (verbOn (kindResource KEndpointSlice) ''list'')" by code_simp
  then show "eventCovered (Api (Get k x) er) \<longleftrightarrow> k \<noteq> KEndpointSlice"
    "eventCovered (Api (ListCall k ns ls) er) \<longleftrightarrow> k \<noteq> KEndpointSlice"
    using covered_reads by (cases k; simp)+
qed (use covered_reads covered_writes in simp_all)

declare eventCovered.simps(1,2) [simp del]

end
