(* ===== verification/Pass_Calls.thy ===== *)
theory Pass_Calls
  imports Workspace_Controller
begin

text \<open>
  The shapes of call that the phase handlers of the workspace reconciler make, for the properties that range
  over every call of the controller (\<open>Rbac_Facts\<close>, \<open>Field_Ownership\<close>).
\<close>

fun passCall :: "call \<Rightarrow> bool" where
  "passCall (Get k _) = (k \<noteq> KEndpointSlice)"
| "passCall (ListCall k _ _) = (k \<noteq> KEndpointSlice)"
| "passCall (Create (PvcObj _)) = True"
| "passCall (Create (DepObj _)) = True"
| "passCall (Create (SvcObj _)) = True"
| "passCall (Patch _ (PvcObj _)) = True"
| "passCall (Patch _ (DepObj _)) = True"
| "passCall (CreateOrUpdate (NpObj _)) = True"
| "passCall (StatusPatch (WsObj b) (WsObj x)) = (\<exists>app t. x = failurePatch app b t)"
| "passCall _ = False"

fun passEvent :: "event \<Rightarrow> bool" where
  "passEvent (Api c _) = passCall c"
| "passEvent (Metric _) = True"
| "passEvent _ = False"

named_theorems pass_calls "handlers that only make calls of these shapes"

lemma pass_admitter [pass_calls]:
  "emits passEvent (TryAdmit env ws app)" "emits passEvent (RecordStartFailure env ws app reason)"
  unfolding TryAdmit_def inBackoff_def by (intro emits_rules emits_RecordStartFailure; auto)+

lemma pass_storage [pass_calls]: "emits passEvent (reconcilePVC env ws app b)"
  unfolding reconcilePVC_def reconcileExistingPVC_def by (intro emits_rules) simp_all

lemma pass_policies [pass_calls]: "emits passEvent (ensureWorkspaceNetworkPolicies env r ws app)"
proof -
  have "emits passEvent (ensurePolicies env nps)" for nps
    by (induction nps) (auto intro!: emits_rules)
  then show ?thesis unfolding ensureWorkspaceNetworkPolicies_def by (intro emits_rules)
qed

lemma pass_deployment [pass_calls]: "emits passEvent (ensureDeployment env ws app n)"
  unfolding ensureDeployment_def by (intro emits_rules) simp_all

lemma pass_start [pass_calls]: "emits passEvent (startChildren env r ws app)"
  unfolding startChildren_def startPolicies_def by (intro emits_rules pass_calls) simp_all

lemma pass_pods [pass_calls]: "emits passEvent (podsOf env ws app)"
  unfolding podsOf_def by (intro emits_rules) simp

lemma pass_gauges [pass_calls]: "emits passEvent (refreshGauges env ns app)"
proof -
  have gauges: "emits passEvent (setPhaseGauges ns app items ps)" for items ps
    by (induction ps) (auto intro!: emits_rules)
  show ?thesis unfolding refreshGauges_def by (intro emits_rules gauges) simp_all
qed

lemma pass_phase:
  assumes "rAdmitter r = NewAdmitter env"
  shows "emits passEvent (reconcilePhase env r ws app)"
proof -
  have fail: "emits passEvent (failStarting env r ws app reason)" for ws reason
    unfolding failStarting_def assms NewAdmitter_def admitter.simps by (intro emits_rules pass_calls) simp
  have exit: "emits passEvent (startingExit env r ws app p)" for ws p
    unfolding startingExit_def inspectPod_def checkDeadline_def transitionToReady_def
    by (intro emits_rules fail) simp_all
  show ?thesis
    unfolding reconcilePhase_def reconcilePending_def reconcileStarting_def reconcileReady_def reconcileIdle_def
      reconcileFailed_def withStorage_def assms NewAdmitter_def admitter.simps
    by (auto split: Phase.split intro!: emits_rules pass_calls exit)
qed

end
