(* ===== verification/Rbac_Facts.thy ===== *)
theory Rbac_Facts
  imports Rbac Pass_Calls Reaper Reclaimer PerUserApp_Controller
begin

text \<open>
  The verb list of \<open>rbacspec\<close> against the whole controller: every API call that any reconciler, the Reaper, the
  Reclaimer or the lease sweep can make, on any branch and after any answer, needs only verbs of the list. A
  namespace the startup probe reports as ready can therefore not refuse the controller a call for want of a grant.
\<close>

abbreviation granted :: "('s, 'a) m \<Rightarrow> bool" where
  "granted m \<equiv> emits eventCovered m"

lemma granted_pass: "passEvent e \<Longrightarrow> eventCovered e"
proof (cases e)
  case (Api c er)
  assume "passEvent e"
  with Api show ?thesis by (cases c rule: passCall.cases) auto
qed auto

lemma granted_lease: "granted (OnLeaseAcquired env leaderless)"
proof -
  have "granted (inheritStart env leaderless ws)" for ws
    unfolding inheritStart_def extendDeadline_def by (intro emits_rules emits_mono [OF pass_admitter(2) granted_pass]) simp_all
  then have "granted (inheritStarts env leaderless items)" for items
    by (induction items) (auto intro!: emits_rules)
  then show ?thesis unfolding OnLeaseAcquired_def by (intro emits_rules) simp_all
qed

lemma granted_workspace:
  assumes "rAdmitter r = NewAdmitter env"
  shows "granted (Reconcile env r req)"
  unfolding Reconcile_def reconcileDelete_def reconcileAndPatch_def patchStatusIfChanged_def
  by (intro emits_rules emits_mono [OF pass_phase [OF assms] granted_pass] emits_mono [OF pass_gauges granted_pass]) simp_all

lemma granted_reaper: "granted (Reap env passes)"
proof -
  have "granted (reapAll env app t items e)" for app t items e
    by (induction items arbitrary: e) (auto simp: ScaleDown_def intro!: emits_rules)
  then have "granted (reapLoop env t apps passes e)" for t apps passes e
    by (induction apps arbitrary: passes e) (auto simp: reapApp_def intro!: emits_rules)
  then show ?thesis unfolding Reap_def by (intro emits_rules) simp_all
qed

lemma granted_reclaimer: "granted (Reclaim env passes)"
proof -
  have "granted (reclaimWorkspace env app rc ws)" for app rc ws
    unfolding reclaimWorkspace_def releaseVolume_def markReclaiming_def deleteBoth_def by (intro emits_rules) simp_all
  then have targets: "granted (reclaimAll env app rc items e)" for app rc items e
    by (induction items arbitrary: e) (auto intro!: emits_rules)
  have "granted (deleteOrphans env app items pvcs e)" for app items pvcs e
    by (induction pvcs arbitrary: e) (auto intro!: emits_rules)
  with targets have "granted (reclaimApp env app rc t)" for app rc t
    unfolding reclaimApp_def reclaimOrphanedPVCs_def by (intro emits_rules) simp_all
  then have "granted (reclaimLoop env t apps passes e)" for t apps passes e
    by (induction apps arbitrary: passes e) (auto intro!: emits_rules)
  then show ?thesis unfolding Reclaim_def by (intro emits_rules) simp_all
qed

lemma granted_app: "granted (ReconcileApp env r req)"
proof -
  have "granted (recordWarnings r ws)" for ws
    by (induction ws) (auto intro!: emits_rules)
  then show ?thesis
    unfolding ReconcileApp_def validate_def ValidateStorageClass_def reconcileValid_def reconcileInvalid_def
      setAppCondition_def orElse_def ensureWorkspaceIdentity_def ensureServiceAccount_def ensureRouterIdentity_def
      ensureRouterWorkload_def ensureRouterDeployment_def ensureRouterService_def ensureRouterPolicy_def
      reportLimit_def workspaceLimitReached_def patchAppStatusIfChanged_def
    by (intro emits_rules) simp_all
qed


end
