(* ===== verification/Field_Ownership.thy ===== *)
theory Field_Ownership
  imports Pass_Calls Reaper Router_Server
begin

text \<open>
  The status of a Workspace is written by four parties: the workspace reconciler (with the admitter), the sweep
  of a new leader, the Reaper and the router. A merge patch carries only what differs from the object it was
  computed from, so the parties do not overwrite each other as long as each changes only its own fields. Shown
  here for every handler: who changes which field, and that a status whose integers are int32 and whose phase is
  a declared one stays so whoever writes it.
\<close>

section \<open>Fields and types\<close>

definition routerFields :: "workspaceStatus \<Rightarrow> gotime option \<times> (string \<times> connectionEntry) list \<times> gotime option" where
  "routerFields s = (LastActivity s, Connections s, EnqueuedAt s)"

text \<open>What the router leaves alone: everything but its three fields and the wake request.\<close>

definition sameButRouter :: "workspaceStatus \<Rightarrow> workspaceStatus \<Rightarrow> bool" where
  "sameButRouter s s' \<longleftrightarrow>
     s' = s\<lparr>LastActivity := LastActivity s', Connections := Connections s', EnqueuedAt := EnqueuedAt s',
           WakeRequestedAt := WakeRequestedAt s'\<rparr>"

lemma sameButRouter_fields:
  "sameButRouter s s' \<longleftrightarrow> ObservedGeneration s' = ObservedGeneration s \<and> wsPhase s' = wsPhase s \<and> ScaledDown s' = ScaledDown s \<and>
     ConsecutiveFailures s' = ConsecutiveFailures s \<and> BackoffUntil s' = BackoffUntil s \<and> StartDeadline s' = StartDeadline s \<and>
     WaitingReason s' = WaitingReason s \<and> LargestObservedSize s' = LargestObservedSize s \<and> Conditions s' = Conditions s \<and>
     PodRef s' = PodRef s \<and> ServiceRef s' = ServiceRef s \<and> PVCRef s' = PVCRef s"
  by (cases s; cases s') (auto simp: sameButRouter_def)

definition declaredPhase :: "Phase \<Rightarrow> bool" where
  "declaredPhase p \<longleftrightarrow> p \<in> {PhaseNone, PhasePending, PhaseStarting, PhaseReady, PhaseIdle, PhaseFailed}"

definition statusTyped :: "workspaceStatus \<Rightarrow> bool" where
  "statusTyped s \<longleftrightarrow> in_int32 (ConsecutiveFailures s) \<and> declaredPhase (wsPhase s) \<and>
     list_all (\<lambda>c. in_int32 (ceCount (snd c))) (Connections s)"

text \<open>The client decodes consecutiveFailures into an int32: the answer to a patch that asks for one has one.\<close>

definition typedAnswers :: "('s, 'x) env_scheme \<Rightarrow> bool" where
  "typedAnswers env \<longleftrightarrow>
     (\<forall>b x c ws. in_int32 (ConsecutiveFailures (wsStatus x)) \<longrightarrow> fst (rStatusPatch (workspaces env) b x c) = Inr ws \<longrightarrow>
        in_int32 (ConsecutiveFailures (wsStatus ws)))"

section \<open>The controller's side\<close>

text \<open>One step of the controller on a workspace it read.\<close>

definition ownStep :: "workspace \<Rightarrow> workspace \<Rightarrow> bool" where
  "ownStep b x \<longleftrightarrow> routerFields (wsStatus x) = routerFields (wsStatus b) \<and> wsSpec x = wsSpec b \<and>
     (statusTyped (wsStatus b) \<longrightarrow> statusTyped (wsStatus x))"

fun controllerWrite :: "event \<Rightarrow> bool" where
  "controllerWrite (Api (StatusPatch (WsObj b) (WsObj x)) _) = ownStep b x"
| "controllerWrite (Api (StatusUpdate (WsObj x)) _) = (\<exists>b. x = scaledDown b)"
| "controllerWrite _ = True"

lemma ownStep_refl [simp]: "ownStep b b"
  by (simp add: ownStep_def)

lemma ownStep_trans: "ownStep a b \<Longrightarrow> ownStep b c \<Longrightarrow> ownStep a c"
  by (simp add: ownStep_def)

lemma ownStep_storage: "storageStep b x \<Longrightarrow> ownStep b x"
  by (auto simp: storageStep_def ownStep_def routerFields_def statusTyped_def)

lemma ownStep_failure: "ownStep b (failurePatch app b t)"
  by (simp add: ownStep_def failurePatch_def routerFields_def statusTyped_def wrap32_range)

lemma ownStep_setStatus:
  assumes "routerFields (f (wsStatus b)) = routerFields (wsStatus b)"
    and "statusTyped (wsStatus b) \<Longrightarrow> statusTyped (f (wsStatus b))"
  shows "ownStep b (setStatus f b)"
  using assms by (simp add: ownStep_def)

text \<open>The status updates of the phase handlers, in one place.\<close>

lemma ownStep_updates [simp]:
  "ownStep b (setStatus (\<lambda>s. s\<lparr>wsPhase := PhaseStarting, StartDeadline := d\<rparr>) b)"
  "ownStep b (setStatus (\<lambda>s. s\<lparr>wsPhase := PhasePending, StartDeadline := d\<rparr>) b)"
  "ownStep b (setStatus (\<lambda>s. s\<lparr>wsPhase := PhasePending, BackoffUntil := u\<rparr>) b)"
  "ownStep b (setStatus (\<lambda>s. s\<lparr>wsPhase := PhasePending\<rparr>) b)"
  "ownStep b (setStatus (\<lambda>s. s\<lparr>wsPhase := PhaseFailed\<rparr>) b)"
  "ownStep b (setStatus (\<lambda>s. s\<lparr>wsPhase := PhaseIdle\<rparr>) b)"
  "ownStep b (setStatus (\<lambda>s. s\<lparr>WaitingReason := w\<rparr>) b)"
  "ownStep b (setStatus (\<lambda>s. s\<lparr>StartDeadline := d\<rparr>) b)"
  "ownStep b (wake b)"
  by (auto simp: ownStep_def routerFields_def statusTyped_def declaredPhase_def wake_def)

lemma RecordStartFailure_own:
  assumes "typedAnswers env"
  shows "obeys (RecordStartFailure env ws app reason) (\<lambda>x _. ownStep ws (snd x))"
proof -
  have answer: "in_int32 (ConsecutiveFailures (wsStatus stored))"
    if "fst (rStatusPatch (workspaces env) b x c) = Inr stored" "in_int32 (ConsecutiveFailures (wsStatus x))" for b x c stored
    using assms that unfolding typedAnswers_def by blast
  show ?thesis
    unfolding RecordStartFailure_def
    by (intro obeys_rules)
      (auto simp: ownStep_def routerFields_def statusTyped_def wrap32_range dest!: answer)
qed

lemma failStarting_own [obeys_rules]:
  assumes "typedAnswers env" and "rAdmitter r = NewAdmitter env" and "\<And>x es. ownStep ws x \<Longrightarrow> Q x es"
  shows "obeys (failStarting env r ws app reason) Q"
  unfolding failStarting_def assms(2) NewAdmitter_def admitter.simps
  by (intro obeys_rules obeys_mono [OF RecordStartFailure_own [OF assms(1)]])
    (auto intro!: assms(3) intro: ownStep_trans [OF ownStep_updates(5)])

lemma startingExit_own:
  assumes "typedAnswers env" and "rAdmitter r = NewAdmitter env"
  shows "obeys (startingExit env r ws app p) (\<lambda>x _. ownStep ws (snd x))"
proof -
  have deadline: "obeys (checkDeadline env r ws app) (\<lambda>x _. ownStep ws (snd x))" for ws
    unfolding checkDeadline_def by (intro obeys_rules assms) simp_all
  have inspect: "obeys (inspectPod env r ws app p) (\<lambda>x _. ownStep ws (snd x))"
    unfolding inspectPod_def
    by (intro obeys_rules assms deadline obeys_mono [OF deadline]) (auto intro: ownStep_trans [OF ownStep_updates(7)])
  have ready: "obeys (transitionToReady env ws app p) (\<lambda>x _. ownStep ws x)"
    unfolding transitionToReady_def
    by (intro obeys_rules)
      (auto simp: ownStep_def routerFields_def statusTyped_def declaredPhase_def in_int32_def)
  show ?thesis
    unfolding startingExit_def by (intro obeys_rules inspect obeys_mono [OF ready]) simp_all
qed

lemma reconcilePhase_own:
  assumes "typedAnswers env" and "rAdmitter r = NewAdmitter env"
  shows "obeys (reconcilePhase env r ws app) (\<lambda>x _. ownStep ws (snd x))"
proof -
  have step: "ownStep ws y" if "storageStep ws x" "ownStep x y" for x y
    using that by (blast intro: ownStep_storage ownStep_trans)
  have after: "storageStep ws x \<Longrightarrow> ownStep ws x" "storageStep ws x \<Longrightarrow> ownStep ws (wake x)"
      "storageStep ws x \<Longrightarrow> ownStep ws (setStatus (\<lambda>s. s\<lparr>wsPhase := PhaseIdle\<rparr>) x)" for x
    by (erule step, simp)+
  have "obeys (TryAdmit env ws app) (\<lambda>_ _. True)"
    unfolding TryAdmit_def inBackoff_def by (intro obeys_rules) simp_all
  moreover have admitted: "ownStep ws x" "ownStep ws (setStatus (\<lambda>s. s\<lparr>wsPhase := PhasePending, StartDeadline := None\<rparr>) x)"
    if "storageStep (setStatus (\<lambda>s. s\<lparr>wsPhase := PhaseStarting, StartDeadline := d\<rparr>) ws) x" for d x
    using ownStep_trans [OF ownStep_updates(1) ownStep_storage [OF that]] ownStep_trans [OF _ ownStep_updates(2)] by blast+
  ultimately have "obeys (reconcilePending env r ws app) (\<lambda>x _. ownStep ws (snd x))"
    unfolding reconcilePending_def assms(2) NewAdmitter_def admitter.simps
    by (intro obeys_bind, elim obeys_mono, intro obeys_rules)
      (auto split: sum.split intro!: obeys_rules intro: admitted)
  moreover have "obeys (reconcileStarting env r ws app) (\<lambda>x _. ownStep ws (snd x))"
    unfolding reconcileStarting_def
    by (intro withStorage_wp obeys_andThen podsOf_wp)
      (auto split: sum.split intro: ownStep_storage step obeys_mono [OF startingExit_own [OF assms]])
  moreover have "obeys (reconcileReady env r ws app) (\<lambda>x _. ownStep ws (snd x))"
    unfolding reconcileReady_def
    by (intro obeys_rules) (auto split: sum.split intro!: obeys_rules simp: after)
  moreover have "obeys (reconcileIdle env r ws app) (\<lambda>x _. ownStep ws (snd x))"
    unfolding reconcileIdle_def by (intro obeys_rules) (auto intro: after)
  moreover have "obeys (reconcileFailed env ws) (\<lambda>x _. ownStep ws (snd x))"
    unfolding reconcileFailed_def by (intro obeys_rules) auto
  ultimately show ?thesis
    unfolding reconcilePhase_def by (cases "phase ws") (auto intro!: obeys_return)
qed

lemma controllerWrite_pass: "passEvent e \<Longrightarrow> controllerWrite e"
  by (cases e rule: controllerWrite.cases) (auto simp: ownStep_failure)

lemma Reconcile_own:
  assumes "typedAnswers env" and "rAdmitter r = NewAdmitter env"
  shows "emits controllerWrite (Reconcile env r req)"
proof -
  have pass: "emits controllerWrite (reconcilePhase env r ws app)" "emits controllerWrite (refreshGauges env ns nm)" for ws app ns nm
    by (rule emits_mono [OF pass_phase [OF assms(2)]] emits_mono [OF pass_gauges], erule controllerWrite_pass)+
  have "emits controllerWrite (reconcileAndPatch env r ws app)" for ws app
    unfolding emits_def reconcileAndPatch_def patchStatusIfChanged_def
    by (rule obeys_bind, rule obeys_mono [OF emits_conj_obeys [OF pass(1) reconcilePhase_own [OF assms]]])
      (intro obeys_rules; auto)
  then show ?thesis
    unfolding Reconcile_def reconcileDelete_def by (intro emits_rules pass(2)) simp_all
qed

lemma lease_own: "emits controllerWrite (OnLeaseAcquired env leaderless)"
proof (rule emits_mono [OF OnLeaseAcquired_writes [of leaderless]])
  fix e assume "leaseWrite leaderless e"
  then show "controllerWrite e"
    by (cases e rule: controllerWrite.cases) (auto simp: ownStep_failure)
qed

lemma Reap_own: "emits controllerWrite (Reap env passes)"
proof -
  have "emits controllerWrite (reapAll env app t items e)" for app t items e
    by (induction items arbitrary: e) (auto simp: ScaleDown_def intro!: emits_rules)
  then have "emits controllerWrite (reapLoop env t apps passes e)" for t apps passes e
    by (induction apps arbitrary: passes e) (auto simp: reapApp_def intro!: emits_rules)
  then show ?thesis unfolding Reap_def by (intro emits_rules) simp_all
qed

section \<open>The router's side\<close>

definition routerStep :: "workspace \<Rightarrow> workspace \<Rightarrow> bool" where
  "routerStep b x \<longleftrightarrow> sameButRouter (wsStatus b) (wsStatus x) \<and> wsMeta x = wsMeta b \<and> wsSpec x = wsSpec b \<and>
     (statusTyped (wsStatus b) \<longrightarrow> statusTyped (wsStatus x))"

fun routerWrite :: "event \<Rightarrow> bool" where
  "routerWrite (Api (StatusPatch (WsObj b) (WsObj x)) _) = routerStep b x"
| "routerWrite (Api (StatusUpdate (WsObj x)) _) = False"
| "routerWrite _ = True"

lemma routerStep_updates:
  "routerStep b (setStatus (\<lambda>s. s\<lparr>EnqueuedAt := t\<rparr>) b)"
  "routerStep b (setStatus (\<lambda>s. s\<lparr>WakeRequestedAt := t\<rparr>) b)"
  "routerStep b (setStatus (\<lambda>s. s\<lparr>LastActivity := t\<rparr>) b)"
  by (simp_all add: routerStep_def sameButRouter_def statusTyped_def)

lemma list_all_update: "list_all (\<lambda>c. Q (snd c)) xs \<Longrightarrow> Q v \<Longrightarrow> list_all (\<lambda>c. Q (snd c)) (AList.update k v xs)"
  by (induction xs) auto

lemma routerStep_connection: "in_int32 n \<Longrightarrow> routerStep b (withConnection p n t b)"
  using list_all_update [of "\<lambda>c. in_int32 (ceCount c)" "Connections (wsStatus b)" "\<lparr>ceCount = n, ceHeartbeatAt = t\<rparr>" p]
  by (auto simp: routerStep_def sameButRouter_def statusTyped_def withConnection_def)

lemma routerWrite_publish [emits_rules]: "in_int32 n \<Longrightarrow> emits routerWrite (publish env app p k n)"
  unfolding publish_def by (intro emits_rules) (simp_all add: routerStep_connection)

lemma countOf_in_int32: "in_int32 (countOf (opened cs k) k)" "in_int32 (countOf (closed (opened cs k) k) k)"
  by (simp_all add: wrap32_range)

lemma Open_counts: "fst (run_state (Open env app p cs k) w) = x \<Longrightarrow> snd x = opened cs k"
  by (auto simp: Open_def Let_def split: prod.splits)

lemma ServeHTTP_own: "emits routerWrite (ServeHTTP env cfg fuel st req)"
proof -
  have enq: "emits routerWrite (ensureEnqueuedAt env ws)" for ws
    unfolding ensureEnqueuedAt_def by (intro emits_rules) (simp add: routerStep_updates)
  have ensure: "emits routerWrite (ensureWorkspace env cfg raw u)" for raw u
    unfolding ensureWorkspace_def createWorkspace_def by (intro emits_rules enq) simp_all
  have servable: "emits routerWrite (isServable env ws)" for ws
    unfolding isServable_def HasEndpoints_def by (intro emits_rules) simp
  have "emits routerWrite (holdLoop env fuel k d)" for k d
    by (induction fuel) (auto intro!: emits_rules servable)
  then have hold: "emits routerWrite (coldStartHold env cfg fuel ws)" for ws
    unfolding coldStartHold_def requestWake_def by (intro emits_rules) (simp_all add: routerStep_updates)
  have touch: "emits routerWrite (touchActivity env k t)" for k t
    unfolding touchActivity_def by (intro emits_rules) (simp_all add: routerStep_updates)
  have opn: "emits routerWrite (Open env app p cs k)" for app p cs k
    unfolding Open_def by (intro emits_rules) (auto simp: wrap32_range)
  have close: "emits routerWrite (Close env app p (opened cs k) k)" for app p cs k
    unfolding Close_def by (intro emits_rules) (auto simp: wrap32_range)
  have upgrade: "emits routerWrite (do { op \<leftarrow> Open env app p cs k; code \<leftarrow> forwardTo env addr h;
      case fst op of None \<Rightarrow> do { cl \<leftarrow> Close env app p (snd op) k; ret (f code cl) } | Some e \<Rightarrow> ret (g code op) })"
    for app p cs k addr h and f :: "int \<Rightarrow> error option \<times> counts \<Rightarrow> response \<times> routerState" and g
    by (rule emits_bind_answer [OF opn], drule Open_counts, unfold forwardTo_def) (intro emits_rules, simp_all add: close)
  have plain: "emits routerWrite (do { code \<leftarrow> forwardTo env addr h; ret (f code) })"
    for addr h and f :: "int \<Rightarrow> response \<times> routerState"
    unfolding forwardTo_def by (intro emits_rules) simp
  have resolve: "emits routerWrite (Resolve env cache ns nm port)" for cache ns nm port
    unfolding Resolve_def by (intro emits_rules) simp_all
  have "emits routerWrite (proxy env cfg st req ws)" for st ws
    unfolding proxy_def
    by (rule emits_bind [OF resolve]) (auto simp: Let_def split: sum.split intro: upgrade plain emits_return)
  with touch have "emits routerWrite (serve env cfg st req k ws)" for k ws st
    unfolding serve_def by (intro emits_rules) simp_all
  then show ?thesis
    unfolding ServeHTTP_def serveUser_def serveWorkspace_def
    by (intro emits_rules ensure servable hold) simp_all
qed

section \<open>The fields stay typed and owned\<close>



end
