(* ===== verification/Heartbeats.thy ===== *)
theory Heartbeats
  imports Conn_Tracker
begin

text \<open>
  Router replicas, their heartbeats and the Reaper over time: how \<open>internal/router/connections.go\<close> and
  \<open>internal/controller/reaper.go\<close> work together through \<open>status.connections\<close> of one workspace.

  The state holds the clock, the workspace as the API server stores it, and for each replica (by
  pod name) whether it runs, its in-memory counts, the time of its last publication and the time it
  went down. Replicas start, open and close connections, heartbeat and crash; other writers change the
  workspace but not its connections; the Reaper scales down what it finds reapable; time passes, but
  a running replica that tracks the workspace publishes at least once per \<open>gap\<close>.

  Shown here: with a gap below twice the heartbeat interval a workspace with an open connection is
  never reapable, and once its last connection is closed or the replicas that held it are gone for twice the
  interval, nothing published keeps it up. Publications are atomic with the count they carry in this
  system; the code publishes outside its mutex, and the last section shows what a publication that is
  overtaken leaves behind.
\<close>

section \<open>The system\<close>

record hsys =
  hNow :: gotime
  hWs :: workspace
  hUp :: "string \<Rightarrow> bool"
  hCount :: "string \<Rightarrow> counts"
  hBeat :: "string \<Rightarrow> gotime"
  hDownAt :: "string \<Rightarrow> gotime"

definition hsysStart :: "gotime \<Rightarrow> workspace \<Rightarrow> hsys" where
  "hsysStart t ws = \<lparr>hNow = t, hWs = setStatus (\<lambda>s. s\<lparr>Connections := []\<rparr>) ws, hUp = (\<lambda>_. False),
     hCount = (\<lambda>_. Map.empty), hBeat = (\<lambda>_. t), hDownAt = (\<lambda>_. t)\<rparr>"

text \<open>The replica counts connections of the workspace: it has opened one since it started.\<close>

definition tracks :: "key \<Rightarrow> hsys \<Rightarrow> string \<Rightarrow> bool" where
  "tracks k s p \<longleftrightarrow> hUp s p \<and> hCount s p k \<noteq> None"

text \<open>\<open>publish\<close> for the count in memory.\<close>

definition published :: "key \<Rightarrow> string \<Rightarrow> hsys \<Rightarrow> hsys" where
  "published k p s = s\<lparr>hWs := withConnection p (countOf (hCount s p) k) (hNow s) (hWs s),
     hBeat := (hBeat s)(p := hNow s)\<rparr>"

inductive hb_step :: "perUserApp \<Rightarrow> key \<Rightarrow> duration \<Rightarrow> hsys \<Rightarrow> hsys \<Rightarrow> bool"
  for app :: perUserApp and k :: key and gap :: duration where
  start: "\<not> hUp s p \<Longrightarrow>
    hb_step app k gap s (s\<lparr>hUp := (hUp s)(p := True), hCount := (hCount s)(p := Map.empty)\<rparr>)"
| crash: "hUp s p \<Longrightarrow>
    hb_step app k gap s (s\<lparr>hUp := (hUp s)(p := False), hDownAt := (hDownAt s)(p := hNow s)\<rparr>)"
| connect: "hUp s p \<Longrightarrow> countOf (hCount s p) k < 2 ^ 31 - 1 \<Longrightarrow>
    hb_step app k gap s (published k p (s\<lparr>hCount := (hCount s)(p := opened (hCount s p) k)\<rparr>))"
| disconnect: "tracks k s p \<Longrightarrow>
    hb_step app k gap s (published k p (s\<lparr>hCount := (hCount s)(p := closed (hCount s p) k)\<rparr>))"
| beat: "tracks k s p \<Longrightarrow> hb_step app k gap s (published k p s)"
| other: "Connections (wsStatus ws) = Connections (wsStatus (hWs s)) \<Longrightarrow> hb_step app k gap s (s\<lparr>hWs := ws\<rparr>)"
| reap: "isReapable (hWs s) app (hNow s) \<Longrightarrow> hb_step app k gap s (s\<lparr>hWs := scaledDown (hWs s)\<rparr>)"
| time: "0 \<le> d \<Longrightarrow> (\<And>p. tracks k s p \<Longrightarrow> hNow s + d \<le> hBeat s p + gap) \<Longrightarrow>
    hb_step app k gap s (s\<lparr>hNow := hNow s + d\<rparr>)"

section \<open>The invariant\<close>

abbreviation conns :: "hsys \<Rightarrow> (string \<times> connectionEntry) list" where
  "conns s \<equiv> Connections (wsStatus (hWs s))"

text \<open>Entries are one per replica; the entry of a replica that tracks the workspace is its count at its last
  publication, which is recent; any other entry was published before its replica went down.\<close>

definition entryOk :: "key \<Rightarrow> duration \<Rightarrow> hsys \<Rightarrow> string \<Rightarrow> bool" where
  "entryOk k gap s p \<longleftrightarrow> hDownAt s p \<le> hNow s \<and>
     (\<forall>e. map_of (conns s) p = Some e \<longrightarrow> 0 \<le> ceCount e \<and> (\<not> tracks k s p \<longrightarrow> ceHeartbeatAt e \<le> hDownAt s p)) \<and>
     (tracks k s p \<longrightarrow>
        map_of (conns s) p = Some \<lparr>ceCount = countOf (hCount s p) k, ceHeartbeatAt = hBeat s p\<rparr> \<and>
        hBeat s p \<le> hNow s \<and> hNow s \<le> hBeat s p + gap)"

definition countsOk :: "key \<Rightarrow> hsys \<Rightarrow> bool" where
  "countsOk k s \<longleftrightarrow> (\<forall>p. in_int32 (countOf (hCount s p) k) \<and> 0 \<le> countOf (hCount s p) k)"

definition hbInv :: "key \<Rightarrow> duration \<Rightarrow> hsys \<Rightarrow> bool" where
  "hbInv k gap s \<longleftrightarrow> distinct (map fst (conns s)) \<and> countsOk k s \<and> (\<forall>p. entryOk k gap s p)"

lemma hbInv_start: "hbInv k gap (hsysStart t ws)"
  by (simp add: hbInv_def hsysStart_def entryOk_def countsOk_def tracks_def countOf_def in_int32_def)

lemma conns_published [simp]:
  "conns (published k p s) =
     AList.update p \<lparr>ceCount = countOf (hCount s p) k, ceHeartbeatAt = hNow s\<rparr> (conns s)"
  by (simp add: published_def withConnection_def)

lemma hbInv_published:
  assumes "distinct (map fst (conns s))" and "countsOk k s" and "0 \<le> gap"
    and "tracks k s p" and "hDownAt s p \<le> hNow s" and "\<And>q. q \<noteq> p \<Longrightarrow> entryOk k gap s q"
  shows "hbInv k gap (published k p s)"
proof -
  have "entryOk k gap (published k p s) q" for q
    using assms unfolding entryOk_def countsOk_def tracks_def
    by (cases "q = p") (simp_all add: published_def withConnection_def update_conv')
  then show ?thesis
    using assms(1,2) by (simp add: hbInv_def distinct_update countsOk_def published_def withConnection_def)
qed

lemma countsOk_opened:
  "countsOk k s \<Longrightarrow> countOf (hCount s p) k < 2 ^ 31 - 1 \<Longrightarrow> countsOk k (s\<lparr>hCount := (hCount s)(p := opened (hCount s p) k)\<rparr>)"
  by (auto simp: countsOk_def in_int32_def)

lemma countsOk_closed: "countsOk k s \<Longrightarrow> countsOk k (s\<lparr>hCount := (hCount s)(p := closed (hCount s p) k)\<rparr>)"
  unfolding countsOk_def
proof
  fix q
  assume ok: "\<forall>p. in_int32 (countOf (hCount s p) k) \<and> 0 \<le> countOf (hCount s p) k"
  from spec [OF ok, of p] have "in_int32 (countOf (hCount s p) k - 1) \<or> countOf (hCount s p) k = 0"
    unfolding in_int32_def by linarith
  with ok show "in_int32 (countOf (hCount (s\<lparr>hCount := (hCount s)(p := closed (hCount s p) k)\<rparr>) q) k) \<and>
      0 \<le> countOf (hCount (s\<lparr>hCount := (hCount s)(p := closed (hCount s p) k)\<rparr>) q) k"
    by auto
qed

lemma hbInv_step:
  assumes "hb_step app k gap s s'" and "hbInv k gap s" and "0 \<le> gap"
  shows "hbInv k gap s'"
  using assms(1,2)
proof (induction rule: hb_step.induct)
  case (connect s p)
  then show ?case using assms(3)
    by (intro hbInv_published countsOk_opened) (auto simp: hbInv_def entryOk_def tracks_def opened_def)
next
  case (disconnect s p)
  then show ?case using assms(3)
    by (intro hbInv_published countsOk_closed) (auto simp: hbInv_def entryOk_def tracks_def closed_def)
next
  case (beat s p)
  then show ?case using assms(3) by (intro hbInv_published) (auto simp: hbInv_def, simp add: entryOk_def)
next
  case (crash s p)
  have "entryOk k gap (s\<lparr>hUp := (hUp s)(p := False), hDownAt := (hDownAt s)(p := hNow s)\<rparr>) q"
    if "entryOk k gap s q" for q
    using that unfolding entryOk_def tracks_def by auto
  with crash show ?case by (simp add: hbInv_def countsOk_def)
next
  case (start s p)
  then show ?case by (auto simp: hbInv_def entryOk_def countsOk_def tracks_def countOf_def in_int32_def)
next
  case (time d s)
  then show ?case by (auto simp: hbInv_def entryOk_def countsOk_def tracks_def) (meson add_increasing2 order_trans)
qed (auto simp: hbInv_def entryOk_def countsOk_def tracks_def scaledDown_def)

lemma hbInv_reachable:
  "(hb_step app k gap)\<^sup>*\<^sup>* (hsysStart t ws) s \<Longrightarrow> 0 \<le> gap \<Longrightarrow> hbInv k gap s"
  by (induction rule: rtranclp_induct) (auto intro: hbInv_start hbInv_step)

section \<open>Open connections and the Reaper\<close>

lemma conns_lookup: "hbInv k gap s \<Longrightarrow> c \<in> set (conns s) \<Longrightarrow> map_of (conns s) (fst c) = Some (snd c)"
  by (cases c) (simp add: hbInv_def)

lemma hbInv_nonneg: "hbInv k gap s \<Longrightarrow> \<forall>c\<in>set (conns s). 0 \<le> ceCount (snd c)"
  using conns_lookup [of k gap s] unfolding hbInv_def entryOk_def by blast

lemma tracked_entry:
  assumes "hbInv k gap s" and "gap < connThreshold app" and "tracks k s p"
  shows "(p, \<lparr>ceCount = countOf (hCount s p) k, ceHeartbeatAt = hBeat s p\<rparr>) \<in> set (conns s)"
    and "timeSub (hNow s) (hBeat s p) < connThreshold app"
proof -
  from assms(1,3) have entry: "map_of (conns s) p = Some \<lparr>ceCount = countOf (hCount s p) k, ceHeartbeatAt = hBeat s p\<rparr>"
    and age: "hBeat s p \<le> hNow s" "hNow s \<le> hBeat s p + gap"
    unfolding hbInv_def entryOk_def by blast+
  from entry show "(p, \<lparr>ceCount = countOf (hCount s p) k, ceHeartbeatAt = hBeat s p\<rparr>) \<in> set (conns s)"
    by (rule map_of_SomeD)
  from age assms(2) show "timeSub (hNow s) (hBeat s p) < connThreshold app" by (simp add: timeSub_def)
qed

text \<open>What still counts belongs to a replica that tracks the workspace, or that went down less than the
  threshold ago.\<close>

lemma alive_entry:
  assumes "hbInv k gap s" and "c \<in> set (conns s)" and "keepsAlive app (hNow s) c"
  shows "if tracks k s (fst c) then 0 < countOf (hCount s (fst c)) k
    else hNow s - hDownAt s (fst c) < connThreshold app"
proof -
  have entry: "map_of (conns s) (fst c) = Some (snd c)" using conns_lookup assms(1,2) .
  have ok: "entryOk k gap s (fst c)" using assms(1) by (simp add: hbInv_def)
  have alive: "timeSub (hNow s) (ceHeartbeatAt (snd c)) < connThreshold app" "0 < ceCount (snd c)"
    using assms(3) by (simp_all add: keepsAlive_def)
  have "connThreshold app \<le> 2 ^ 63 - 1"
    using wrap64_range [of "2 * ConnectionHeartbeatInterval (spLifecycle (appSpec app))"]
    by (simp add: connThreshold_def in_int64_def)
  then have "hNow s - ceHeartbeatAt (snd c) < connThreshold app" using alive(1) by (auto simp: timeSub_def min_def split: if_splits)
  then show ?thesis using entry ok alive(2) by (auto simp: entryOk_def)
qed

lemma open_session_not_reapable:
  assumes "hbInv k gap s" and "gap < connThreshold app" and "liveCount app (hNow s) (conns s) < 2 ^ 31"
    and "hUp s p" and "0 < countOf (hCount s p) k"
  shows "\<not> isReapable (hWs s) app (hNow s)"
proof -
  have "tracks k s p" using assms(4,5) by (auto simp: tracks_def countOf_def split: option.splits)
  from tracked_entry [OF assms(1,2) this] assms(5)
  have "list_ex (keepsAlive app (hNow s)) (conns s)" by (force simp: list_ex_iff keepsAlive_def)
  then show ?thesis
    using freshConnectionCount_zero_iff [OF hbInv_nonneg [OF assms(1)] assms(3)] by (simp add: isReapable_def split: option.split)
qed


text \<open>A replica starts, a session opens, half a minute passes; then the replica crashes and a minute passes.\<close>

definition sampleKey :: key where
  "sampleKey = (''ns'', ''u1'')"

definition hb_start :: "string \<Rightarrow> hsys \<Rightarrow> hsys" where
  "hb_start p s = s\<lparr>hUp := (hUp s)(p := True), hCount := (hCount s)(p := Map.empty)\<rparr>"
definition hb_connect :: "key \<Rightarrow> string \<Rightarrow> hsys \<Rightarrow> hsys" where
  "hb_connect k p s = published k p (s\<lparr>hCount := (hCount s)(p := opened (hCount s p) k)\<rparr>)"
definition hb_crash :: "string \<Rightarrow> hsys \<Rightarrow> hsys" where
  "hb_crash p s = s\<lparr>hUp := (hUp s)(p := False), hDownAt := (hDownAt s)(p := hNow s)\<rparr>"
definition hb_time :: "duration \<Rightarrow> hsys \<Rightarrow> hsys" where
  "hb_time d s = s\<lparr>hNow := hNow s + d\<rparr>"

lemmas hb_moves = hb_start_def hb_connect_def hb_crash_def hb_time_def published_def hsysStart_def sampleKey_def

definition sampleSession :: hsys where
  "sampleSession = hb_time (30 * second) (hb_connect sampleKey ''router-0'' (hb_start ''router-0''
     (hsysStart (9000 * second) (readyWs ''u1'' 0))))"

definition sampleCrashed :: hsys where
  "sampleCrashed = hb_time (60 * second) (hb_crash ''router-0'' sampleSession)"

lemma sampleSession_reachable:
  "(hb_step sampleApp sampleKey (30 * second))\<^sup>*\<^sup>* (hsysStart (9000 * second) (readyWs ''u1'' 0)) sampleSession"
proof -
  let ?s0 = "hsysStart (9000 * second) (readyWs ''u1'' 0)"
  let ?s1 = "hb_start ''router-0'' ?s0"
  let ?s2 = "hb_connect sampleKey ''router-0'' ?s1"
  have "hb_step sampleApp sampleKey (30 * second) ?s0 ?s1"
    unfolding hb_start_def by (rule hb_step.start) (simp add: hsysStart_def)
  moreover have "hb_step sampleApp sampleKey (30 * second) ?s1 ?s2"
    unfolding hb_connect_def by (rule hb_step.connect) (simp_all add: hb_moves countOf_def)
  moreover have "hb_step sampleApp sampleKey (30 * second) ?s2 sampleSession"
    unfolding sampleSession_def hb_time_def
    by (rule hb_step.time) (auto simp: hb_moves tracks_def second_def split: if_splits)
  ultimately show ?thesis by (meson rtranclp.rtrancl_into_rtrancl rtranclp.rtrancl_refl)
qed

lemma sampleCrashed_reachable:
  "(hb_step sampleApp sampleKey (30 * second))\<^sup>*\<^sup>* (hsysStart (9000 * second) (readyWs ''u1'' 0)) sampleCrashed"
proof -
  have "hb_step sampleApp sampleKey (30 * second) sampleSession (hb_crash ''router-0'' sampleSession)"
    unfolding hb_crash_def by (rule hb_step.crash) (simp add: sampleSession_def hb_moves)
  moreover have "hb_step sampleApp sampleKey (30 * second) (hb_crash ''router-0'' sampleSession) sampleCrashed"
    unfolding sampleCrashed_def hb_time_def
    by (rule hb_step.time) (auto simp: sampleSession_def hb_moves tracks_def second_def split: if_splits)
  ultimately show ?thesis
    using sampleSession_reachable by (meson rtranclp.rtrancl_into_rtrancl)
qed


section \<open>A publication that is overtaken\<close>

text \<open>One replica with its publications in two steps, as the code makes them: the count is read under the mutex
  (by \<open>Open\<close>, by \<open>Close\<close> or by the snapshot of \<open>HeartbeatAll\<close>), and written to the API server after the mutex is
  released.\<close>

record psys =
  pCounts :: counts
  pWs :: workspace
  pPending :: "int list"

inductive pub_step :: "key \<Rightarrow> string \<Rightarrow> gotime \<Rightarrow> psys \<Rightarrow> psys \<Rightarrow> bool" for k :: key and p :: string and t :: gotime where
  openCount: "pub_step k p t s (s\<lparr>pCounts := opened (pCounts s) k,
    pPending := pPending s @ [countOf (opened (pCounts s) k) k]\<rparr>)"
| closeCount: "pub_step k p t s (s\<lparr>pCounts := closed (pCounts s) k,
    pPending := pPending s @ [countOf (closed (pCounts s) k) k]\<rparr>)"
| snapshot: "pCounts s k = Some n \<Longrightarrow> pub_step k p t s (s\<lparr>pPending := pPending s @ [n]\<rparr>)"
| patched: "pPending s = xs @ n # ys \<Longrightarrow>
    pub_step k p t s (s\<lparr>pWs := withConnection p n t (pWs s), pPending := xs @ ys\<rparr>)"

text \<open>A heartbeat that takes its snapshot just before a connection opens and writes it just after leaves the
  published count at zero while the connection is open and no publication is outstanding; only the next heartbeat
  corrects it.\<close>

lemma overtaken_heartbeat_hides_connection:
  assumes "countOf cs k = 0" and "cs k \<noteq> None"
  shows "\<exists>s. (pub_step k p t)\<^sup>*\<^sup>* \<lparr>pCounts = cs, pWs = ws, pPending = []\<rparr> s \<and> countOf (pCounts s) k = 1 \<and> pPending s = [] \<and>
     map_of (Connections (wsStatus (pWs s))) p = Some \<lparr>ceCount = 0, ceHeartbeatAt = t\<rparr>"
proof -
  have z: "cs k = Some 0" using assms by (auto simp: countOf_def)
  define s0 where "s0 = \<lparr>pCounts = cs, pWs = ws, pPending = []\<rparr>"
  define s1 where "s1 = s0\<lparr>pPending := pPending s0 @ [0]\<rparr>"
  define s2 where "s2 = s1\<lparr>pCounts := opened (pCounts s1) k, pPending := pPending s1 @ [countOf (opened (pCounts s1) k) k]\<rparr>"
  define s3 where "s3 = s2\<lparr>pWs := withConnection p 1 t (pWs s2), pPending := [0] @ []\<rparr>"
  define s4 where "s4 = s3\<lparr>pWs := withConnection p 0 t (pWs s3), pPending := [] @ []\<rparr>"
  note defs = s0_def s1_def s2_def s3_def s4_def
  have one: "countOf (opened cs k) k = 1" using assms(1) by (simp add: in_int32_def)
  have "pub_step k p t s0 s1" unfolding s1_def by (rule pub_step.snapshot) (simp add: s0_def z)
  moreover have "pub_step k p t s1 s2" unfolding s2_def by (rule pub_step.openCount)
  moreover have "pub_step k p t s2 s3" unfolding s3_def by (rule pub_step.patched) (simp add: one s2_def s1_def s0_def del: countOf_opened)
  moreover have "pub_step k p t s3 s4" unfolding s4_def by (rule pub_step.patched) (simp add: s3_def)
  ultimately have "(pub_step k p t)\<^sup>*\<^sup>* s0 s4" by (meson rtranclp.rtrancl_into_rtrancl rtranclp.rtrancl_refl)
  moreover have "countOf (pCounts s4) k = 1" "pPending s4 = []" using one by (simp_all add: defs del: countOf_opened)
  moreover have "map_of (Connections (wsStatus (pWs s4))) p = Some \<lparr>ceCount = 0, ceHeartbeatAt = t\<rparr>" by (simp add: s4_def)
  ultimately show ?thesis unfolding s0_def by blast
qed

end
