(* ===== verification/Cmd_Controller.thy ===== *)
theory Cmd_Controller
  imports Go_Flag Cmd_Router Rbac Admission
begin

text \<open>
  \<open>cmd/controller.go\<close>: the controller's startup contract (flags and environment variables), the lease
  snapshot and the leaderless interval computed from it, the RBAC probe of the served namespaces, and what the
  process does when it wins the election.

  The API server's answers to the Lease read and to an access review are parameters (\<open>leaseGet\<close>,
  \<open>accessReview\<close>), like the environment variables. \<open>runController\<close> as a whole is in \<open>Controller_Process\<close>.
\<close>

section \<open>parseControllerFlags\<close>

definition leaderElectionID :: string where
  "leaderElectionID = ''per-user-container-operator-leader''"

record controllerConfig =
  WatchNamespaces :: "string list"
  ccPodCIDR :: string
  ccNodeCIDR :: string
  ccMetricsAddr :: string
  ccRouterImage :: string
  ccPodName :: string
  ccPodNamespace :: string

datatype controllerFlagError = ControllerFlagError flagError | WatchNamespacesRequired | CIDRsRequired
  | RelatedImageRequired | PodIdentityRequired | NoNamespaces

definition controllerFlagSet :: flagSet where
  "controllerFlagSet =
     [''watch-namespaces'' \<mapsto> VString [], ''pod-cidr'' \<mapsto> VString [], ''node-cidr'' \<mapsto> VString [],
      ''metrics-addr'' \<mapsto> VString ('':'' @ Itoa MetricsPort)]"

definition splitNamespaces :: "string \<Rightarrow> string list" where
  "splitNamespaces s = filter (\<lambda>ns. ns \<noteq> []) (map TrimSpace (Split (CHR '','') s))"

definition controllerConfigOf :: "(string \<Rightarrow> string) \<Rightarrow> flagSet \<Rightarrow> controllerFlagError + controllerConfig" where
  "controllerConfigOf getenv fs =
     (if TrimSpace (strFlag fs ''watch-namespaces'') = [] then Inl WatchNamespacesRequired
      else if strFlag fs ''pod-cidr'' = [] \<or> strFlag fs ''node-cidr'' = [] then Inl CIDRsRequired
      else if getenv ''RELATED_IMAGE_ROUTER'' = [] then Inl RelatedImageRequired
      else if getenv ''POD_NAME'' = [] \<or> getenv ''POD_NAMESPACE'' = [] then Inl PodIdentityRequired
      else let namespaces = splitNamespaces (strFlag fs ''watch-namespaces'') in
        if length namespaces = 0 then Inl NoNamespaces
        else Inr \<lparr>WatchNamespaces = namespaces, ccPodCIDR = strFlag fs ''pod-cidr'',
               ccNodeCIDR = strFlag fs ''node-cidr'', ccMetricsAddr = strFlag fs ''metrics-addr'',
               ccRouterImage = getenv ''RELATED_IMAGE_ROUTER'', ccPodName = getenv ''POD_NAME'',
               ccPodNamespace = getenv ''POD_NAMESPACE''\<rparr>)"

definition parseControllerFlags ::
    "(string \<Rightarrow> string) \<Rightarrow> string list \<Rightarrow> controllerFlagError + controllerConfig" where
  "parseControllerFlags getenv args =
     (case parseFlags controllerFlagSet args of
        Inl e \<Rightarrow> Inl (ControllerFlagError e)
      | Inr fs \<Rightarrow> controllerConfigOf getenv fs)"

section \<open>The lease snapshot\<close>

text \<open>The two fields of a Lease's spec that are read.\<close>

record leaseSpec =
  HolderIdentity :: "string option"
  RenewTime :: "gotime option"

record leaseSnapshot =
  snFound :: bool
  snHolderIdentity :: string
  snRenewTime :: gotime

definition snapshotLease :: "error + leaseSpec \<Rightarrow> error + leaseSnapshot" where
  "snapshotLease got =
     (case got of
        Inl e \<Rightarrow>
          if IsNotFound e then Inr \<lparr>snFound = False, snHolderIdentity = [], snRenewTime = zeroTime\<rparr> else Inl e
      | Inr lease \<Rightarrow>
          Inr \<lparr>snFound = True,
               snHolderIdentity = (case HolderIdentity lease of None \<Rightarrow> [] | Some h \<Rightarrow> h),
               snRenewTime = (case RenewTime lease of None \<Rightarrow> zeroTime | Some t \<Rightarrow> t)\<rparr>)"

definition leaseIsSameHolder :: "string \<Rightarrow> string \<Rightarrow> bool" where
  "leaseIsSameHolder holderIdentity podName = HasPrefix holderIdentity (podName @ ''_'')"

definition computeLeaderless :: "gotime \<Rightarrow> leaseSnapshot \<Rightarrow> string \<Rightarrow> duration" where
  "computeLeaderless t snap podName =
     (if \<not> snFound snap then 0
      else if leaseIsSameHolder (snHolderIdentity snap) podName then 0
      else timeSub t (snRenewTime snap))"

section \<open>The namespace probe\<close>

record resourceAttributes =
  raNamespace :: string
  raGroup :: string
  raResource :: string
  raVerb :: string

definition reviewOf :: "string \<Rightarrow> namespaceCheck \<Rightarrow> resourceAttributes" where
  "reviewOf ns c =
     \<lparr>raNamespace = (if ncClusterScoped c then [] else ns), raGroup = ncGroup c, raResource = ncResource c,
      raVerb = ncVerb c\<rparr>"

definition failedCheck :: "string \<Rightarrow> namespaceCheck \<Rightarrow> string" where
  "failedCheck ns c =
     ncGroup c @ ''/'' @ ncResource c @ '' '' @ ncVerb c @ '' ('' @
       (if ncClusterScoped c then ''cluster-scoped'' else ns) @ '')''"

text \<open>The loop over the checks, with its two accumulators; the review answers whether the verb is allowed.\<close>

fun probeChecks ::
    "(resourceAttributes \<Rightarrow> 's \<Rightarrow> (error + bool) \<times> 's) \<Rightarrow> string \<Rightarrow> namespaceCheck list \<Rightarrow> bool \<Rightarrow> string list \<Rightarrow>
     ('s, bool \<times> string list) m" where
  "probeChecks accessReview ns [] ok failed = ret (ok, failed)"
| "probeChecks accessReview ns (c # cs) ok failed = do {
     r \<leftarrow> ask (accessReview (reviewOf ns c)) (\<lambda>_. []);
     if r \<noteq> Inr True then probeChecks accessReview ns cs False (failed @ [failedCheck ns c])
     else probeChecks accessReview ns cs ok failed
   }"

definition probeNamespace ::
    "(resourceAttributes \<Rightarrow> 's \<Rightarrow> (error + bool) \<times> 's) \<Rightarrow> string \<Rightarrow> ('s, bool \<times> string list) m" where
  "probeNamespace accessReview ns = probeChecks accessReview ns ControllerNamespaceChecks True []"

section \<open>runController\<close>

text \<open>The probe of every served namespace, before the manager exists.\<close>

fun probeAll ::
    "(resourceAttributes \<Rightarrow> 's \<Rightarrow> (error + bool) \<times> 's) \<Rightarrow> string list \<Rightarrow> ('s, unit) m" where
  "probeAll accessReview [] = ret ()"
| "probeAll accessReview (ns # nss) = do {
     r \<leftarrow> probeNamespace accessReview ns;
     record_metric (SetWatchedNamespaceReady ns (fst r));
     probeAll accessReview nss
   }"

text \<open>The goroutine that waits for the election.\<close>

definition onElected :: "('s, 'x) env_scheme \<Rightarrow> controllerConfig \<Rightarrow> leaseSnapshot \<Rightarrow> ('s, error option) m" where
  "onElected env cfg snap = do {
     t \<leftarrow> now env;
     let leaderless = computeLeaderless t snap (ccPodName cfg);
     record_metric (SetLeader (ccPodName cfg) True);
     OnLeaseAcquired env leaderless
   }"

section \<open>The startup contract\<close>

text \<open>An accepted configuration names at least one namespace, none of them empty, both CIDRs, the router's image
  and the pod.\<close>

lemma accepted_controller_config:
  assumes "parseControllerFlags getenv args = Inr cfg"
  shows "WatchNamespaces cfg \<noteq> [] \<and> [] \<notin> set (WatchNamespaces cfg) \<and> ccPodCIDR cfg \<noteq> [] \<and> ccNodeCIDR cfg \<noteq> [] \<and>
    ccRouterImage cfg \<noteq> [] \<and> ccPodName cfg \<noteq> [] \<and> ccPodNamespace cfg \<noteq> []"
  using assms
  by (auto simp: parseControllerFlags_def controllerConfigOf_def splitNamespaces_def Let_def
      split: sum.splits if_splits)

section \<open>The probe is exact\<close>

text \<open>An authorizer whose answer depends on the attributes alone.\<close>

definition decides :: "(resourceAttributes \<Rightarrow> 's \<Rightarrow> (error + bool) \<times> 's) \<Rightarrow> (resourceAttributes \<Rightarrow> bool) \<Rightarrow> bool" where
  "decides accessReview allowed \<longleftrightarrow> (\<forall>a s. fst (accessReview a s) = Inr True \<longleftrightarrow> allowed a)"

lemma run_probeChecks:
  assumes "decides accessReview allowed"
  shows "fst (run_state (probeChecks accessReview ns cs ok failed) w) =
    (ok \<and> list_all (\<lambda>c. allowed (reviewOf ns c)) cs,
     failed @ map (failedCheck ns) (filter (\<lambda>c. \<not> allowed (reviewOf ns c)) cs))"
  using assms by (induction cs arbitrary: ok failed w) (simp_all add: decides_def)

text \<open>The startup probe is exact: a namespace is reported ready if and only if every check of the list
  is allowed, a cluster-scoped one asked without a namespace, and the failures listed are those of the refused
  checks, each of them, in order. An authorizer error counts as a refusal.\<close>

theorem probe_exact:
  assumes "decides accessReview allowed"
  shows "fst (run_state (probeNamespace accessReview ns) w) =
    ((\<forall>c \<in> set ControllerNamespaceChecks.
        allowed \<lparr>raNamespace = (if ncClusterScoped c then [] else ns), raGroup = ncGroup c, raResource = ncResource c,
                 raVerb = ncVerb c\<rparr>),
     map (failedCheck ns) (filter (\<lambda>c. \<not> allowed (reviewOf ns c)) ControllerNamespaceChecks))"
  unfolding probeNamespace_def run_probeChecks [OF assms] by (simp add: reviewOf_def list_all_iff)

text \<open>A cluster where the one cluster-scoped patch is refused.\<close>

theorem probe_exact_witness:
  "fst (run_state (probeNamespace (\<lambda>a s. (Inr (raResource a \<noteq> ''persistentvolumes'' \<or> raVerb a \<noteq> ''patch''), s)) ''ns'')
      \<lparr>cluster = (), trace = []\<rparr>) = (False, [''/persistentvolumes patch (cluster-scoped)''])"
proof -
  let ?allowed = "\<lambda>a. raResource a \<noteq> ''persistentvolumes'' \<or> raVerb a \<noteq> ''patch''"
  have "decides (\<lambda>a s. (Inr (?allowed a), s)) ?allowed" by (simp add: decides_def)
  from probe_exact [OF this, of "''ns''" "\<lparr>cluster = (), trace = []\<rparr>"] show ?thesis
    by (simp add: ControllerNamespaceChecks_def check_def clusterCheck_def failedCheck_def reviewOf_def)
qed

section \<open>The leaderless interval\<close>

text \<open>The identity controller-runtime gives a holder: the pod's host name, an underscore and a fresh id.\<close>

lemma beforeUnderscore: "CHR ''_'' \<notin> set h \<Longrightarrow> takeWhile (\<lambda>c. c \<noteq> CHR ''_'') (h @ CHR ''_'' # u) = h"
  by (induction h) auto

lemma leaseIsSameHolder_iff:
  assumes "CHR ''_'' \<notin> set host" and "CHR ''_'' \<notin> set podName"
  shows "leaseIsSameHolder (host @ ''_'' @ uid) podName \<longleftrightarrow> host = podName"
proof
  assume "leaseIsSameHolder (host @ ''_'' @ uid) podName"
  then obtain rest where "host @ CHR ''_'' # uid = podName @ CHR ''_'' # rest"
    unfolding leaseIsSameHolder_def HasPrefix_def by (metis append.assoc append_Cons append_Nil append_take_drop_id)
  then show "host = podName" using beforeUnderscore [OF assms(1)] beforeUnderscore [OF assms(2)] by metis
next
  assume "host = podName"
  then show "leaseIsSameHolder (host @ ''_'' @ uid) podName" by (simp add: leaseIsSameHolder_def HasPrefix_def)
qed

text \<open>A Lease found without a renew time is compared with the zero time: the difference saturates at 292 years,
  and every inherited deadline is moved by that much.\<close>

lemma unrenewed_lease_saturates:
  assumes "snapshotLease (Inr \<lparr>HolderIdentity = h, RenewTime = None\<rparr>) = Inr snap" and "0 \<le> t"
    and "\<not> leaseIsSameHolder (case h of None \<Rightarrow> [] | Some h \<Rightarrow> h) podName"
  shows "computeLeaderless t snap podName = 2 ^ 63 - 1"
  using assms by (auto simp: snapshotLease_def computeLeaderless_def timeSub_def zeroTime_def second_def)


text \<open>A Lease last renewed by another pod ninety seconds before the election.\<close>

definition sampleControllerConfig :: controllerConfig where
  "sampleControllerConfig = \<lparr>WatchNamespaces = [''ns''], ccPodCIDR = ''10.0.0.0/8'', ccNodeCIDR = ''192.168.0.0/16'',
     ccMetricsAddr = '':8080'', ccRouterImage = ''router:1'', ccPodName = ''ctl-1'', ccPodNamespace = ''ops''\<rparr>"


end
