(* ===== verification/Ticker_Loops.thy ===== *)
theory Ticker_Loops
  imports Reaper Reclaimer Conn_Tracker
begin

text \<open>
  The background loops around the periodic work: \<open>Reaper.Start\<close>, \<open>Reclaimer.Start\<close> and
  \<open>ConnectionTracker.Run\<close>. Each makes a ticker and selects on it and on its context until the
  context is done.

  What the select receives is an input, a list of wake-ups; when both channels are ready Go picks
  either, so every list is possible. A list that ends before the context is done leaves the loop
  waiting. The result says whether the loop has returned, with the in-memory state it carries.
  \<open>time.NewTicker\<close> panics on an interval that is not positive; that is the result \<open>None\<close>.

  The locale \<open>ticker_loop\<close> states the shape of these loops and its consequences: a loop returns
  exactly when its context is done, and makes one pass per tick whatever earlier passes reported.
\<close>

section \<open>The loops\<close>

definition NewTicker :: "duration \<Rightarrow> duration option" where
  "NewTicker d = (if d \<le> 0 then None else Some d)"

datatype wake = CtxDone | TickerFired

definition reaperTickInterval :: duration where
  "reaperTickInterval = 10 * second"

definition reclaimerTickInterval :: duration where
  "reclaimerTickInterval = 60 * second"

definition reaper_tickInterval :: "duration \<Rightarrow> duration" where
  "reaper_tickInterval d = (if d > 0 then d else reaperTickInterval)"

definition reclaimer_tickInterval :: "duration \<Rightarrow> duration" where
  "reclaimer_tickInterval d = (if d > 0 then d else reclaimerTickInterval)"

fun reaperTicks :: "('s, 'x) env_scheme \<Rightarrow> passes \<Rightarrow> wake list \<Rightarrow> ('s, bool \<times> passes) m" where
  "reaperTicks env lastPass [] = ret (False, lastPass)"
| "reaperTicks env lastPass (CtxDone # ws) = ret (True, lastPass)"
| "reaperTicks env lastPass (TickerFired # ws) = do {
     r \<leftarrow> Reap env lastPass;
     reaperTicks env (snd r) ws
   }"

definition Reaper_Start ::
    "('s, 'x) env_scheme \<Rightarrow> duration \<Rightarrow> passes \<Rightarrow> wake list \<Rightarrow> ('s, (bool \<times> passes) option) m" where
  "Reaper_Start env tickInterval lastPass ws =
     (case NewTicker (reaper_tickInterval tickInterval) of
        None \<Rightarrow> ret None
      | Some _ \<Rightarrow> do { r \<leftarrow> reaperTicks env lastPass ws; ret (Some r) })"

fun reclaimerTicks :: "('s, 'x) env_scheme \<Rightarrow> passes \<Rightarrow> wake list \<Rightarrow> ('s, bool \<times> passes) m" where
  "reclaimerTicks env lastPass [] = ret (False, lastPass)"
| "reclaimerTicks env lastPass (CtxDone # ws) = ret (True, lastPass)"
| "reclaimerTicks env lastPass (TickerFired # ws) = do {
     r \<leftarrow> Reclaim env lastPass;
     reclaimerTicks env (snd r) ws
   }"

definition Reclaimer_Start ::
    "('s, 'x) env_scheme \<Rightarrow> duration \<Rightarrow> passes \<Rightarrow> wake list \<Rightarrow> ('s, (bool \<times> passes) option) m" where
  "Reclaimer_Start env tickInterval lastPass ws =
     (case NewTicker (reclaimer_tickInterval tickInterval) of
        None \<Rightarrow> ret None
      | Some _ \<Rightarrow> do { r \<leftarrow> reclaimerTicks env lastPass ws; ret (Some r) })"

text \<open>The tracker's counts change between ticks, under its mutex. A tick of \<open>Run\<close> therefore comes with the
  counts it finds and the order in which it ranges over their keys.\<close>

datatype runWake = RunDone | RunTick counts "key list"

definition snapshotKeys :: "counts \<Rightarrow> key list \<Rightarrow> bool" where
  "snapshotKeys cs ks \<longleftrightarrow> distinct ks \<and> set ks = dom cs"

fun trackerTicks ::
    "('s, 'x) env_scheme \<Rightarrow> string \<Rightarrow> string \<Rightarrow> runWake list \<Rightarrow> ('s, bool) m" where
  "trackerTicks env app podName [] = ret False"
| "trackerTicks env app podName (RunDone # ws) = ret True"
| "trackerTicks env app podName (RunTick cs ks # ws) = do {
     _ \<leftarrow> HeartbeatAll env app podName cs ks;
     trackerTicks env app podName ws
   }"

definition runInterval :: "duration \<Rightarrow> duration" where
  "runInterval d = (if d \<le> 0 then 30 * second else d)"

definition Run ::
    "('s, 'x) env_scheme \<Rightarrow> string \<Rightarrow> string \<Rightarrow> duration \<Rightarrow> runWake list \<Rightarrow> ('s, bool option) m" where
  "Run env app podName heartbeatInterval ws =
     (case NewTicker (runInterval heartbeatInterval) of
        None \<Rightarrow> ret None
      | Some _ \<Rightarrow> do { r \<leftarrow> trackerTicks env app podName ws; ret (Some r) })"

section \<open>What the loops have in common\<close>

definition ticksBefore :: "('w \<Rightarrow> bool) \<Rightarrow> 'w list \<Rightarrow> 'w list" where
  "ticksBefore isDone ws = takeWhile (\<lambda>w. \<not> isDone w) ws"

lemma ticksBefore_simps [simp]:
  "ticksBefore d [] = []"
  "ticksBefore d (w # ws) = (if d w then [] else w # ticksBefore d ws)"
  by (simp_all add: ticksBefore_def)

locale ticker_loop =
  fixes loop :: "'st \<Rightarrow> 'w list \<Rightarrow> ('s, bool \<times> 'st) m"
    and isDone :: "'w \<Rightarrow> bool"
    and pass :: "'w \<Rightarrow> 'st \<Rightarrow> ('s, 'st) m"
  assumes loop_waits: "loop st [] = ret (False, st)"
    and loop_done: "isDone w \<Longrightarrow> loop st (w # ws) = ret (True, st)"
    and loop_tick: "\<not> isDone w \<Longrightarrow> loop st (w # ws) = do { st' \<leftarrow> pass w st; loop st' ws }"
    and pass_runs: "obeys (pass w st) (\<lambda>_ _. True)"
begin

lemma loop_cases:
  assumes "isDone w \<Longrightarrow> P (ret (True, st))"
    and "\<not> isDone w \<Longrightarrow> P (do { st' \<leftarrow> pass w st; loop st' ws })"
  shows "P (loop st (w # ws))"
  using assms loop_done loop_tick by metis

text \<open>The loop returns exactly when its context is done.\<close>

lemma loop_returns: "obeys (loop st ws) (\<lambda>x _. fst x \<longleftrightarrow> list_ex isDone ws)"
proof (induction ws arbitrary: st)
  case Nil
  then show ?case by (simp add: loop_waits obeys_return)
next
  case (Cons w ws)
  show ?case
    by (rule loop_cases) (auto intro!: obeys_return obeys_bind obeys_mono [OF pass_runs] obeys_mono [OF Cons.IH])
qed

lemma loop_emits: "(\<And>w st. \<not> isDone w \<Longrightarrow> emits P (pass w st)) \<Longrightarrow> emits P (loop st ws)"
proof (induction ws arbitrary: st)
  case Nil
  then show ?case by (simp add: loop_waits emits_return)
next
  case (Cons w ws)
  show ?case by (rule loop_cases) (auto intro!: emits_return emits_bind Cons)
qed

text \<open>A number of marked events per pass adds up over the ticks before the context is done.\<close>

lemma loop_counts:
  assumes "\<And>w st. obeys (pass w st) (\<lambda>_ es. length (filter mark es) = n w)"
  shows "obeys (loop st ws) (\<lambda>_ es. length (filter mark es) = sum_list (map n (ticksBefore isDone ws)))"
proof (induction ws arbitrary: st)
  case Nil
  then show ?case by (simp add: loop_waits obeys_return)
next
  case (Cons w ws)
  show ?case
    by (rule loop_cases)
      (auto intro!: obeys_return obeys_bind obeys_mono [OF assms] obeys_mono [OF Cons.IH])
qed

lemma loop_contract:
  assumes "\<And>w st. obeys (pass w st) (\<lambda>_ es. length (filter mark es) = n w)"
  shows "obeys (loop st ws) (\<lambda>x es. (fst x \<longleftrightarrow> list_ex isDone ws) \<and>
     length (filter mark es) = sum_list (map n (ticksBefore isDone ws)))"
  by (rule obeys_conj [OF loop_returns loop_counts [OF assms]])

end

section \<open>The passes\<close>

text \<open>A pass of the Reaper or the Reclaimer starts with one listing of the apps and makes no other.\<close>

fun listsApps :: "event \<Rightarrow> bool" where
  "listsApps (Api (ListCall KPerUserApp _ _) _) = True"
| "listsApps _ = False"

lemma obeys_count_none:
  "emits (\<lambda>e. \<not> mark e) m \<Longrightarrow> obeys m (\<lambda>_ es. length (filter mark es) = 0)"
  unfolding emits_def by (erule obeys_mono) (auto simp: list_all_iff filter_empty_conv)

lemma reapLoop_lists_no_apps: "emits (\<lambda>e. \<not> listsApps e) (reapLoop env t apps lp err)"
proof (rule reaping.loop_emits)
  fix app
  have "emits (\<lambda>e. \<not> listsApps e) (reapAll env app t ws err)" for ws err
    by (induction ws arbitrary: err) (auto simp: ScaleDown_def intro!: emits_rules)
  then show "emits (\<lambda>e. \<not> listsApps e) (reapApp env app t)"
    unfolding reapApp_def by (intro emits_rules) simp_all
qed (intro emits_rules, simp)

lemma reclaimLoop_lists_no_apps: "emits (\<lambda>e. \<not> listsApps e) (reclaimLoop env t apps lp err)"
proof (rule reclaiming.loop_emits)
  fix app
  have sweep: "emits (\<lambda>e. \<not> listsApps e) (deleteOrphans env app items pvcs err)" for items pvcs err
    by (induction pvcs arbitrary: err) (auto intro!: emits_rules)
  have all: "emits (\<lambda>e. \<not> listsApps e) (reclaimAll env app rc targets err)" for rc targets err
    by (induction targets arbitrary: err) (auto simp: reclaim_steps intro!: emits_rules)
  show "emits (\<lambda>e. \<not> listsApps e)
      (case spReclaim (appSpec app) of None \<Rightarrow> ret None | Some rc \<Rightarrow> reclaimApp env app rc t)"
    unfolding reclaimApp_def reclaimOrphanedPVCs_def
    by (intro emits_rules sweep all) simp_all
qed (rule emits_return)

lemma Reap_lists_once: "obeys (Reap env lp) (\<lambda>_ es. length (filter listsApps es) = 1)"
  unfolding Reap_def
  by (intro obeys_rules obeys_mono [OF obeys_count_none [OF reapLoop_lists_no_apps]]) simp_all

lemma Reclaim_lists_once: "obeys (Reclaim env lp) (\<lambda>_ es. length (filter listsApps es) = 1)"
  unfolding Reclaim_def
  by (intro obeys_rules obeys_mono [OF obeys_count_none [OF reclaimLoop_lists_no_apps]]) simp_all

text \<open>A heartbeat attempts one publication for each key of its snapshot, whatever the other attempts gave.\<close>

fun attempts :: "key \<Rightarrow> event \<Rightarrow> bool" where
  "attempts k (Api (Get KWorkspace k') _) = (k' = k)"
| "attempts _ _ = False"

lemma publish_attempts:
  "obeys (publish env app podName k' n) (\<lambda>_ es. length (filter (attempts k) es) = (if k' = k then 1 else 0))"
  unfolding publish_def by (intro obeys_rules) auto

lemma HeartbeatAll_attempts:
  "obeys (HeartbeatAll env app podName cs ks) (\<lambda>_ es. length (filter (attempts k) es) = count_list ks k)"
proof (induction ks)
  case (Cons k' ks)
  show ?case
    by (simp only: HeartbeatAll.simps, rule obeys_bind, rule obeys_mono [OF publish_attempts [of _ _ _ _ _ k]],
        rule obeys_mono [OF Cons.IH]) auto
qed (simp add: obeys_return)

section \<open>Interpretations\<close>

interpretation reaper_loop: ticker_loop "reaperTicks env" "\<lambda>w. w = CtxDone"
  "\<lambda>_ lp. do { r \<leftarrow> Reap env lp; ret (snd r) }" for env
proof unfold_locales
  fix w :: wake and lp
  show "obeys (do { r \<leftarrow> Reap env lp; ret (snd r) }) (\<lambda>_ _. True)"
    by (intro obeys_bind obeys_return obeys_mono [OF Reap_lists_once]) simp
next
  fix w st ws
  assume "w \<noteq> CtxDone"
  then show "reaperTicks env st (w # ws) = do { st' \<leftarrow> do { r \<leftarrow> Reap env st; ret (snd r) }; reaperTicks env st' ws }"
    by (cases w) simp_all
qed simp_all

interpretation reclaimer_loop: ticker_loop "reclaimerTicks env" "\<lambda>w. w = CtxDone"
  "\<lambda>_ lp. do { r \<leftarrow> Reclaim env lp; ret (snd r) }" for env
proof unfold_locales
  fix w :: wake and lp
  show "obeys (do { r \<leftarrow> Reclaim env lp; ret (snd r) }) (\<lambda>_ _. True)"
    by (intro obeys_bind obeys_return obeys_mono [OF Reclaim_lists_once]) simp
next
  fix w st ws
  assume "w \<noteq> CtxDone"
  then show "reclaimerTicks env st (w # ws) =
      do { st' \<leftarrow> do { r \<leftarrow> Reclaim env st; ret (snd r) }; reclaimerTicks env st' ws }"
    by (cases w) simp_all
qed simp_all

fun runPass :: "('s, 'x) env_scheme \<Rightarrow> string \<Rightarrow> string \<Rightarrow> runWake \<Rightarrow> ('s, unit) m" where
  "runPass env app podName RunDone = ret ()"
| "runPass env app podName (RunTick cs ks) = HeartbeatAll env app podName cs ks"

fun snapshotHas :: "key \<Rightarrow> runWake \<Rightarrow> nat" where
  "snapshotHas k RunDone = 0"
| "snapshotHas k (RunTick cs ks) = count_list ks k"

lemma snapshotHas_dom: "snapshotKeys cs ks \<Longrightarrow> snapshotHas k (RunTick cs ks) = (if k \<in> dom cs then 1 else 0)"
proof -
  have "distinct ks \<Longrightarrow> count_list ks k = (if k \<in> set ks then 1 else 0)" by (induction ks) auto
  then show "snapshotKeys cs ks \<Longrightarrow> ?thesis" by (simp add: snapshotKeys_def)
qed

lemma runPass_attempts:
  "obeys (runPass env app podName w) (\<lambda>_ es. length (filter (attempts k) es) = snapshotHas k w)"
  by (cases w) (simp_all add: obeys_return HeartbeatAll_attempts)

interpretation tracker_loop: ticker_loop
  "\<lambda>_ ws. do { r \<leftarrow> trackerTicks env app podName ws; ret (r, ()) }" "\<lambda>w. w = RunDone"
  "\<lambda>w _. runPass env app podName w" for env app podName
proof unfold_locales
  fix w :: runWake
  show "obeys (runPass env app podName w) (\<lambda>_ _. True)"
    by (rule obeys_mono [OF runPass_attempts]) simp
next
  fix w ws
  assume "w \<noteq> RunDone"
  then show "do { r \<leftarrow> trackerTicks env app podName (w # ws); ret (r, ()) } =
      do { _ \<leftarrow> runPass env app podName w; r \<leftarrow> trackerTicks env app podName ws; ret (r, ()) }"
    by (cases w) simp_all
qed simp_all

section \<open>The loops never stop\<close>

lemma tickers_start:
  "NewTicker (reaper_tickInterval d) \<noteq> None" "NewTicker (reclaimer_tickInterval d) \<noteq> None"
  "NewTicker (runInterval d) \<noteq> None"
  by (simp_all add: NewTicker_def reaper_tickInterval_def reclaimer_tickInterval_def runInterval_def
      reaperTickInterval_def reclaimerTickInterval_def second_def)

lemma obeys_with_ticker:
  assumes "NewTicker d \<noteq> None" and "obeys m (\<lambda>x es. Q (Some x) es)"
  shows "obeys (case NewTicker d of None \<Rightarrow> ret None | Some _ \<Rightarrow> do { r \<leftarrow> m; ret (Some r) }) Q"
proof -
  obtain i where "NewTicker d = Some i" using assms(1) by blast
  moreover have "obeys (do { r \<leftarrow> m; ret (Some r) }) Q"
    by (rule obeys_bind, rule obeys_mono [OF assms(2)]) (simp add: obeys_return)
  ultimately show ?thesis by simp
qed

lemma reaperTicks_contract:
  "obeys (reaperTicks env lp ws) (\<lambda>x es. (fst x \<longleftrightarrow> CtxDone \<in> set ws) \<and>
     length (filter listsApps es) = length (ticksBefore (\<lambda>w. w = CtxDone) ws))"
proof -
  have "obeys (do { r \<leftarrow> Reap env lp; ret (snd r) }) (\<lambda>_ es. length (filter listsApps es) = 1)" for lp
    by (intro obeys_bind obeys_return obeys_mono [OF Reap_lists_once]) simp
  from reaper_loop.loop_contract [where n = "\<lambda>_. 1", OF this, of lp ws] show ?thesis
    by (rule obeys_mono) (simp add: list_ex_iff sum_list_triv)
qed

lemma reclaimerTicks_contract:
  "obeys (reclaimerTicks env lp ws) (\<lambda>x es. (fst x \<longleftrightarrow> CtxDone \<in> set ws) \<and>
     length (filter listsApps es) = length (ticksBefore (\<lambda>w. w = CtxDone) ws))"
proof -
  have "obeys (do { r \<leftarrow> Reclaim env lp; ret (snd r) }) (\<lambda>_ es. length (filter listsApps es) = 1)" for lp
    by (intro obeys_bind obeys_return obeys_mono [OF Reclaim_lists_once]) simp
  from reclaimer_loop.loop_contract [where n = "\<lambda>_. 1", OF this, of lp ws] show ?thesis
    by (rule obeys_mono) (simp add: list_ex_iff sum_list_triv)
qed

lemma trackerTicks_contract:
  "obeys (trackerTicks env app podName rs) (\<lambda>x es. (x \<longleftrightarrow> RunDone \<in> set rs) \<and>
     length (filter (attempts k) es) = sum_list (map (snapshotHas k) (ticksBefore (\<lambda>w. w = RunDone) rs)))"
  using tracker_loop.loop_contract [OF runPass_attempts [where env = env and app = app and podName = podName and k = k],
      of rs]
  by (simp add: obeys_def list_ex_iff split_beta)

text \<open>Claim C34. The background loops survive every failure: whatever interval is configured no ticker panics;
  \<open>Reaper.Start\<close> and \<open>Reclaimer.Start\<close> return exactly when their context is done and until then make one
  pass for every tick, no matter which passes failed and how; and every tick of the connection tracker
  attempts one publication for each workspace in its counts (idle ones included), whichever publications fail.\<close>

theorem background_loops_survive:
  "obeys (Reaper_Start env d lp ws) (\<lambda>x es. \<exists>lp'. x = Some (CtxDone \<in> set ws, lp') \<and>
     length (filter listsApps es) = length (ticksBefore (\<lambda>w. w = CtxDone) ws)) \<and>
   obeys (Reclaimer_Start env d lp ws) (\<lambda>x es. \<exists>lp'. x = Some (CtxDone \<in> set ws, lp') \<and>
     length (filter listsApps es) = length (ticksBefore (\<lambda>w. w = CtxDone) ws)) \<and>
   obeys (Run env app podName d rs) (\<lambda>x es. x = Some (RunDone \<in> set rs) \<and>
     length (filter (attempts k) es) = sum_list (map (snapshotHas k) (ticksBefore (\<lambda>w. w = RunDone) rs)))"
  unfolding Reaper_Start_def Reclaimer_Start_def Run_def
  by (intro conjI obeys_with_ticker tickers_start obeys_mono [OF reaperTicks_contract]
      obeys_mono [OF reclaimerTicks_contract] obeys_mono [OF trackerTicks_contract [of _ _ _ _ k]])
    (auto simp: prod_eq_iff)

end
