(* ===== verification/Watch_Loop.thy ===== *)
theory Watch_Loop
  imports Resolver
begin

text \<open>
  The reconnecting watches of \<open>internal/router/resolve.go\<close>: \<open>watchDeletes\<close> with
  \<open>drainUntilClosedOrDone\<close>, \<open>sleepOrDone\<close> and the backoff between sessions, and the two watches
  that run it on the resolver's cache.

  What the client library and the context do is an input: a list of rounds, one per turn of the
  loop, each with the answer of the Watch call, what its channel delivers, how long the session
  lasted and whether the context was done at the points where the code looks. The result says
  whether the loop has returned, the state its handler left, and the delays it slept.

  Shown here: while the context lives the loop never returns, hands every event of every session to
  its handler in order, and sleeps between the configured bounds after each session; it returns on
  the first round in which the context is done.
\<close>

section \<open>The loop\<close>

definition defaultReconnectMinBackoff :: duration where
  "defaultReconnectMinBackoff = 200000000"
definition defaultReconnectMaxBackoff :: duration where
  "defaultReconnectMaxBackoff = 30 * second"

definition reconnectMinBackoff :: "duration \<Rightarrow> duration" where
  "reconnectMinBackoff d = (if d > 0 then d else defaultReconnectMinBackoff)"
definition reconnectMaxBackoff :: "duration \<Rightarrow> duration" where
  "reconnectMaxBackoff d = (if d > 0 then d else defaultReconnectMaxBackoff)"

definition nextBackoff :: "duration \<Rightarrow> duration \<Rightarrow> duration" where
  "nextBackoff d maxD = (let d' = wrap64 (d * 2) in if d' > maxD then maxD else d')"

text \<open>What a select of \<open>drainUntilClosedOrDone\<close> receives; an exhausted list leaves it waiting.\<close>

type_synonym watchEvent = "string \<times> watchObject"

datatype receive = RecvDone | RecvClosed | RecvEvent watchEvent

fun drainUntilClosedOrDone :: "(watchEvent \<Rightarrow> 'st \<Rightarrow> 'st) \<Rightarrow> 'st \<Rightarrow> receive list \<Rightarrow> bool \<times> 'st" where
  "drainUntilClosedOrDone onDelete st [] = (False, st)"
| "drainUntilClosedOrDone onDelete st (RecvDone # rs) = (True, st)"
| "drainUntilClosedOrDone onDelete st (RecvClosed # rs) = (True, st)"
| "drainUntilClosedOrDone onDelete st (RecvEvent evt # rs) = drainUntilClosedOrDone onDelete (onDelete evt st) rs"

datatype sleepEnd = SleepDone | TimerFired

fun sleepOrDone :: "sleepEnd \<Rightarrow> bool" where
  "sleepOrDone SleepDone = False"
| "sleepOrDone TimerFired = True"

text \<open>One turn of the loop: the context is done at its top; or the Watch call fails, with the state of the
  context after it and the end of the sleep; or a session with what it receives, its length, the state of the
  context after it and the end of the sleep.\<close>

datatype watchRound = CtxEnded | WatchError bool sleepEnd | WatchSession "receive list" duration bool sleepEnd

fun watchLoop ::
    "(watchEvent \<Rightarrow> 'st \<Rightarrow> 'st) \<Rightarrow> duration \<Rightarrow> duration \<Rightarrow> duration \<Rightarrow> 'st \<Rightarrow> watchRound list \<Rightarrow> bool \<times> 'st \<times> duration list" where
  "watchLoop onDelete minB maxB backoff st [] = (False, st, [])"
| "watchLoop onDelete minB maxB backoff st (CtxEnded # rs) = (True, st, [])"
| "watchLoop onDelete minB maxB backoff st (WatchError ctxErr sleep # rs) =
     (if ctxErr then (True, st, [])
      else if \<not> sleepOrDone sleep then (True, st, [backoff])
      else let (returned, st', slept) = watchLoop onDelete minB maxB (nextBackoff backoff maxB) st rs
           in (returned, st', backoff # slept))"
| "watchLoop onDelete minB maxB backoff st (WatchSession recvs lasted ctxErr sleep # rs) =
     (let (ended, st1) = drainUntilClosedOrDone onDelete st recvs in
      if \<not> ended then (False, st1, [])
      else if ctxErr then (True, st1, [])
      else if lasted \<ge> minB then
        if \<not> sleepOrDone sleep then (True, st1, [minB])
        else let (returned, st', slept) = watchLoop onDelete minB maxB minB st1 rs
             in (returned, st', minB # slept)
      else if \<not> sleepOrDone sleep then (True, st1, [backoff])
      else let (returned, st', slept) = watchLoop onDelete minB maxB (nextBackoff backoff maxB) st1 rs
           in (returned, st', backoff # slept))"

definition watchDeletes ::
    "(watchEvent \<Rightarrow> 'st \<Rightarrow> 'st) \<Rightarrow> duration \<Rightarrow> duration \<Rightarrow> 'st \<Rightarrow> watchRound list \<Rightarrow> bool \<times> 'st \<times> duration list" where
  "watchDeletes onDelete minB maxB st rs = watchLoop onDelete minB maxB minB st rs"

definition WatchServiceDeletes ::
    "duration \<Rightarrow> duration \<Rightarrow> cache \<Rightarrow> watchRound list \<Rightarrow> bool \<times> cache \<times> duration list" where
  "WatchServiceDeletes minB maxB cache rs =
     watchDeletes (\<lambda>evt c. HandleServiceEvent c (fst evt) (snd evt))
       (reconnectMinBackoff minB) (reconnectMaxBackoff maxB) cache rs"

definition WatchWorkspaceDeletes ::
    "duration \<Rightarrow> duration \<Rightarrow> cache \<Rightarrow> watchRound list \<Rightarrow> bool \<times> cache \<times> duration list" where
  "WatchWorkspaceDeletes minB maxB cache rs =
     watchDeletes (\<lambda>evt c. HandleWorkspaceEvent c (fst evt) (snd evt))
       (reconnectMinBackoff minB) (reconnectMaxBackoff maxB) cache rs"

section \<open>Rounds\<close>

fun sessionEvents :: "receive list \<Rightarrow> watchEvent list" where
  "sessionEvents (RecvEvent evt # rs) = evt # sessionEvents rs"
| "sessionEvents _ = []"

fun closedByServer :: "receive list \<Rightarrow> bool" where
  "closedByServer (RecvEvent evt # rs) = closedByServer rs"
| "closedByServer (RecvClosed # rs) = True"
| "closedByServer _ = False"

fun endedByContext :: "receive list \<Rightarrow> bool" where
  "endedByContext (RecvEvent evt # rs) = endedByContext rs"
| "endedByContext (RecvDone # rs) = True"
| "endedByContext _ = False"

text \<open>A round in which the context lives throughout, and one in which the code finds it done.\<close>

fun liveRound :: "watchRound \<Rightarrow> bool" where
  "liveRound CtxEnded = False"
| "liveRound (WatchError ctxErr sleep) = (\<not> ctxErr \<and> sleepOrDone sleep)"
| "liveRound (WatchSession recvs lasted ctxErr sleep) = (closedByServer recvs \<and> \<not> ctxErr \<and> sleepOrDone sleep)"

fun doneRound :: "watchRound \<Rightarrow> bool" where
  "doneRound CtxEnded = True"
| "doneRound (WatchError ctxErr sleep) = (ctxErr \<or> \<not> sleepOrDone sleep)"
| "doneRound (WatchSession recvs lasted ctxErr sleep) =
     (endedByContext recvs \<and> ctxErr \<or> closedByServer recvs \<and> (ctxErr \<or> \<not> sleepOrDone sleep))"

fun roundEvents :: "watchRound \<Rightarrow> watchEvent list" where
  "roundEvents (WatchSession recvs lasted ctxErr sleep) = sessionEvents recvs"
| "roundEvents _ = []"

fun healthyRound :: "duration \<Rightarrow> watchRound \<Rightarrow> bool" where
  "healthyRound minB (WatchSession recvs lasted ctxErr sleep) = (lasted \<ge> minB)"
| "healthyRound _ _ = False"

lemma drain_eq:
  "drainUntilClosedOrDone onDelete st recvs =
     (closedByServer recvs \<or> endedByContext recvs, fold onDelete (sessionEvents recvs) st)"
  by (induction recvs arbitrary: st rule: sessionEvents.induct) auto

section \<open>The delays\<close>

lemma nextBackoff_bounds:
  assumes "0 < minB" and "minB \<le> d" and "d \<le> maxB" and "maxB < 2 ^ 62"
  shows "minB \<le> nextBackoff d maxB \<and> nextBackoff d maxB \<le> maxB"
proof -
  have "wrap64 (d * 2) = d * 2" using assms by (simp add: in_int64_def)
  then show ?thesis using assms by (simp add: nextBackoff_def Let_def)
qed

text \<open>The reference: a healthy session is followed by the minimum, anything else by the current backoff, which
  then doubles up to the maximum.\<close>

fun backoffs :: "duration \<Rightarrow> duration \<Rightarrow> duration \<Rightarrow> watchRound list \<Rightarrow> duration list" where
  "backoffs minB maxB b [] = []"
| "backoffs minB maxB b (r # rs) =
     (if healthyRound minB r then minB # backoffs minB maxB minB rs
      else b # backoffs minB maxB (nextBackoff b maxB) rs)"

lemma backoffs_bounds:
  assumes "0 < minB" and "minB \<le> maxB" and "maxB < 2 ^ 62" and "minB \<le> b" and "b \<le> maxB"
  shows "list_all2 (\<lambda>r d. minB \<le> d \<and> d \<le> maxB \<and> (healthyRound minB r \<longrightarrow> d = minB)) rs (backoffs minB maxB b rs)"
  using assms(4,5)
proof (induction rs arbitrary: b)
  case (Cons r rs)
  then show ?case using nextBackoff_bounds [of minB b maxB] assms(1-3) by simp
qed simp

text \<open>A healthy session resets the backoff: the round after it also waits the minimum.\<close>

lemma backoffs_reset:
  "Suc i < length rs \<Longrightarrow> healthyRound minB (rs ! i) \<Longrightarrow> backoffs minB maxB b rs ! Suc i = minB"
proof (induction rs arbitrary: b i)
  case (Cons r rs)
  have first: "rs \<noteq> [] \<Longrightarrow> backoffs minB maxB minB rs ! 0 = minB" by (cases rs) auto
  from Cons first show ?case by (cases i) auto
qed simp

section \<open>The loop while the context lives\<close>

lemma watchLoop_live:
  assumes "list_all liveRound rs"
  shows "watchLoop onDelete minB maxB b st (rs @ rest) =
    (let (returned, st', slept) = watchLoop onDelete minB maxB
           (fold (\<lambda>r b. if healthyRound minB r then minB else nextBackoff b maxB) rs b)
           (fold onDelete (concat (map roundEvents rs)) st) rest
     in (returned, st', backoffs minB maxB b rs @ slept))"
  using assms
proof (induction rs arbitrary: b st)
  case (Cons r rs)
  then show ?case by (cases r) (auto simp: drain_eq split_beta Let_def)
qed (simp add: split_beta)

lemma watchLoop_done: "doneRound r \<Longrightarrow> fst (watchLoop onDelete minB maxB b st (r # rs))"
  by (cases r) (auto simp: drain_eq Let_def)

lemma watchDeletes_live:
  "list_all liveRound rs \<Longrightarrow>
   watchDeletes onDelete minB maxB st rs =
     (False, fold onDelete (concat (map roundEvents rs)) st, backoffs minB maxB minB rs)"
  using watchLoop_live [of rs onDelete minB maxB minB st "[]"] by (simp add: watchDeletes_def)

lemma watchDeletes_done:
  "list_all liveRound rs \<Longrightarrow> doneRound r \<Longrightarrow> fst (watchDeletes onDelete minB maxB st (rs @ r # rest))"
  using watchLoop_live [of rs onDelete minB maxB minB st "r # rest"]
  by (simp add: watchDeletes_def split_beta watchLoop_done)

section \<open>The watches on the cache\<close>

abbreviation deletedService :: "objectMeta \<Rightarrow> watchEvent" where
  "deletedService meta \<equiv> (watchDeleted, ServiceObject meta)"
abbreviation deletedWorkspace :: "objectMeta \<Rightarrow> watchEvent" where
  "deletedWorkspace meta \<equiv> (watchDeleted, WorkspaceObject meta)"

lemma handlers_keep_absent:
  assumes "cache k = None"
  shows "HandleServiceEvent cache t x k = None" and "HandleWorkspaceEvent cache t x k = None"
  using assms
  by (auto simp: HandleServiceEvent_def HandleWorkspaceEvent_def Invalidate_def split: watchObject.splits)

lemma fold_keeps_absent:
  assumes "\<And>evt c. c k = None \<Longrightarrow> h evt c k = None" and "c k = None"
  shows "fold h evts c k = None"
  using assms(2) by (induction evts arbitrary: c) (simp_all add: assms(1))

lemma fold_removes:
  assumes "\<And>evt c. c k = None \<Longrightarrow> h evt c k = None" and "\<And>c. h evt c k = None" and "evt \<in> set evts"
  shows "fold h evts c k = None"
proof -
  obtain xs ys where "evts = xs @ evt # ys" using split_list [OF assms(3)] by blast
  then show ?thesis using fold_keeps_absent [of k h "h evt (fold h xs c)" ys] assms(1,2) by simp
qed

lemma deleted_service_removed:
  assumes "deletedService meta \<in> set evts"
  shows "fold (\<lambda>evt c. HandleServiceEvent c (fst evt) (snd evt)) evts cache (Namespace meta, Name meta) = None"
  by (rule fold_removes [OF _ _ assms]) (simp_all add: handlers_keep_absent, simp add: HandleServiceEvent_def Invalidate_def)

lemma deleted_workspace_removed:
  assumes "deletedWorkspace meta \<in> set evts"
  shows "fold (\<lambda>evt c. HandleWorkspaceEvent c (fst evt) (snd evt)) evts cache (Namespace meta, Name meta) = None"
  by (rule fold_removes [OF _ _ assms]) (simp_all add: handlers_keep_absent, simp add: HandleWorkspaceEvent_def Invalidate_def)

lemma reconnect_bounds: "0 < reconnectMinBackoff d" "0 < reconnectMaxBackoff d"
  by (simp_all add: reconnectMinBackoff_def reconnectMaxBackoff_def defaultReconnectMinBackoff_def
      defaultReconnectMaxBackoff_def second_def)


definition sampleRounds :: "watchRound list" where
  "sampleRounds =
     [WatchError False TimerFired, WatchError False TimerFired,
      WatchSession [RecvEvent (deletedService (zeroMeta\<lparr>Namespace := ''ns'', Name := ''a''\<rparr>)), RecvClosed] 5 False TimerFired,
      WatchSession [RecvClosed] (60 * second) False TimerFired]"


end
