(* ===== verification/Router_Process.thy ===== *)
theory Router_Process
  imports Cmd_Router Router_Server Ticker_Loops Watch_Loop
begin

text \<open>
  The router as a process: the response recorder of \<open>internal/router/proxy.go\<close>, the constructors of
  \<open>internal/router/server.go\<close>, \<open>connections.go\<close> and \<open>resolve.go\<close>, and \<open>runRouter\<close>, \<open>serveAndAwaitShutdown\<close> and the
  router's part of \<open>run\<close> in \<open>cmd/main.go\<close>.

  Library calls that can fail (the cluster configuration, the client, listening on an address) are
  parameters that answer with an error text or none. What the two servers and the signal do is a list of
  occurrences in the order the select of \<open>serveAndAwaitShutdown\<close> receives them. The result is the
  process's error, if any, with what it did in order; \<open>None\<close> is a process that still serves.

  Shown here: the process serves until a server fails or a stop arrives, a stop always shuts the
  proxy down before the metrics, and no background loop outlives \<open>runRouter\<close>.
\<close>

section \<open>statusRecorder\<close>

text \<open>The wrapped ResponseWriter is what it has been told: the codes passed to its WriteHeader, and whether it
  can be hijacked and flushed.\<close>

record responseWriter =
  rwHeaders :: "int list"
  rwHijacker :: bool
  rwFlusher :: bool
  rwFlushes :: nat

record statusRecorder =
  recWriter :: responseWriter
  recStatus :: int

definition newRecorder :: "responseWriter \<Rightarrow> statusRecorder" where
  "newRecorder w = \<lparr>recWriter = w, recStatus = 0\<rparr>"

definition WriteHeader :: "statusRecorder \<Rightarrow> int \<Rightarrow> statusRecorder" where
  "WriteHeader s code =
     s\<lparr>recStatus := code, recWriter := (recWriter s)\<lparr>rwHeaders := rwHeaders (recWriter s) @ [code]\<rparr>\<rparr>"

definition recordedCode :: "statusRecorder \<Rightarrow> int" where
  "recordedCode s = (if recStatus s = 0 then 200 else recStatus s)"

definition Hijack :: "statusRecorder \<Rightarrow> bool" where
  "Hijack s = rwHijacker (recWriter s)"

definition Flush :: "statusRecorder \<Rightarrow> statusRecorder" where
  "Flush s = (if rwFlusher (recWriter s)
     then s\<lparr>recWriter := (recWriter s)\<lparr>rwFlushes := rwFlushes (recWriter s) + 1\<rparr>\<rparr> else s)"

text \<open>What the recorder reports is the last code the client's writer was given, or 200 if none was: the code of a
  rejection is the code the request path records.\<close>

lemma recorder_reports_last:
  "0 \<notin> set codes \<Longrightarrow>
   recordedCode (fold (\<lambda>c s. WriteHeader s c) codes (newRecorder w)) = (if codes = [] then 200 else List.last codes) \<and>
   rwHeaders (recWriter (fold (\<lambda>c s. WriteHeader s c) codes (newRecorder w))) = rwHeaders w @ codes"
proof (induction codes rule: rev_induct)
  case (snoc c codes)
  then show ?case by (auto simp: WriteHeader_def recordedCode_def)
qed (simp add: newRecorder_def recordedCode_def)

lemma rejection_is_recorded:
  "code \<noteq> 0 \<Longrightarrow> recordedCode (WriteHeader (newRecorder w) code) = responseCode (Rejected code body)"
  by (simp add: WriteHeader_def recordedCode_def)

section \<open>Constructors\<close>

record connectionTracker =
  ctApp :: string
  ctPodName :: string
  ctHeartbeatInterval :: duration

record server =
  srvCfg :: config
  srvTracker :: connectionTracker
  srvState :: routerState
  srvPollInterval :: duration

definition NewConnectionTracker :: "string \<Rightarrow> string \<Rightarrow> duration \<Rightarrow> connectionTracker \<times> counts" where
  "NewConnectionTracker app podName heartbeat =
     (\<lparr>ctApp = app, ctPodName = podName, ctHeartbeatInterval = heartbeat\<rparr>, Map.empty)"

definition NewResolver :: cache where
  "NewResolver = Map.empty"

definition NewServer :: "config \<Rightarrow> server" where
  "NewServer cfg =
     (let (tracker, counts) = NewConnectionTracker (cfgApp cfg) (cfgPodName cfg) (cfgHeartbeatInterval cfg) in
      \<lparr>srvCfg = cfg, srvTracker = tracker, srvState = \<lparr>rsCache = NewResolver, rsCounts = counts\<rparr>, srvPollInterval = 0\<rparr>)"

text \<open>The ticker of the cold-start hold.\<close>

definition pollInterval :: "server \<Rightarrow> duration" where
  "pollInterval s = (if srvPollInterval s > 0 then srvPollInterval s else 200000000)"

lemma poll_ticker_starts: "NewTicker (pollInterval s) \<noteq> None"
  by (simp add: NewTicker_def pollInterval_def)

section \<open>serveAndAwaitShutdown\<close>

datatype serveError = ErrServerClosed | ServeFailed string

text \<open>A server's Serve returns; the stop channel fires.\<close>

datatype occurrence = MetricsServed "serveError option" | ProxyServed "serveError option" | StopFired

datatype routerAction = StartTracker connectionTracker | WatchServices string | WatchWorkspaces string
  | ListenMetrics string | ListenProxy string | ServeMetrics | ServeProxy
  | ShutdownProxy duration | ShutdownMetrics duration | StopSignals | CancelBackground

definition shutdownTimeout :: duration where
  "shutdownTimeout = 15 * second"

text \<open>The goroutine around Serve: what it sends on \<open>serveErrCh\<close>.\<close>

definition serveOutcome :: "string \<Rightarrow> serveError option \<Rightarrow> string option" where
  "serveOutcome nm r =
     (case r of None \<Rightarrow> None | Some ErrServerClosed \<Rightarrow> None | Some (ServeFailed e) \<Rightarrow> Some (nm @ '': '' @ e))"

fun awaitShutdown :: "duration \<Rightarrow> occurrence list \<Rightarrow> (string option \<times> routerAction list) option" where
  "awaitShutdown timeout [] = None"
| "awaitShutdown timeout (MetricsServed r # os) =
     (case serveOutcome ''metrics server'' r of Some e \<Rightarrow> Some (Some e, []) | None \<Rightarrow> awaitShutdown timeout os)"
| "awaitShutdown timeout (ProxyServed r # os) =
     (case serveOutcome ''proxy server'' r of Some e \<Rightarrow> Some (Some e, []) | None \<Rightarrow> awaitShutdown timeout os)"
| "awaitShutdown timeout (StopFired # os) = Some (None, [ShutdownProxy timeout, ShutdownMetrics timeout])"

definition serveAndAwaitShutdown :: "duration \<Rightarrow> occurrence list \<Rightarrow> (string option \<times> routerAction list) option" where
  "serveAndAwaitShutdown timeout os =
     (case awaitShutdown timeout os of
        None \<Rightarrow> None
      | Some (err, acts) \<Rightarrow> Some (err, [ServeMetrics, ServeProxy] @ acts))"

section \<open>runRouter\<close>

datatype 'e routerFailure = BadRouterFlags "'e routerFlagError" | InClusterConfig string | NewClient string
  | ListenMetricsFailed string | ListenProxyFailed string | ServerFailed string

record routerLib =
  inClusterConfig :: "string option"
  newWithWatch :: "string option"
  listenTCP :: "string \<Rightarrow> string option"

definition backgroundActions :: "config \<Rightarrow> routerAction list" where
  "backgroundActions cfg =
     [StartTracker (srvTracker (NewServer cfg)), WatchServices (cfgNamespace cfg), WatchWorkspaces (cfgNamespace cfg)]"

definition runRouter ::
    "(string \<Rightarrow> 'e + string) \<Rightarrow> (string \<Rightarrow> string) \<Rightarrow> routerLib \<Rightarrow> occurrence list \<Rightarrow> string list \<Rightarrow>
     ('e routerFailure option \<times> routerAction list) option" where
  "runRouter readFile getenv lib os args =
     (case parseRouterFlags readFile getenv args of
        Inl e \<Rightarrow> Some (Some (BadRouterFlags e), [])
      | Inr cfg \<Rightarrow>
          (case inClusterConfig lib of
             Some e \<Rightarrow> Some (Some (InClusterConfig e), [])
           | None \<Rightarrow>
          (case newWithWatch lib of
             Some e \<Rightarrow> Some (Some (NewClient e), [])
           | None \<Rightarrow>
          (let started = backgroundActions cfg @ [ListenMetrics (MetricsAddr cfg)] in
           case listenTCP lib (MetricsAddr cfg) of
             Some e \<Rightarrow> Some (Some (ListenMetricsFailed e), started @ [CancelBackground])
           | None \<Rightarrow>
          (case listenTCP lib (ListenAddr cfg) of
             Some e \<Rightarrow> Some (Some (ListenProxyFailed e), started @ [ListenProxy (ListenAddr cfg), CancelBackground])
           | None \<Rightarrow>
          (case serveAndAwaitShutdown shutdownTimeout os of
             None \<Rightarrow> None
           | Some (err, acts) \<Rightarrow>
               Some (map_option ServerFailed err,
                     started @ [ListenProxy (ListenAddr cfg)] @ acts @ [StopSignals, CancelBackground])))))))"

section \<open>The process contract\<close>

fun endsServing :: "occurrence \<Rightarrow> bool" where
  "endsServing (MetricsServed r) = (serveOutcome [] r \<noteq> None)"
| "endsServing (ProxyServed r) = (serveOutcome [] r \<noteq> None)"
| "endsServing StopFired = True"

lemma awaitShutdown_blocks: "awaitShutdown timeout os = None \<longleftrightarrow> \<not> list_ex endsServing os"
proof (induction os)
  case (Cons oc os)
  then show ?case by (cases oc) (auto simp: serveOutcome_def split: option.splits serveError.splits)
qed simp

lemma awaitShutdown_ends:
  "awaitShutdown timeout os = Some (err, acts) \<Longrightarrow>
   list_ex endsServing os \<and> acts = (if err = None then [ShutdownProxy timeout, ShutdownMetrics timeout] else [])"
proof (induction os)
  case (Cons oc os)
  then show ?case by (cases oc) (auto simp: serveOutcome_def split: option.splits serveError.splits)
qed simp

definition isBackground :: "routerAction \<Rightarrow> bool" where
  "isBackground a \<longleftrightarrow> (case a of StartTracker _ \<Rightarrow> True | WatchServices _ \<Rightarrow> True | WatchWorkspaces _ \<Rightarrow> True | _ \<Rightarrow> False)"

text \<open>The router's process: it never ends while its servers run and no stop arrives; it ends without an error
  exactly after a stop, having shut down the proxy and then the metrics server; whenever it has started
  its background loops and returns, the cancellation of their context is its last action; and it serves nothing
  before both addresses are bound.\<close>

theorem router_process_contract:
  assumes "runRouter readFile getenv lib os args = Some (err, acts)"
  shows "(list_ex isBackground acts \<longrightarrow> List.last acts = CancelBackground) \<and>
    (err = None \<longrightarrow> (\<exists>pre. acts = pre @ [ShutdownProxy shutdownTimeout, ShutdownMetrics shutdownTimeout, StopSignals, CancelBackground])) \<and>
    (ServeProxy \<in> set acts \<longrightarrow> list_ex endsServing os \<and>
      (\<exists>cfg. parseRouterFlags readFile getenv args = Inr cfg \<and> listenTCP lib (MetricsAddr cfg) = None \<and>
         listenTCP lib (ListenAddr cfg) = None \<and>
         take 5 acts = backgroundActions cfg @ [ListenMetrics (MetricsAddr cfg), ListenProxy (ListenAddr cfg)]))"
  using assms
  by (auto dest!: awaitShutdown_ends simp: runRouter_def serveAndAwaitShutdown_def backgroundActions_def isBackground_def
      Let_def split: sum.splits option.splits if_splits)

end
