(* ===== verification/Controller_Process.thy ===== *)
theory Controller_Process
  imports Cmd_Controller Router_Process Workspace_Controller PerUserApp_Controller
begin

text \<open>
  The controller as a process: \<open>runController\<close> of \<open>cmd/controller.go\<close>, and \<open>run\<close> and \<open>main\<close> of
  \<open>cmd/main.go\<close> over both subcommands.

  Library calls are parameters (\<open>controllerLib\<close>): the kubeconfig, the clientset, the Lease read, access
  reviews, the manager's construction, the registration of each runnable and the manager's run. A run that
  reaches the manager yields its plan: the options it is built with, the two reconcilers, and the lease
  snapshot the election goroutine (\<open>onElected\<close>) works from.

  Shown here: the manager runs only after every served namespace has been probed and reported, with leader
  election on, on the Lease whose snapshot was read before, restricted to the served namespaces and with
  reconcilers that carry the flags; a failure before that touches nothing.
\<close>

section \<open>runController\<close>

record managerOptions =
  moNamespaces :: "string list"
  moMetricsAddr :: string
  moLeaderElection :: bool
  moLeaderElectionID :: string
  moLeaderElectionNamespace :: string

record 's controllerLib =
  getConfig :: "string option"
  newForConfig :: "string option"
  leaseGet :: "key \<Rightarrow> 's \<Rightarrow> (error + leaseSpec) \<times> 's"
  accessReviews :: "resourceAttributes \<Rightarrow> 's \<Rightarrow> (error + bool) \<times> 's"
  newManager :: "managerOptions \<Rightarrow> string option"
  setupWithManager :: "string \<Rightarrow> string option"
  managerStart :: "'s \<Rightarrow> string option \<times> 's"
  quoteText :: "string \<Rightarrow> string"
  errorText :: "error \<Rightarrow> string"

record 's managerPlan =
  mpOptions :: managerOptions
  mpWorkspace :: "'s wsReconciler"
  mpApp :: appReconciler
  mpSnapshot :: leaseSnapshot

datatype 's controllerRun = BadControllerFlags controllerFlagError | NoKubeconfig string | NoClientset string
  | LeaseUnreadable error | NoManager string | SetupFailed string string
  | ManagerRan "'s managerPlan" "string option"

definition optionsOf :: "controllerConfig \<Rightarrow> managerOptions" where
  "optionsOf cfg =
     \<lparr>moNamespaces = WatchNamespaces cfg, moMetricsAddr = ccMetricsAddr cfg, moLeaderElection = True,
      moLeaderElectionID = leaderElectionID, moLeaderElectionNamespace = ccPodNamespace cfg\<rparr>"

definition workspaceReconcilerOf :: "('s, 'x) env_scheme \<Rightarrow> controllerConfig \<Rightarrow> 's wsReconciler" where
  "workspaceReconcilerOf env cfg =
     \<lparr>rAdmitter = NewAdmitter env, PodCIDR = ccPodCIDR cfg, NodeCIDR = ccNodeCIDR cfg,
      PendingRetryInterval = 0, StartingPollInterval = 0, SteadyStateInterval = 0\<rparr>"

definition appReconcilerOf :: "('s, 'y) controllerLib_scheme \<Rightarrow> controllerConfig \<Rightarrow> appReconciler" where
  "appReconcilerOf lib cfg =
     \<lparr>RouterImage = ccRouterImage cfg, appPodCIDR = ccPodCIDR cfg, appNodeCIDR = ccNodeCIDR cfg,
      goQuote = quoteText lib, apiErrorText = errorText lib\<rparr>"

text \<open>The registrations in order; the first that fails ends the run.\<close>

definition registrations :: "string list" where
  "registrations = [''workspace reconciler'', ''peruserapp reconciler'', ''reaper'', ''reclaimer'']"

fun setupAll :: "(string \<Rightarrow> string option) \<Rightarrow> string list \<Rightarrow> (string \<times> string) option" where
  "setupAll setup [] = None"
| "setupAll setup (c # cs) = (case setup c of Some e \<Rightarrow> Some (c, e) | None \<Rightarrow> setupAll setup cs)"

definition runController ::
    "('s, 'x) env_scheme \<Rightarrow> ('s, 'y) controllerLib_scheme \<Rightarrow> (string \<Rightarrow> string) \<Rightarrow> string list \<Rightarrow> ('s, 's controllerRun) m" where
  "runController env lib getenv args =
     (case parseControllerFlags getenv args of
        Inl e \<Rightarrow> ret (BadControllerFlags e)
      | Inr cfg \<Rightarrow>
     (case getConfig lib of
        Some e \<Rightarrow> ret (NoKubeconfig e)
      | None \<Rightarrow>
     (case newForConfig lib of
        Some e \<Rightarrow> ret (NoClientset e)
      | None \<Rightarrow> do {
          got \<leftarrow> ask (leaseGet lib (ccPodNamespace cfg, leaderElectionID)) (\<lambda>_. []);
          case snapshotLease got of
            Inl e \<Rightarrow> ret (LeaseUnreadable e)
          | Inr snap \<Rightarrow> do {
              _ \<leftarrow> probeAll (accessReviews lib) (WatchNamespaces cfg);
              case newManager lib (optionsOf cfg) of
                Some e \<Rightarrow> ret (NoManager e)
              | None \<Rightarrow>
                  (case setupAll (setupWithManager lib) registrations of
                     Some (c, e) \<Rightarrow> ret (SetupFailed c e)
                   | None \<Rightarrow> do {
                       r \<leftarrow> ask (managerStart lib) (\<lambda>_. []);
                       ret (ManagerRan \<lparr>mpOptions = optionsOf cfg, mpWorkspace = workspaceReconcilerOf env cfg,
                              mpApp = appReconcilerOf lib cfg, mpSnapshot = snap\<rparr> r)
                     })
            }
        })))"

section \<open>run and main\<close>

text \<open>What a finished process reports: an error or none. A controller run fails unless the manager's run ended
  without an error.\<close>

fun controllerFailed :: "'s controllerRun \<Rightarrow> bool" where
  "controllerFailed (ManagerRan _ r) = (r \<noteq> None)"
| "controllerFailed _ = True"

definition exitCode :: "bool \<Rightarrow> int" where
  "exitCode failed = (if failed then 1 else 0)"

text \<open>\<open>main\<close>: the exit code and what is printed on standard output; \<open>None\<close> is a router that still serves.\<close>

definition main ::
    "('s, 'x) env_scheme \<Rightarrow> ('s, 'y) controllerLib_scheme \<Rightarrow> routerLib \<Rightarrow> (string \<Rightarrow> 'e + string) \<Rightarrow> (string \<Rightarrow> string) \<Rightarrow>
     occurrence list \<Rightarrow> string list \<Rightarrow> ('s, (int \<times> string list) option) m" where
  "main env clib rlib readFile getenv os argv =
     (case run argv of
        UsageError \<Rightarrow> ret (Some (exitCode True, []))
      | UnknownSubcommand _ \<Rightarrow> ret (Some (exitCode True, []))
      | PrintLine l \<Rightarrow> ret (Some (exitCode False, [l]))
      | RunRouter args \<Rightarrow>
          ret (map_option (\<lambda>(err, _). (exitCode (err \<noteq> None), [])) (runRouter readFile getenv rlib os args))
      | RunController args \<Rightarrow> do {
          r \<leftarrow> runController env clib getenv args;
          ret (Some (exitCode (controllerFailed r), []))
        })"

section \<open>The process contract\<close>

text \<open>The probe reports each namespace once, in order, and does nothing else.\<close>

fun readyReports :: "string list \<Rightarrow> event list \<Rightarrow> bool" where
  "readyReports [] es = (es = [])"
| "readyReports (ns # nss) es = (\<exists>ok rest. es = Metric (SetWatchedNamespaceReady ns ok) # rest \<and> readyReports nss rest)"

lemma probeNamespace_silent: "obeys (probeNamespace review ns) (\<lambda>_ es. es = [])"
proof -
  have "obeys (probeChecks review ns cs ok failed) (\<lambda>_ es. es = [])" for cs ok failed
  proof (induction cs arbitrary: ok failed)
    case (Cons c cs)
    show ?case
      by (simp only: probeChecks.simps, intro obeys_rules obeys_mono [OF Cons.IH]) simp_all
  qed (simp add: obeys_return)
  then show ?thesis unfolding probeNamespace_def .
qed

lemma probeAll_reports: "obeys (probeAll review nss) (\<lambda>_ es. readyReports nss es)"
proof (induction nss)
  case (Cons ns nss)
  show ?case
    by (simp only: probeAll.simps, intro obeys_rules obeys_mono [OF probeNamespace_silent] obeys_mono [OF Cons.IH]) simp
qed (simp add: obeys_return)

lemma setupAll_None: "setupAll setup cs = None \<longleftrightarrow> (\<forall>c\<in>set cs. setup c = None)"
  by (induction cs) (auto split: option.splits)

text \<open>The plan a manager is run with, given the configuration.\<close>

definition planFor ::
    "('s, 'x) env_scheme \<Rightarrow> ('s, 'y) controllerLib_scheme \<Rightarrow> controllerConfig \<Rightarrow> 's managerPlan \<Rightarrow> bool" where
  "planFor env lib cfg plan \<longleftrightarrow>
     mpOptions plan = optionsOf cfg \<and> mpWorkspace plan = workspaceReconcilerOf env cfg \<and> mpApp plan = appReconcilerOf lib cfg \<and>
     (\<exists>c. snapshotLease (fst (leaseGet lib (ccPodNamespace cfg, leaderElectionID) c)) = Inr (mpSnapshot plan))"

lemma controller_process_contract:
  "obeys (runController env lib getenv args) (\<lambda>r es.
     (\<forall>plan x. r = ManagerRan plan x \<longrightarrow> (\<exists>cfg. parseControllerFlags getenv args = Inr cfg \<and> readyReports (WatchNamespaces cfg) es \<and>
        planFor env lib cfg plan \<and> (\<forall>c\<in>set registrations. setupWithManager lib c = None))) \<and>
     (parseControllerFlags getenv args = Inl e \<longrightarrow> r = BadControllerFlags e \<and> es = []))"
  unfolding runController_def
  by (intro obeys_rules obeys_mono [OF probeAll_reports])
    (auto simp: planFor_def setupAll_None)

text \<open>A process that exits with code 0 printed a key, or was stopped after a clean run: usage errors, unknown
  subcommands and refused flags never do.\<close>

lemma main_exit_zero:
  assumes "fst (run_state (main env clib rlib readFile getenv os argv) w) = Some (0, out)"
  shows "(\<exists>l. run argv = PrintLine l \<and> out = [l]) \<or>
    (\<exists>args acts. run argv = RunRouter args \<and> runRouter readFile getenv rlib os args = Some (None, acts)) \<or>
    (\<exists>args plan. run argv = RunController args \<and>
       fst (run_state (runController env clib getenv args) w) = ManagerRan plan None)"
proof -
  have ok: "\<exists>plan. r = ManagerRan plan None" if "\<not> controllerFailed r" for r :: "'a controllerRun"
    using that by (cases r) auto
  show ?thesis
    using assms
    by (auto simp: main_def exitCode_def split_beta split: command.splits if_splits dest!: ok)
qed

end
