(* ===== verification/Optimistic_Reap.thy ===== *)
theory Optimistic_Reap
  imports Heartbeats
begin

text \<open>
  The Reaper's scale-down as the code performs it, in two calls with anything in between: a pass takes the time,
  lists the workspaces (from a cache that may be behind), decides on what it listed, and sends \<open>Status().Update\<close> with
  the listed object, whose resource version the API server compares with the stored one
  (\<open>internal/controller/reaper.go\<close>, \<open>reapApp\<close> and \<open>ScaleDown\<close>). \<open>Heartbeats\<close> has this as one atomic step on the
  current workspace and time.

  The state adds the history of the stored object to that of \<open>Heartbeats\<close>; the resource version of an entry is its
  position, so no version is used twice, and a write that changes nothing makes no version.

  Shown here: the system in two calls refines the atomic one; so everything \<open>Heartbeats\<close> shows of reachable states
  holds here too, and no scale-down that succeeds hits a workspace with an open connection.
\<close>

section \<open>Reapable stays reapable\<close>

lemma keepsAlive_later: "keepsAlive app t' c \<Longrightarrow> t \<le> t' \<Longrightarrow> keepsAlive app t c"
  using timeSub_mono [of t t' "ceHeartbeatAt (snd c)"] by (simp add: keepsAlive_def)

lemma liveCount_later:
  assumes "\<forall>c\<in>set cs. 0 \<le> ceCount (snd c)" and "t \<le> t'"
  shows "liveCount app t' cs \<le> liveCount app t cs"
  using assms(1)
proof (induction cs)
  case (Cons c cs)
  then show ?case using timeSub_mono [OF assms(2), of "ceHeartbeatAt (snd c)"] by (auto simp: liveCount_def)
qed (simp add: liveCount_def)

text \<open>Nothing but the passing of time: what was reapable still is.\<close>

lemma reapable_later:
  assumes "\<forall>c\<in>set (Connections (wsStatus ws)). 0 \<le> ceCount (snd c)"
    and "liveCount app t (Connections (wsStatus ws)) < 2 ^ 31" and "t \<le> t'" and "isReapable ws app t"
  shows "isReapable ws app t'"
proof -
  let ?cs = "Connections (wsStatus ws)"
  have small: "liveCount app t' ?cs < 2 ^ 31" using liveCount_later [OF assms(1,3), of app] assms(2) by linarith
  have "\<not> list_ex (keepsAlive app t) ?cs"
    using assms(4) freshConnectionCount_zero_iff [OF assms(1,2)] by (auto simp: isReapable_def split: if_splits option.splits)
  then have "\<not> list_ex (keepsAlive app t') ?cs" using keepsAlive_later [OF _ assms(3)] by (auto simp: list_ex_iff)
  with assms(4) show ?thesis
    using freshConnectionCount_zero_iff [OF assms(1) small] timeSub_mono [OF assms(3)]
    by (auto simp: isReapable_def not_le split: if_splits option.splits intro: less_le_trans)
qed

section \<open>The system in two calls\<close>

text \<open>What the Reaper holds between its calls: the listed workspace, its resource version, the time of the pass.\<close>

record osys =
  oSys :: hsys
  oHist :: "workspace list"
  oHeld :: "(workspace \<times> nat \<times> gotime) option"

definition osysStart :: "gotime \<Rightarrow> workspace \<Rightarrow> osys" where
  "osysStart t ws = \<lparr>oSys = hsysStart t ws, oHist = [hWs (hsysStart t ws)], oHeld = None\<rparr>"

definition stored :: "workspace list \<Rightarrow> workspace \<Rightarrow> workspace list" where
  "stored hist ws = (if ws = List.last hist then hist else hist @ [ws])"

inductive occ_step :: "perUserApp \<Rightarrow> key \<Rightarrow> duration \<Rightarrow> osys \<Rightarrow> osys \<Rightarrow> bool"
  for app :: perUserApp and k :: key and gap :: duration where
  others: "hb_step app k gap (oSys s) h \<Longrightarrow>
    (ScaledDown (wsStatus (hWs h)) \<longrightarrow> ScaledDown (wsStatus (hWs (oSys s)))) \<Longrightarrow>
    occ_step app k gap s (s\<lparr>oSys := h, oHist := stored (oHist s) (hWs h)\<rparr>)"
| listed: "i < length (oHist s) \<Longrightarrow> t \<le> hNow (oSys s) \<Longrightarrow>
    liveCount app t (Connections (wsStatus (oHist s ! i))) < 2 ^ 31 \<Longrightarrow> isReapable (oHist s ! i) app t \<Longrightarrow>
    occ_step app k gap s (s\<lparr>oHeld := Some (oHist s ! i, i, t)\<rparr>)"
| updated: "oHeld s = Some (ws, i, t) \<Longrightarrow> i + 1 = length (oHist s) \<Longrightarrow>
    occ_step app k gap s (s\<lparr>oSys := (oSys s)\<lparr>hWs := scaledDown ws\<rparr>, oHist := stored (oHist s) (scaledDown ws), oHeld := None\<rparr>)"
| conflict: "oHeld s = Some (ws, i, t) \<Longrightarrow> i + 1 \<noteq> length (oHist s) \<Longrightarrow> occ_step app k gap s (s\<lparr>oHeld := None\<rparr>)"

definition occInv :: "perUserApp \<Rightarrow> osys \<Rightarrow> bool" where
  "occInv app s \<longleftrightarrow> oHist s \<noteq> [] \<and> List.last (oHist s) = hWs (oSys s) \<and>
     (case oHeld s of
        None \<Rightarrow> True
      | Some (ws, i, t) \<Rightarrow> i < length (oHist s) \<and> ws = oHist s ! i \<and> t \<le> hNow (oSys s) \<and>
          liveCount app t (Connections (wsStatus ws)) < 2 ^ 31 \<and> isReapable ws app t)"

lemma stored_props: "hist \<noteq> [] \<Longrightarrow> stored hist ws \<noteq> [] \<and> List.last (stored hist ws) = ws \<and> length hist \<le> length (stored hist ws)"
  by (simp add: stored_def)

lemma stored_nth: "i < length hist \<Longrightarrow> stored hist ws ! i = hist ! i"
  by (simp add: stored_def nth_append)

lemma hb_step_now: "hb_step app k gap s s' \<Longrightarrow> hNow s \<le> hNow s'"
  by (induction rule: hb_step.induct) (simp_all add: published_def)

lemma occInv_step:
  assumes "occ_step app k gap s s'" and "occInv app s"
  shows "occInv app s'"
  using assms
proof (induction rule: occ_step.induct)
  case (others s h)
  then show ?case
    using hb_step_now [OF others(1)] stored_props [of "oHist s" "hWs h"]
    by (auto simp: occInv_def stored_nth split: option.splits)
qed (auto simp: occInv_def stored_props)

lemma occInv_reachable: "(occ_step app k gap)\<^sup>*\<^sup>* (osysStart t ws) s \<Longrightarrow> occInv app s"
proof (induction rule: rtranclp_induct)
  case base
  then show ?case by (simp add: occInv_def osysStart_def)
qed (rule occInv_step)

text \<open>An update that is not refused is decided on the stored object.\<close>

lemma held_is_stored:
  assumes "occInv app s" and "oHeld s = Some (ws, i, t)" and "i + 1 = length (oHist s)"
  shows "ws = hWs (oSys s)"
proof -
  have "i = length (oHist s) - 1" using assms(3) by simp
  then show ?thesis using assms(1,2) by (auto simp: occInv_def last_conv_nth)
qed

lemma updated_reapable:
  assumes "occInv app s" and "hbInv k gap (oSys s)" and "oHeld s = Some (ws, i, t)" and "i + 1 = length (oHist s)"
  shows "isReapable (hWs (oSys s)) app (hNow (oSys s)) \<and> liveCount app (hNow (oSys s)) (conns (oSys s)) < 2 ^ 31"
proof -
  have held: "ws = hWs (oSys s)" using held_is_stored [OF assms(1,3,4)] .
  then have h: "t \<le> hNow (oSys s)" "liveCount app t (conns (oSys s)) < 2 ^ 31" "isReapable (hWs (oSys s)) app t"
    using assms(1,3) by (auto simp: occInv_def)
  note nonneg = hbInv_nonneg [OF assms(2)]
  show ?thesis using reapable_later [OF nonneg h(2,1,3)] liveCount_later [OF nonneg h(1), of app] h(2) by linarith
qed

section \<open>Refinement\<close>

lemma occ_refines:
  assumes "(occ_step app k gap)\<^sup>*\<^sup>* (osysStart t ws) s" and "0 \<le> gap"
  shows "(hb_step app k gap)\<^sup>*\<^sup>* (hsysStart t ws) (oSys s)"
  using assms(1)
proof (induction rule: rtranclp_induct)
  case base
  then show ?case by (simp add: osysStart_def)
next
  case (step s s')
  have inv: "occInv app s" "hbInv k gap (oSys s)"
    using occInv_reachable [OF step(1)] hbInv_reachable [OF step(3) assms(2)] by blast+
  have "oSys s' = oSys s \<or> hb_step app k gap (oSys s) (oSys s')"
    using step(2)
  proof (cases rule: occ_step.cases)
    case (updated ws i t)
    then show ?thesis
      using updated_reapable [OF inv updated(2,3)] held_is_stored [OF inv(1) updated(2,3)] hb_step.reap [of "oSys s" app k gap]
      by simp
  qed simp_all
  then show ?case using step(3) by (auto intro: rtranclp.rtrancl_into_rtrancl)
qed


text \<open>A replica starts, and the Reaper lists the workspace.\<close>

definition sampleStarted :: osys where
  "sampleStarted = \<lparr>oSys = hb_start ''router-0'' (hsysStart (9000 * second) (readyWs ''u1'' 0)),
     oHist = [hWs (hsysStart (9000 * second) (readyWs ''u1'' 0))], oHeld = None\<rparr>"

definition sampleListed :: osys where
  "sampleListed = sampleStarted\<lparr>oHeld := Some (oHist sampleStarted ! 0, 0, 9000 * second)\<rparr>"

lemma sampleListed_reachable:
  "(occ_step sampleApp sampleKey (30 * second))\<^sup>*\<^sup>* (osysStart (9000 * second) (readyWs ''u1'' 0)) sampleListed"
proof -
  let ?s = "osysStart (9000 * second) (readyWs ''u1'' 0)"
  have "hb_step sampleApp sampleKey (30 * second) (oSys ?s) (hb_start ''router-0'' (oSys ?s))"
    unfolding hb_start_def by (rule hb_step.start) (simp add: osysStart_def hsysStart_def)
  then have "occ_step sampleApp sampleKey (30 * second) ?s sampleStarted"
    using occ_step.others [of sampleApp sampleKey "30 * second" ?s "hb_start ''router-0'' (oSys ?s)"]
    by (simp add: osysStart_def sampleStarted_def stored_def hb_start_def)
  moreover have "occ_step sampleApp sampleKey (30 * second) sampleStarted sampleListed"
    unfolding sampleListed_def
    by (rule occ_step.listed)
      (simp_all add: sampleStarted_def hb_moves liveCount_def isReapable_def freshConnectionCount_def timeSub_def second_def sample_defs)
  ultimately show ?thesis by (meson rtranclp.rtrancl_into_rtrancl rtranclp.rtrancl_refl)
qed


end
