(* ===== verification/Status_Patch.thy ===== *)
theory Status_Patch
  imports Field_Ownership
begin

text \<open>
  Concurrent writers of one Workspace status. The reconciler and the router write with
  \<open>Status().Patch(..., client.MergeFrom(base))\<close>: what reaches the API server is the difference between the object the
  writer read, possibly long ago, and the object it wants. How the server applies it is documented (RFC 7386) and
  is the hypothesis \<open>mergesStatus\<close> on the parameter \<open>patch\<close>: base, wanted and stored status to the new stored one.

  Shown here: writes that change different fields, or the connections of different replicas, commute and none is
  lost, however stale the objects they were computed from are; the handlers of the controller and of the router
  change different fields but for the wake request; and, at the end, two writes of the router that do get lost.
\<close>

section \<open>Merge patches\<close>

text \<open>A field is sent if it differs from the base.\<close>

definition merged :: "'a \<Rightarrow> 'a \<Rightarrow> 'a \<Rightarrow> 'a" where
  "merged base new stored = (if new = base then stored else new)"

definition conn :: "workspaceStatus \<Rightarrow> string \<Rightarrow> connectionEntry option" where
  "conn s p = map_of (Connections s) p"

text \<open>An entry of \<open>connections\<close> is an object itself: removed with null, sent whole if the base has none, and member by
  member otherwise; members that are not sent to an entry that is gone are missing there and decode as zero.\<close>

definition mergeEntry ::
    "connectionEntry option \<Rightarrow> connectionEntry option \<Rightarrow> connectionEntry option \<Rightarrow> connectionEntry option" where
  "mergeEntry base new stored =
     (if new = base then stored
      else case new of
        None \<Rightarrow> None
      | Some e \<Rightarrow>
          (case base of
             None \<Rightarrow> Some e
           | Some b \<Rightarrow>
               let s = (case stored of None \<Rightarrow> \<lparr>ceCount = 0, ceHeartbeatAt = zeroTime\<rparr> | Some s \<Rightarrow> s) in
               Some \<lparr>ceCount = merged (ceCount b) (ceCount e) (ceCount s),
                     ceHeartbeatAt = merged (ceHeartbeatAt b) (ceHeartbeatAt e) (ceHeartbeatAt s)\<rparr>))"

type_synonym statusPatch = "workspaceStatus \<Rightarrow> workspaceStatus \<Rightarrow> workspaceStatus \<Rightarrow> workspaceStatus"

definition mergesStatus :: "statusPatch \<Rightarrow> bool" where
  "mergesStatus patch \<longleftrightarrow> (\<forall>b x s.
     ObservedGeneration (patch b x s) = merged (ObservedGeneration b) (ObservedGeneration x) (ObservedGeneration s) \<and>
     wsPhase (patch b x s) = merged (wsPhase b) (wsPhase x) (wsPhase s) \<and>
     ScaledDown (patch b x s) = merged (ScaledDown b) (ScaledDown x) (ScaledDown s) \<and>
     LastActivity (patch b x s) = merged (LastActivity b) (LastActivity x) (LastActivity s) \<and>
     (\<forall>p. conn (patch b x s) p = mergeEntry (conn b p) (conn x p) (conn s p)) \<and>
     WakeRequestedAt (patch b x s) = merged (WakeRequestedAt b) (WakeRequestedAt x) (WakeRequestedAt s) \<and>
     EnqueuedAt (patch b x s) = merged (EnqueuedAt b) (EnqueuedAt x) (EnqueuedAt s) \<and>
     ConsecutiveFailures (patch b x s) = merged (ConsecutiveFailures b) (ConsecutiveFailures x) (ConsecutiveFailures s) \<and>
     BackoffUntil (patch b x s) = merged (BackoffUntil b) (BackoffUntil x) (BackoffUntil s) \<and>
     StartDeadline (patch b x s) = merged (StartDeadline b) (StartDeadline x) (StartDeadline s) \<and>
     WaitingReason (patch b x s) = merged (WaitingReason b) (WaitingReason x) (WaitingReason s) \<and>
     LargestObservedSize (patch b x s) = merged (LargestObservedSize b) (LargestObservedSize x) (LargestObservedSize s) \<and>
     Conditions (patch b x s) = merged (Conditions b) (Conditions x) (Conditions s) \<and>
     PodRef (patch b x s) = merged (PodRef b) (PodRef x) (PodRef s) \<and>
     ServiceRef (patch b x s) = merged (ServiceRef b) (ServiceRef x) (ServiceRef s) \<and>
     PVCRef (patch b x s) = merged (PVCRef b) (PVCRef x) (PVCRef s))"

lemma patch_fields:
  assumes "mergesStatus patch"
  shows "ObservedGeneration (patch b x s) = merged (ObservedGeneration b) (ObservedGeneration x) (ObservedGeneration s)"
    "wsPhase (patch b x s) = merged (wsPhase b) (wsPhase x) (wsPhase s)"
    "ScaledDown (patch b x s) = merged (ScaledDown b) (ScaledDown x) (ScaledDown s)"
    "LastActivity (patch b x s) = merged (LastActivity b) (LastActivity x) (LastActivity s)"
    "conn (patch b x s) p = mergeEntry (conn b p) (conn x p) (conn s p)"
    "WakeRequestedAt (patch b x s) = merged (WakeRequestedAt b) (WakeRequestedAt x) (WakeRequestedAt s)"
    "EnqueuedAt (patch b x s) = merged (EnqueuedAt b) (EnqueuedAt x) (EnqueuedAt s)"
    "ConsecutiveFailures (patch b x s) = merged (ConsecutiveFailures b) (ConsecutiveFailures x) (ConsecutiveFailures s)"
    "BackoffUntil (patch b x s) = merged (BackoffUntil b) (BackoffUntil x) (BackoffUntil s)"
    "StartDeadline (patch b x s) = merged (StartDeadline b) (StartDeadline x) (StartDeadline s)"
    "WaitingReason (patch b x s) = merged (WaitingReason b) (WaitingReason x) (WaitingReason s)"
    "LargestObservedSize (patch b x s) = merged (LargestObservedSize b) (LargestObservedSize x) (LargestObservedSize s)"
    "Conditions (patch b x s) = merged (Conditions b) (Conditions x) (Conditions s)"
    "PodRef (patch b x s) = merged (PodRef b) (PodRef x) (PodRef s)"
    "ServiceRef (patch b x s) = merged (ServiceRef b) (ServiceRef x) (ServiceRef s)"
    "PVCRef (patch b x s) = merged (PVCRef b) (PVCRef x) (PVCRef s)"
  using assms by (simp_all add: mergesStatus_def)

text \<open>The same status: \<open>connections\<close> is a map, its order does not matter.\<close>

definition sameStatus :: "workspaceStatus \<Rightarrow> workspaceStatus \<Rightarrow> bool" where
  "sameStatus r r' \<longleftrightarrow> r\<lparr>Connections := []\<rparr> = r'\<lparr>Connections := []\<rparr> \<and> conn r = conn r'"

lemma sameStatus_fields:
  "sameStatus r r' \<longleftrightarrow> conn r = conn r' \<and> ObservedGeneration r = ObservedGeneration r' \<and> wsPhase r = wsPhase r' \<and>
     ScaledDown r = ScaledDown r' \<and> LastActivity r = LastActivity r' \<and> WakeRequestedAt r = WakeRequestedAt r' \<and>
     EnqueuedAt r = EnqueuedAt r' \<and> ConsecutiveFailures r = ConsecutiveFailures r' \<and> BackoffUntil r = BackoffUntil r' \<and>
     StartDeadline r = StartDeadline r' \<and> WaitingReason r = WaitingReason r' \<and>
     LargestObservedSize r = LargestObservedSize r' \<and> Conditions r = Conditions r' \<and> PodRef r = PodRef r' \<and>
     ServiceRef r = ServiceRef r' \<and> PVCRef r = PVCRef r'"
  by (cases r; cases r') (auto simp: sameStatus_def)

section \<open>Independent writes\<close>

text \<open>No field is changed by both, and no replica's entry.\<close>

definition independent :: "workspaceStatus \<times> workspaceStatus \<Rightarrow> workspaceStatus \<times> workspaceStatus \<Rightarrow> bool" where
  "independent w v \<longleftrightarrow>
     (\<forall>p. conn (snd w) p = conn (fst w) p \<or> conn (snd v) p = conn (fst v) p) \<and>
     list_all (\<lambda>kept. kept (fst w) (snd w) \<or> kept (fst v) (snd v))
       [\<lambda>b x. ObservedGeneration x = ObservedGeneration b, \<lambda>b x. wsPhase x = wsPhase b,
        \<lambda>b x. ScaledDown x = ScaledDown b, \<lambda>b x. LastActivity x = LastActivity b,
        \<lambda>b x. WakeRequestedAt x = WakeRequestedAt b, \<lambda>b x. EnqueuedAt x = EnqueuedAt b,
        \<lambda>b x. ConsecutiveFailures x = ConsecutiveFailures b, \<lambda>b x. BackoffUntil x = BackoffUntil b,
        \<lambda>b x. StartDeadline x = StartDeadline b, \<lambda>b x. WaitingReason x = WaitingReason b,
        \<lambda>b x. LargestObservedSize x = LargestObservedSize b, \<lambda>b x. Conditions x = Conditions b,
        \<lambda>b x. PodRef x = PodRef b, \<lambda>b x. ServiceRef x = ServiceRef b, \<lambda>b x. PVCRef x = PVCRef b]"

lemma merged_commute: "x = b \<or> y = c \<Longrightarrow> merged b x (merged c y s) = merged c y (merged b x s)"
  by (auto simp: merged_def)

lemma mergeEntry_commute: "x = b \<or> y = c \<Longrightarrow> mergeEntry b x (mergeEntry c y s) = mergeEntry c y (mergeEntry b x s)"
  by (auto simp: mergeEntry_def)

lemma independent_commute:
  assumes "mergesStatus patch" and "independent (b, x) (c, y)"
  shows "sameStatus (patch b x (patch c y s)) (patch c y (patch b x s))"
proof -
  have "conn (patch b x (patch c y s)) p = conn (patch c y (patch b x s)) p" for p
    unfolding patch_fields(5) [OF assms(1)]
    by (rule mergeEntry_commute) (use assms(2) in \<open>simp add: independent_def\<close>)
  then have "conn (patch b x (patch c y s)) = conn (patch c y (patch b x s))" by blast
  then show ?thesis
    unfolding sameStatus_fields patch_fields [OF assms(1)]
    by (intro conjI merged_commute) (use assms(2) in \<open>simp_all add: independent_def\<close>)
qed

section \<open>The handlers\<close>

text \<open>The workspace reconciler and a request change different fields, but for the wake request.\<close>

lemma controller_router_independent:
  assumes "ownStep b x" and "routerStep c y"
    and "WakeRequestedAt (wsStatus x) = WakeRequestedAt (wsStatus b) \<or> WakeRequestedAt (wsStatus y) = WakeRequestedAt (wsStatus c)"
  shows "independent (wsStatus b, wsStatus x) (wsStatus c, wsStatus y)"
  using assms by (simp add: independent_def ownStep_def routerStep_def sameButRouter_fields routerFields_def conn_def)

lemma conn_withConnection [simp]:
  "conn (wsStatus (withConnection p n t ws)) q = (if q = p then Some \<lparr>ceCount = n, ceHeartbeatAt = t\<rparr> else conn (wsStatus ws) q)"
  by (simp add: conn_def withConnection_def update_conv')

text \<open>Publications of different replicas, and of a replica against the activity timestamp.\<close>

lemma publications_independent:
  "p \<noteq> q \<Longrightarrow> independent (wsStatus b, wsStatus (withConnection p n t b)) (wsStatus c, wsStatus (withConnection q m u c))"
  by (simp add: independent_def) (simp add: withConnection_def)

text \<open>A publication computed from an object in which the replica's own entry is up to date, whatever else is stale in
  it, ends up as it was meant.\<close>

lemma stale_publication:
  assumes "mergesStatus patch" and "conn (wsStatus b) p = conn s p"
  shows "conn (patch (wsStatus b) (wsStatus (withConnection p n t b)) s) =
    (conn s)(p \<mapsto> \<lparr>ceCount = n, ceHeartbeatAt = t\<rparr>)"
  using assms(2) by (auto simp: fun_eq_iff patch_fields [OF assms(1)] mergeEntry_def merged_def split: option.splits)


text \<open>An executable merge, over the replicas any of the three objects names.\<close>

definition mergeConnections ::
    "(string \<times> connectionEntry) list \<Rightarrow> (string \<times> connectionEntry) list \<Rightarrow> (string \<times> connectionEntry) list \<Rightarrow> (string \<times> connectionEntry) list" where
  "mergeConnections b x s =
     map (\<lambda>p. (p, the (mergeEntry (map_of b p) (map_of x p) (map_of s p))))
       (filter (\<lambda>p. mergeEntry (map_of b p) (map_of x p) (map_of s p) \<noteq> None) (map fst (s @ x)))"

definition mergeStatus :: statusPatch where
  "mergeStatus b x s =
     \<lparr>ObservedGeneration = merged (ObservedGeneration b) (ObservedGeneration x) (ObservedGeneration s),
      wsPhase = merged (wsPhase b) (wsPhase x) (wsPhase s),
      ScaledDown = merged (ScaledDown b) (ScaledDown x) (ScaledDown s),
      LastActivity = merged (LastActivity b) (LastActivity x) (LastActivity s),
      Connections = mergeConnections (Connections b) (Connections x) (Connections s),
      WakeRequestedAt = merged (WakeRequestedAt b) (WakeRequestedAt x) (WakeRequestedAt s),
      EnqueuedAt = merged (EnqueuedAt b) (EnqueuedAt x) (EnqueuedAt s),
      ConsecutiveFailures = merged (ConsecutiveFailures b) (ConsecutiveFailures x) (ConsecutiveFailures s),
      BackoffUntil = merged (BackoffUntil b) (BackoffUntil x) (BackoffUntil s),
      StartDeadline = merged (StartDeadline b) (StartDeadline x) (StartDeadline s),
      WaitingReason = merged (WaitingReason b) (WaitingReason x) (WaitingReason s),
      LargestObservedSize = merged (LargestObservedSize b) (LargestObservedSize x) (LargestObservedSize s),
      Conditions = merged (Conditions b) (Conditions x) (Conditions s),
      PodRef = merged (PodRef b) (PodRef x) (PodRef s),
      ServiceRef = merged (ServiceRef b) (ServiceRef x) (ServiceRef s),
      PVCRef = merged (PVCRef b) (PVCRef x) (PVCRef s)\<rparr>"

lemma mergeEntry_None: "stored = None \<Longrightarrow> new = None \<Longrightarrow> mergeEntry base new stored = None"
  by (simp add: mergeEntry_def)

lemma map_of_defined: "map_of (map (\<lambda>p. (p, the (f p))) (filter (\<lambda>p. f p \<noteq> None) ks)) p = (if p \<in> set ks then f p else None)"
  by (induction ks) auto

lemma mergeStatus_merges: "mergesStatus mergeStatus"
proof -
  have "conn (mergeStatus b x s) p = mergeEntry (conn b p) (conn x p) (conn s p)" for b x s p
    unfolding conn_def mergeStatus_def workspaceStatus.simps mergeConnections_def map_of_defined
    by (auto simp: mergeEntry_None map_of_eq_None_iff intro!: mergeEntry_None [symmetric])
  then show ?thesis by (simp add: mergesStatus_def) (simp add: mergeStatus_def)
qed

definition nowIdle :: workspace where
  "nowIdle = setStatus (\<lambda>s. s\<lparr>wsPhase := PhaseIdle\<rparr>) busyWs"
definition nowActive :: workspace where
  "nowActive = setStatus (\<lambda>s. s\<lparr>LastActivity := Some (9010 * second)\<rparr>) busyWs"


section \<open>Writes that get lost\<close>

text \<open>The activity timestamp is read, compared and patched, but the patch carries no resource version: of two
  replicas that read the same status, the one with the earlier time may write last, and the field moves back.\<close>

lemma activity_moves_back:
  assumes "mergesStatus patch" and "LastActivity s = Some t0" and "t0 < t1" and "t1 < t2"
  shows "LastActivity (patch s (s\<lparr>LastActivity := Some t1\<rparr>) (patch s (s\<lparr>LastActivity := Some t2\<rparr>) s)) = Some t1"
  using assms(2-4) by (simp add: patch_fields [OF assms(1)] merged_def)

text \<open>A count equal to the one in the object that was read is not sent. A replica whose \<open>Close\<close> and next \<open>Open\<close> both read
  the entry before either is written publishes no connection, although the patch of \<open>Open\<close> is written last.\<close>

lemma unchanged_count_is_not_sent:
  assumes "mergesStatus patch" and "conn (wsStatus b) p = Some \<lparr>ceCount = 1, ceHeartbeatAt = t0\<rparr>" and "t0 < t1" and "t1 < t2"
  shows "conn (patch (wsStatus b) (wsStatus (withConnection p 1 t2 b))
      (patch (wsStatus b) (wsStatus (withConnection p 0 t1 b)) (wsStatus b))) p = Some \<lparr>ceCount = 0, ceHeartbeatAt = t2\<rparr>"
  using assms(2-4) by (simp add: patch_fields [OF assms(1)] mergeEntry_def merged_def)

end
