(* ===== verification/Fleet.thy ===== *)
theory Fleet
  imports Field_Ownership
begin

text \<open>
  The fleet of one app as a whole, under its two limits (\<open>spec.limits\<close>): \<open>maxConcurrentStarts\<close>, kept by the
  admitter (\<open>internal/controller/admission.go\<close>), and \<open>maxWorkspaces\<close>, kept by the router
  (\<open>ensureWorkspace\<close> of \<open>internal/router/server.go\<close>).

  Shown here: what each handler does to the start slots; that over any sequence of passes, sweeps, scale-downs, requests,
  creations and deletions the starts in progress stay within their limit, and the fleet within its limit
  plus the number of requests that are between their count and their create at the same time, less one; and two ways
  in which the limits do not do what they are for.
\<close>

section \<open>What a handler does to the start slots\<close>

text \<open>A workspace holds a slot after a pass only if it did before, or was admitted from the listing.\<close>

definition slotPass :: "perUserApp \<Rightarrow> workspace list \<Rightarrow> workspace \<Rightarrow> workspace \<Rightarrow> bool" where
  "slotPass app items b x \<longleftrightarrow> wsKey x = wsKey b \<and>
     (holdsSlot x \<longrightarrow> holdsSlot b \<or> phase b = PhasePending \<and> admitDecision b app items)"

definition listsFleet :: "('s, 'x) env_scheme \<Rightarrow> perUserApp \<Rightarrow> string \<Rightarrow> workspace list \<Rightarrow> bool" where
  "listsFleet env app ns items \<longleftrightarrow>
     (\<forall>c got. fst (rList (workspaces env) ns [(LabelApp, appName app)] c) = Inr got \<longrightarrow> got = items)"

lemma TryAdmit_decides:
  assumes "listsFleet env app (Namespace (wsMeta ws)) items" and "fst (run_state (TryAdmit env ws app) w) = Inr True"
  shows "admitDecision ws app items"
  using assms unfolding TryAdmit_def inBackoff_def listsFleet_def
  by (auto simp: client_defs split: if_splits option.splits sum.splits prod.splits)

text \<open>The Starting row leaves the backoff alone as long as it stays Starting.\<close>

definition sameBackoff :: "workspace \<Rightarrow> workspace \<Rightarrow> bool" where
  "sameBackoff b x \<longleftrightarrow> (phase x = PhaseStarting \<longrightarrow> BackoffUntil (wsStatus x) = BackoffUntil (wsStatus b))"

lemma sameBackoff_storage: "storageStep b x \<Longrightarrow> BackoffUntil (wsStatus x) = BackoffUntil (wsStatus b)"
  by (auto simp: storageStep_def)

lemma reconcileStarting_backoff:
  assumes "rAdmitter r = NewAdmitter env"
  shows "obeys (reconcileStarting env r ws app) (\<lambda>x _. sameBackoff ws (snd x))"
proof -
  have fail: "obeys (failStarting env r x app reason) (\<lambda>y _. sameBackoff ws y)" for x reason
    by (rule real_admitter.failStarting_wp [OF assms]) (simp add: sameBackoff_def)
  have deadline: "obeys (checkDeadline env r x app) (\<lambda>y _. sameBackoff ws (snd y))"
    if "BackoffUntil (wsStatus x) = BackoffUntil (wsStatus ws)" for x
    unfolding checkDeadline_def using that by (intro obeys_rules obeys_mono [OF fail]) (simp_all add: sameBackoff_def)
  have inspect: "obeys (inspectPod env r x app p) (\<lambda>y _. sameBackoff ws (snd y))"
    if "BackoffUntil (wsStatus x) = BackoffUntil (wsStatus ws)" for x p
    unfolding inspectPod_def using that by (intro obeys_rules obeys_mono [OF fail] deadline) simp_all
  have ready: "obeys (transitionToReady env x app p) (\<lambda>y _. sameBackoff ws y)" for x p
    unfolding transitionToReady_def by (intro obeys_rules) (simp_all add: sameBackoff_def)
  have exit: "obeys (startingExit env r x app p) (\<lambda>y _. sameBackoff ws (snd y))"
    if "BackoffUntil (wsStatus x) = BackoffUntil (wsStatus ws)" for x p
    unfolding startingExit_def using that
    by (intro obeys_rules inspect obeys_mono [OF ready]) (simp_all add: sameBackoff_def)
  show ?thesis
    unfolding reconcileStarting_def
    by (intro withStorage_wp obeys_andThen podsOf_wp)
      (auto simp: sameBackoff_def sameBackoff_storage split: sum.split intro: exit [unfolded sameBackoff_def])
qed

lemma move_to_Starting: "phase_move admits env ws app p PhaseStarting \<Longrightarrow> p = PhasePending \<and> admits"
  by (erule phase_move_to_StartingE) simp

lemma reconcilePhase_slots:
  assumes "rAdmitter r = NewAdmitter env" and "listsFleet env app (Namespace (wsMeta ws)) items"
  shows "obeys (reconcilePhase env r ws app) (\<lambda>x _. slotPass app items ws (snd x))"
proof -
  let ?admits = "\<exists>w. fst (run_state (tryAdmit (NewAdmitter env) ws app) w) = Inr True"
  have admits: "admitDecision ws app items" if ?admits
    using that TryAdmit_decides [OF assms(2)] by (auto simp: NewAdmitter_def)
  have ok: "obeys (reconcilePhase env r ws app) (\<lambda>x _. phaseOk ?admits env ws app (snd x))"
    by (rule real_admitter.reconcilePhase_ok [OF assms(1)])
  have slot: "slotPass app items ws x"
    if ok: "phaseOk ?admits env ws app x" and keep: "phase ws = PhaseStarting \<Longrightarrow> sameBackoff ws x" for x
  proof -
    have "holdsSlot ws \<or> phase ws = PhasePending \<and> admitDecision ws app items" if slot: "holdsSlot x"
    proof (cases "phase ws = PhaseStarting")
      case True
      then show ?thesis using keep slot by (simp add: sameBackoff_def holdsSlot_def)
    next
      case False
      then have "phase_move ?admits env ws app (phase ws) PhaseStarting"
        using ok slot by (auto simp: phaseOk_def holdsSlot_def)
      from move_to_Starting [OF this] admits show ?thesis by blast
    qed
    then show ?thesis using ok by (simp add: slotPass_def phaseOk_def wsKey_def)
  qed
  show ?thesis
  proof (cases "phase ws = PhaseStarting")
    case True
    then have "obeys (reconcilePhase env r ws app) (\<lambda>x _. sameBackoff ws (snd x))"
      using reconcileStarting_backoff [OF assms(1)] by (simp add: reconcilePhase_def)
    then show ?thesis by (rule obeys_mono [OF obeys_conj [OF ok]]) (simp add: slot)
  next
    case False
    then show ?thesis by (intro obeys_mono [OF ok] slot) simp_all
  qed
qed

text \<open>The other writers: a recorded failure, a new leader's sweep, the Reaper, a request.\<close>

lemma writers_slots:
  "slotPass app items b (failurePatch app' b t)"
  "slotPass app items b (setStatus (\<lambda>s. s\<lparr>StartDeadline := d\<rparr>) b)"
  "slotPass app items b (scaledDown b)"
  "routerStep b x \<Longrightarrow> slotPass app items b x"
  by (auto simp: slotPass_def holdsSlot_def failurePatch_def scaledDown_def routerStep_def sameButRouter_fields wsKey_def)

section \<open>The system\<close>

text \<open>The workspaces of the app, and the users whose requests have counted them below the limit and not yet sent
  their create. At most \<open>c\<close> requests are between the two at any time.\<close>

record fsys =
  fItems :: "workspace list"
  fApproved :: "string list"

inductive fleet_step :: "config \<Rightarrow> perUserApp \<Rightarrow> nat \<Rightarrow> fsys \<Rightarrow> fsys \<Rightarrow> bool" for cfg :: config and app :: perUserApp and c :: nat where
  pass: "i < length (fItems s) \<Longrightarrow> slotPass app (fItems s) (fItems s ! i) x \<Longrightarrow>
    fleet_step cfg app c s (s\<lparr>fItems := (fItems s)[i := x]\<rparr>)"
| check: "\<not> limitReached cfg (fItems s) \<Longrightarrow> length (fApproved s) < c \<Longrightarrow>
    fleet_step cfg app c s (s\<lparr>fApproved := u # fApproved s\<rparr>)"
| create: "fApproved s = us @ u # vs \<Longrightarrow> wsKey w = wsKey (newWorkspace cfg raw u) \<Longrightarrow>
    wsStatus w = wsStatus (newWorkspace cfg raw u) \<Longrightarrow> wsKey w \<notin> wsKey ` set (fItems s) \<Longrightarrow>
    fleet_step cfg app c s (s\<lparr>fItems := fItems s @ [w], fApproved := us @ vs\<rparr>)"
| refused: "fApproved s = us @ u # vs \<Longrightarrow> fleet_step cfg app c s (s\<lparr>fApproved := us @ vs\<rparr>)"
| remove: "fItems s = xs @ w # ys \<Longrightarrow> fleet_step cfg app c s (s\<lparr>fItems := xs @ ys\<rparr>)"

definition fsysStart :: fsys where
  "fsysStart = \<lparr>fItems = [], fApproved = []\<rparr>"

definition fleetInv :: "config \<Rightarrow> perUserApp \<Rightarrow> nat \<Rightarrow> fsys \<Rightarrow> bool" where
  "fleetInv cfg app c s \<longleftrightarrow> distinct (map wsKey (fItems s)) \<and> length (fApproved s) \<le> c \<and>
     occupied (fItems s) \<le> MaxConcurrentStarts (spLimits (appSpec app)) \<and>
     (0 < cfgMaxWorkspaces cfg \<longrightarrow> int (length (fItems s) + length (fApproved s)) \<le> cfgMaxWorkspaces cfg + int c - 1)"

lemma occupied_append [simp]: "occupied (xs @ ys) = occupied xs + occupied ys"
  by (simp add: occupied_def)

lemma occupied_nonneg [simp]: "0 \<le> occupied xs"
  by (simp add: occupied_def)

lemma occupied_Cons [simp]: "occupied (w # ws) = (if holdsSlot w then 1 else 0) + occupied ws" and occupied_Nil [simp]: "occupied [] = 0"
  by (simp_all add: occupied_def)

lemma occupied_split: "i < length items \<Longrightarrow> occupied items = occupied (take i items) + occupied [items ! i] + occupied (drop (Suc i) items)"
  by (metis append.assoc append_Cons append_Nil id_take_nth_drop occupied_append)

lemma occupied_update:
  "i < length items \<Longrightarrow> occupied (items[i := x]) = occupied items - occupied [items ! i] + occupied [x]"
  using occupied_split [of i items] occupied_split [of i "items[i := x]"] by simp

lemma pass_occupied:
  assumes "i < length items" and "slotPass app items (items ! i) x"
    and "occupied items \<le> MaxConcurrentStarts (spLimits (appSpec app))"
  shows "occupied (items[i := x]) \<le> MaxConcurrentStarts (spLimits (appSpec app))"
proof -
  have "occupied items < MaxConcurrentStarts (spLimits (appSpec app))" if "admitDecision (items ! i) app items"
    using that by (simp add: admitDecision_def admissionSlots_def Let_def split: if_splits)
  then show ?thesis using assms by (auto simp: occupied_update slotPass_def)
qed

lemma fleetInv_step:
  assumes "fleet_step cfg app c s s'" and "fleetInv cfg app c s" and "cfgMaxWorkspaces cfg + int c \<le> 2 ^ 31"
  shows "fleetInv cfg app c s'"
  using assms(1,2)
proof (induction rule: fleet_step.induct)
  case (pass i s x)
  have "map wsKey ((fItems s)[i := x]) = map wsKey (fItems s)"
    using pass(1,2) by (simp add: map_update slotPass_def list_update_same_conv)
  then show ?case using pass pass_occupied [OF pass(1,2)] by (simp add: fleetInv_def)
next
  case (check s u)
  have "int (length (fItems s)) < cfgMaxWorkspaces cfg" if "0 < cfgMaxWorkspaces cfg"
  proof -
    have "in_int32 (int (length (fItems s)))" using check(3) that assms(3) by (simp add: fleetInv_def in_int32_def)
    then show ?thesis using check(1) that by (simp add: limitReached_def)
  qed
  then show ?case using check by (auto simp: fleetInv_def)
next
  case (create s us u vs w raw)
  then show ?case by (auto simp: fleetInv_def holdsSlot_def newWorkspace_def zeroStatus_def)
next
  case (remove s xs w ys)
  then show ?case by (auto simp: fleetInv_def split: if_splits)
qed (auto simp: fleetInv_def)

lemma fleetInv_reachable:
  assumes "(fleet_step cfg app c)\<^sup>*\<^sup>* fsysStart s" and "0 \<le> MaxConcurrentStarts (spLimits (appSpec app))" and "1 \<le> c"
    and "cfgMaxWorkspaces cfg + int c \<le> 2 ^ 31"
  shows "fleetInv cfg app c s"
  using assms(1)
proof (induction rule: rtranclp_induct)
  case base
  then show ?case using assms(2,3) by (simp add: fleetInv_def fsysStart_def occupied_def)
qed (rule fleetInv_step [OF _ _ assms(4)])


text \<open>A request creates its workspace, and a pass makes it Pending.\<close>

definition firstUser :: workspace where
  "firstUser = newWorkspace sampleConfig ''alice'' ''u1''"

definition sampleFleet :: fsys where
  "sampleFleet = \<lparr>fItems = [setStatus (\<lambda>s. s\<lparr>wsPhase := PhasePending\<rparr>) firstUser], fApproved = []\<rparr>"

definition fleetEnv :: "(gotime \<times> workspace list) env" where
  "fleetEnv = sampleEnv\<lparr>workspaces := (workspaces sampleEnv)\<lparr>rList := \<lambda>_ _ c. (Inr (fItems sampleFleet), c)\<rparr>\<rparr>"

lemma sampleFleet_reachable: "(fleet_step sampleConfig sampleApp 1)\<^sup>*\<^sup>* fsysStart sampleFleet"
proof -
  define s1 where "s1 = fsysStart\<lparr>fApproved := ''u1'' # fApproved fsysStart\<rparr>"
  define s2 where "s2 = s1\<lparr>fItems := fItems s1 @ [firstUser], fApproved := [] @ []\<rparr>"
  have "fleet_step sampleConfig sampleApp 1 fsysStart s1"
    unfolding s1_def by (rule fleet_step.check) (simp_all add: fsysStart_def limitReached_def sampleConfig_def wrap32_def)
  moreover have "fleet_step sampleConfig sampleApp 1 s1 s2"
    unfolding s2_def firstUser_def
    by (rule fleet_step.create [where u = "''u1''" and raw = "''alice''"]) (simp_all add: s1_def fsysStart_def)
  moreover have "fleet_step sampleConfig sampleApp 1 s2 sampleFleet"
    using fleet_step.pass [of 0 s2 sampleApp "setStatus (\<lambda>s. s\<lparr>wsPhase := PhasePending\<rparr>) firstUser" sampleConfig 1]
    by (simp add: s2_def s1_def fsysStart_def sampleFleet_def slotPass_def holdsSlot_def)
  ultimately show ?thesis by (meson rtranclp.rtrancl_into_rtrancl rtranclp.rtrancl_refl)
qed


section \<open>Where the limits fall short\<close>

text \<open>The bound on the fleet is reached: two requests of new users that count one free place each create.\<close>

lemma racing_requests_exceed_limit:
  assumes "int (length (fItems s)) + 1 = cfgMaxWorkspaces cfg" and "cfgMaxWorkspaces cfg < 2 ^ 31" and "2 \<le> c" and "fApproved s = []"
    and "wsKey (newWorkspace cfg a u) \<notin> wsKey ` set (fItems s)" and "wsKey (newWorkspace cfg b v) \<notin> wsKey ` set (fItems s)"
    and "wsKey (newWorkspace cfg a u) \<noteq> wsKey (newWorkspace cfg b v)"
  shows "\<exists>s'. (fleet_step cfg app c)\<^sup>*\<^sup>* s s' \<and> int (length (fItems s')) = cfgMaxWorkspaces cfg + 1"
proof -
  define s1 where "s1 = s\<lparr>fApproved := u # fApproved s\<rparr>"
  define s2 where "s2 = s1\<lparr>fApproved := v # fApproved s1\<rparr>"
  define s3 where "s3 = s2\<lparr>fItems := fItems s2 @ [newWorkspace cfg a u], fApproved := [v] @ []\<rparr>"
  define s4 where "s4 = s3\<lparr>fItems := fItems s3 @ [newWorkspace cfg b v], fApproved := [] @ []\<rparr>"
  have "in_int32 (int (length (fItems s)))" using assms(1,2) by (simp add: in_int32_def)
  then have free: "\<not> limitReached cfg (fItems s)" using assms(1) by (simp add: limitReached_def)
  have "fleet_step cfg app c s s1" unfolding s1_def by (rule fleet_step.check) (use free assms(3,4) in simp_all)
  moreover have "fleet_step cfg app c s1 s2"
    unfolding s2_def by (rule fleet_step.check) (use free assms(3,4) in \<open>simp_all add: s1_def\<close>)
  moreover have "fleet_step cfg app c s2 s3"
    unfolding s3_def by (rule fleet_step.create [where u = u and raw = a]) (use assms in \<open>simp_all add: s2_def s1_def\<close>)
  moreover have "fleet_step cfg app c s3 s4"
    unfolding s4_def by (rule fleet_step.create [where u = v and raw = b]) (use assms in \<open>auto simp: s3_def s2_def s1_def\<close>)
  ultimately have "(fleet_step cfg app c)\<^sup>*\<^sup>* s s4" by (meson rtranclp.rtrancl_into_rtrancl rtranclp.rtrancl_refl)
  moreover have "int (length (fItems s4)) = cfgMaxWorkspaces cfg + 1" using assms(1) by (simp add: s4_def s3_def s2_def s1_def)
  ultimately show ?thesis by blast
qed

text \<open>A backoff that is armed on a Starting workspace releases its slot, and becoming Ready does not disarm it. After the next
  wake the workspace starts again without being counted.\<close>

lemma ready_keeps_backoff:
  "obeys (transitionToReady env ws app p) (\<lambda>x _. phase x = PhaseReady \<and> BackoffUntil (wsStatus x) = BackoffUntil (wsStatus ws))"
  unfolding transitionToReady_def by (intro obeys_rules) simp_all

lemma armed_starts_are_not_counted:
  assumes "list_all (\<lambda>w. BackoffUntil (wsStatus w) \<noteq> None) starts" and "phase w = PhasePending"
    and "0 < MaxConcurrentStarts (spLimits (appSpec app))"
  shows "occupied starts = 0 \<and> admitDecision w app (map (setStatus (\<lambda>s. s\<lparr>wsPhase := PhaseStarting\<rparr>) \<circ> wake) starts @ [w])"
proof -
  have "occupied starts = 0" using assms(1) by (induction starts) (auto simp: holdsSlot_def)
  moreover have "occupied (map (setStatus (\<lambda>s. s\<lparr>wsPhase := PhaseStarting\<rparr>) \<circ> wake) starts) = 0"
    "candidates (map (setStatus (\<lambda>s. s\<lparr>wsPhase := PhaseStarting\<rparr>) \<circ> wake) starts) = []"
    using assms(1) by (induction starts) (auto simp: holdsSlot_def wake_def candidates_def)
  ultimately show ?thesis
    using assms(2,3)
    by (simp add: admitDecision_def admissionSlots_def holdsSlot_def candidates_def Let_def sameObject_def take_Cons')
qed

text \<open>The queue has no way around its head: as many workspaces as there are slots, ahead of a workspace and kept Pending (a
  claim that is refused at admission keeps its workspace so), keep it waiting.\<close>

lemma head_of_line_blocks:
  assumes "distinct (map wsKey items)" and "w \<in> set (candidates items)"
    and "B \<subseteq> set (candidates items)" and "\<And>b. b \<in> B \<Longrightarrow> enqueueKey b < enqueueKey w"
    and "admissionSlots app items \<le> int (card B)"
  shows "\<not> admitDecision w app items"
proof
  assume w: "admitDecision w app items"
  let ?adm = "filter (\<lambda>w. admitDecision w app items) (candidates items)"
  have "insert w B \<subseteq> set ?adm"
    using w assms(2,3) admitted_before [OF assms(1,2) _ w] assms(4) by (fastforce simp: not_le)
  moreover have "w \<notin> B" "finite B" using assms(4) finite_subset [OF assms(3)] by auto
  ultimately have "Suc (card B) \<le> card (set ?adm)" by (metis List.finite_set card_insert_disjoint card_mono)
  also have "\<dots> \<le> nat (admissionSlots app items)"
    using card_length [of ?adm] admitted_count [OF assms(1), of app] by (simp add: admissionSlots_def)
  finally show False using assms(5) by linarith
qed

end
