(* ===== verification/Wiring.thy ===== *)
theory Wiring
  imports Rbac_Facts Ticker_Loops Go_Flag
begin

text \<open>
  How the controllers are wired to the manager: the API types registered with the scheme
  (\<open>api/v1alpha1/groupversion_info.go\<close>), what \<open>SetupWithManager\<close> of the two reconcilers asks the builder to watch, and
  that the Reaper and the Reclaimer run on the leader only. The builder is a library; what it does with an owned kind
  (a change of an object requeues the controller its owner reference names) is documented and a hypothesis here.

  Shown here: every object a pass leaves behind with an owner reference is of a watched kind, so that a change to it
  requeues exactly its owner; and every watched kind may be listed and watched under the verbs of \<open>rbacspec\<close>.
\<close>

section \<open>Registration\<close>

definition GroupVersion :: "string \<times> string" where
  "GroupVersion = (''apps.kettleofketchup'', ''v1alpha1'')"

datatype apiType = PerUserAppType | PerUserAppListType | WorkspaceType | WorkspaceListType

definition registeredTypes :: "apiType list" where
  "registeredTypes = [PerUserAppType, PerUserAppListType, WorkspaceType, WorkspaceListType]"

lemma all_types_registered: "t \<in> set registeredTypes"
  by (cases t) (simp_all add: registeredTypes_def)

lemma group_agrees: "fst GroupVersion = GroupName"
  by (simp add: GroupVersion_def GroupName_def)

section \<open>SetupWithManager\<close>

datatype watchKind = WatchWorkspace | WatchPerUserApp | WatchDeployment | WatchService | WatchNetworkPolicy
  | WatchServiceAccount | WatchRoleBinding

record builder =
  bNamed :: string
  bFor :: watchKind
  bOwns :: "watchKind list"
  bMapped :: "(watchKind \<times> (workspace \<Rightarrow> key list)) list"

text \<open>The reconciler's own admitter and name, defaulted, and what the builder is asked for.\<close>

definition WorkspaceReconciler_SetupWithManager ::
    "('s, 'x) env_scheme \<Rightarrow> 's admitter option \<Rightarrow> string \<Rightarrow> 's admitter \<times> builder" where
  "WorkspaceReconciler_SetupWithManager env adm name =
     ((case adm of None \<Rightarrow> NewAdmitter env | Some a \<Rightarrow> a),
      \<lparr>bNamed = (if name = [] then ''workspace'' else name), bFor = WatchWorkspace,
       bOwns = [WatchDeployment, WatchService, WatchNetworkPolicy], bMapped = []\<rparr>)"

definition PerUserAppReconciler_SetupWithManager :: "string \<Rightarrow> builder" where
  "PerUserAppReconciler_SetupWithManager name =
     \<lparr>bNamed = (if name = [] then ''peruserapp'' else name), bFor = WatchPerUserApp,
      bOwns = [WatchDeployment, WatchService, WatchNetworkPolicy, WatchServiceAccount, WatchRoleBinding],
      bMapped = [(WatchWorkspace, mapWorkspaceToApp)]\<rparr>"

definition Reaper_NeedLeaderElection :: bool where
  "Reaper_NeedLeaderElection = True"
definition Reclaimer_NeedLeaderElection :: bool where
  "Reclaimer_NeedLeaderElection = True"

text \<open>The two controllers of one process have different names, as the manager requires.\<close>

lemma default_names_differ:
  "bNamed (snd (WorkspaceReconciler_SetupWithManager env adm [])) \<noteq> bNamed (PerUserAppReconciler_SetupWithManager [])"
  by (simp add: WorkspaceReconciler_SetupWithManager_def PerUserAppReconciler_SetupWithManager_def)

section \<open>The background runnables\<close>

text \<open>\<open>Reaper\<close> and \<open>Reclaimer\<close>, two structs with the same fields: an optional client and clock, a tick interval and the gates,
  a map that is nil until the first pass.\<close>

record ('s, 'c) runnable =
  rnClient :: "'c option"
  rnClock :: "('s \<Rightarrow> gotime \<times> 's) option"
  rnTickInterval :: duration
  rnLastPass :: "passes option"

definition NewReaper :: "'c \<Rightarrow> ('s, 'c) runnable" where
  "NewReaper c = \<lparr>rnClient = Some c, rnClock = None, rnTickInterval = 0, rnLastPass = None\<rparr>"

definition NewReclaimer :: "'c \<Rightarrow> ('s, 'c) runnable" where
  "NewReclaimer c = \<lparr>rnClient = Some c, rnClock = None, rnTickInterval = 0, rnLastPass = None\<rparr>"

text \<open>\<open>timeNow\<close> is \<open>time.Now\<close>, \<open>add\<close> the manager's \<open>Add\<close>.\<close>

definition Reaper_now :: "('s \<Rightarrow> gotime \<times> 's) \<Rightarrow> ('s, 'c) runnable \<Rightarrow> 's \<Rightarrow> gotime \<times> 's" where
  "Reaper_now timeNow r = (case rnClock r of Some f \<Rightarrow> f | None \<Rightarrow> timeNow)"

definition Reclaimer_now :: "('s \<Rightarrow> gotime \<times> 's) \<Rightarrow> ('s, 'c) runnable \<Rightarrow> 's \<Rightarrow> gotime \<times> 's" where
  "Reclaimer_now timeNow r = (case rnClock r of Some f \<Rightarrow> f | None \<Rightarrow> timeNow)"

definition Reaper_SetupWithManager ::
    "'c \<Rightarrow> (('s, 'c) runnable \<Rightarrow> error option) \<Rightarrow> ('s, 'c) runnable \<Rightarrow> error option \<times> ('s, 'c) runnable" where
  "Reaper_SetupWithManager mgrClient add r =
     (let r = (if rnClient r = None then r\<lparr>rnClient := Some mgrClient\<rparr> else r) in (add r, r))"

definition Reclaimer_SetupWithManager ::
    "'c \<Rightarrow> (('s, 'c) runnable \<Rightarrow> error option) \<Rightarrow> ('s, 'c) runnable \<Rightarrow> error option \<times> ('s, 'c) runnable" where
  "Reclaimer_SetupWithManager mgrClient add r =
     (let r = (if rnClient r = None then r\<lparr>rnClient := Some mgrClient\<rparr> else r) in (add r, r))"

definition gatesOf :: "('s, 'c) runnable \<Rightarrow> passes" where
  "gatesOf r = (case rnLastPass r of None \<Rightarrow> Map.empty | Some lp \<Rightarrow> lp)"

text \<open>As the controller process wires them, both have the manager's client, read the one clock of the environment and
  tick at their fixed cadence, and right after a start every app is due.\<close>

lemma wired_runnables:
  "r \<in> {snd (Reaper_SetupWithManager c add (NewReaper c)), snd (Reclaimer_SetupWithManager c add (NewReclaimer c))} \<Longrightarrow>
   rnClient r = Some c \<and> Reaper_now (clock env) r = clock env \<and> Reclaimer_now (clock env) r = clock env \<and>
   reaper_tickInterval (rnTickInterval r) = reaperTickInterval \<and>
   reclaimer_tickInterval (rnTickInterval r) = reclaimerTickInterval \<and> \<not> gated (gatesOf r) t interval app"
  by (auto simp: Reaper_SetupWithManager_def Reclaimer_SetupWithManager_def NewReaper_def NewReclaimer_def Reaper_now_def
      Reclaimer_now_def gatesOf_def gated_def reaper_tickInterval_def reclaimer_tickInterval_def Let_def)

text \<open>\<open>repeatedString\<close>, the value of a flag that may be given more than once: the values in the order
  given, as the flag parser of \<open>Go_Flag\<close> collects them.\<close>

definition repeatedString_Set :: "string list \<Rightarrow> string \<Rightarrow> string list" where
  "repeatedString_Set r v = r @ [v]"

lemma repeated_in_order: "foldl repeatedString_Set r vs = r @ vs"
  by (induction vs arbitrary: r) (simp_all add: repeatedString_Set_def)

lemma repeated_is_flag: "setFlag (VStrings r) v = Some (VStrings (repeatedString_Set r v))"
  by (simp add: repeatedString_Set_def)

section \<open>Changes come back\<close>

fun watchOf :: "obj \<Rightarrow> watchKind option" where
  "watchOf (DepObj _) = Some WatchDeployment"
| "watchOf (SvcObj _) = Some WatchService"
| "watchOf (NpObj _) = Some WatchNetworkPolicy"
| "watchOf (SaObj _) = Some WatchServiceAccount"
| "watchOf (RbObj _) = Some WatchRoleBinding"
| "watchOf (WsObj _) = Some WatchWorkspace"
| "watchOf (AppObj _) = Some WatchPerUserApp"
| "watchOf _ = None"

fun objMeta :: "obj \<Rightarrow> objectMeta" where
  "objMeta (WsObj x) = wsMeta x"
| "objMeta (AppObj x) = appMeta x"
| "objMeta (DepObj x) = depMeta x"
| "objMeta (SvcObj x) = svcMeta x"
| "objMeta (NpObj x) = npMeta x"
| "objMeta (PvcObj x) = pvcMeta x"
| "objMeta (PvObj x) = pvMeta x"
| "objMeta (SaObj x) = saMeta x"
| "objMeta (RbObj x) = rbMeta x"

definition kindName :: "watchKind \<Rightarrow> string" where
  "kindName k = (case k of WatchWorkspace \<Rightarrow> ''Workspace'' | WatchPerUserApp \<Rightarrow> ''PerUserApp'' | _ \<Rightarrow> [])"

text \<open>What the library does with an owned kind: a change of an object of it requeues the object of the builder's kind
  that its controller reference names, in the object's namespace.\<close>

definition enqueuesOwner :: "(builder \<Rightarrow> obj \<Rightarrow> key list) \<Rightarrow> bool" where
  "enqueuesOwner requests \<longleftrightarrow> (\<forall>b x r. watchOf x \<in> Some ` set (bOwns b) \<longrightarrow> r \<in> set (OwnerReferences (objMeta x)) \<longrightarrow>
     orController r \<longrightarrow> orKind r = kindName (bFor b) \<longrightarrow> (Namespace (objMeta x), orName r) \<in> set (requests b x))"

definition workspaceChildren :: "('s, 'x) env_scheme \<Rightarrow> perUserApp \<Rightarrow> workspace \<Rightarrow> string \<Rightarrow> string \<Rightarrow> obj list" where
  "workspaceChildren env app ws podCIDR nodeCIDR =
     DepObj (RenderWorkspaceDeployment env app ws) # SvcObj (RenderWorkspaceService app ws) #
     map NpObj (RenderWorkspaceNetworkPolicies app ws podCIDR nodeCIDR)"

lemma enqueuesOwner_refs: "enqueuesOwner (\<lambda>b x. map (\<lambda>r. (Namespace (objMeta x), orName r)) (OwnerReferences (objMeta x)))"
  by (auto simp: enqueuesOwner_def)

lemma owned_requeues:
  assumes "enqueuesOwner requests" and "watchOf x \<in> Some ` set (bOwns b)" and "OwnerReferences (objMeta x) = [controllerRef m (kindName (bFor b))]"
    and "Namespace (objMeta x) = Namespace m"
  shows "(Namespace m, Name m) \<in> set (requests b x)"
proof -
  let ?r = "controllerRef m (kindName (bFor b))"
  have "?r \<in> set (OwnerReferences (objMeta x))" "orController ?r" "orKind ?r = kindName (bFor b)"
    by (simp_all add: assms(3)) (simp_all add: controllerRef_def)
  then have "(Namespace (objMeta x), orName ?r) \<in> set (requests b x)"
    using assms(1,2) unfolding enqueuesOwner_def by blast
  then show ?thesis by (simp add: controllerRef_def assms(4))
qed

lemma children_requeue_workspace:
  assumes "enqueuesOwner requests"
  shows "list_all (\<lambda>x. (Namespace (wsMeta ws), Name (wsMeta ws)) \<in>
      set (requests (snd (WorkspaceReconciler_SetupWithManager env adm name)) x)) (workspaceChildren env app ws podCIDR nodeCIDR)"
  unfolding workspaceChildren_def RenderWorkspaceNetworkPolicies_def
  by (simp, intro conjI owned_requeues [OF assms])
    (simp_all add: WorkspaceReconciler_SetupWithManager_def kindName_def RenderWorkspaceDeployment_def
      RenderWorkspaceService_def workspaceIngressPolicy_def workspaceEgressPolicy_def workspaceOwnerRef_def Let_def)

lemma router_objects_requeue_app:
  assumes "enqueuesOwner requests"
  shows "list_all (\<lambda>x. (Namespace (appMeta app), appName app) \<in>
      set (requests (PerUserAppReconciler_SetupWithManager name) x)) (routerObjects r app)"
  unfolding routerObjects_def
  by (auto split: option.split intro!: owned_requeues [OF assms]
    simp: PerUserAppReconciler_SetupWithManager_def kindName_def RenderWorkspaceServiceAccount_def RenderRouterServiceAccount_def
      RenderRouterRoleBinding_def RenderRouterService_def RenderRouterNetworkPolicy_def RenderRouterDeployment_def appOwnerRef_def Let_def)

text \<open>A workspace that changes, appears or goes requeues its app.\<close>

lemma workspaces_requeue_app:
  assumes "wsAppRef (wsSpec ws) = appName app" and "Namespace (wsMeta ws) = Namespace (appMeta app)" and "appName app \<noteq> []"
  shows "\<exists>f. (WatchWorkspace, f) \<in> set (bMapped (PerUserAppReconciler_SetupWithManager name)) \<and>
    f ws = [(Namespace (appMeta app), appName app)]"
  using assms by (simp add: PerUserAppReconciler_SetupWithManager_def mapWorkspaceToApp_def)

section \<open>Permission to watch\<close>

fun watchResource :: "watchKind \<Rightarrow> string \<times> string \<times> bool" where
  "watchResource WatchWorkspace = kindResource KWorkspace"
| "watchResource WatchPerUserApp = kindResource KPerUserApp"
| "watchResource WatchDeployment = kindResource KDeployment"
| "watchResource WatchService = kindResource KService"
| "watchResource WatchNetworkPolicy = kindResource KNetworkPolicy"
| "watchResource WatchServiceAccount = ([], ''serviceaccounts'', False)"
| "watchResource WatchRoleBinding = (''rbac.authorization.k8s.io'', ''rolebindings'', False)"

definition watched :: "builder \<Rightarrow> watchKind list" where
  "watched b = bFor b # bOwns b @ map fst (bMapped b)"

lemma watches_granted:
  "list_all (\<lambda>k. covered (verbOn (watchResource k) ''list'') \<and> covered (verbOn (watchResource k) ''watch''))
     (watched (snd (WorkspaceReconciler_SetupWithManager env adm name)) @ watched (PerUserAppReconciler_SetupWithManager name'))"
  using covered_reads covered_writes
  by (simp add: watched_def WorkspaceReconciler_SetupWithManager_def PerUserAppReconciler_SetupWithManager_def)

end
