(* ===== verification/Fixtures.thy ===== *)
theory Fixtures
  imports Render Router_Server Go_Time "HOL-Library.Monad_Syntax"
begin

text \<open>
  \<open>internal/testfixtures/fixtures.go\<close>: the app and the workspace the Go tests of every package start from. The
  comment on \<open>ValidApp\<close> promises that it passes \<open>ValidateApp\<close>; \<open>Dur\<close> panics on a duration it cannot parse, which is
  \<open>None\<close> here. Parsing the storage size is the library's and a parameter.
\<close>

definition Ptr :: "'a \<Rightarrow> 'a option" where
  "Ptr v = Some v"

definition Dur :: "string \<Rightarrow> duration option" where
  "Dur s = ParseDuration s"

definition fixtureTemplate :: workspaceTemplateSpec where
  "fixtureTemplate = \<lparr>wtImage = ''example/app:1'', wtImagePullPolicy = [], wtPort = 8000,
     wtEnv = [\<lparr>evName = ''HOME'', evValue = ''/home/user'', evFieldPath = None\<rparr>], wtEnvFrom = [], wtResources = [],
     wtUpstreamAuth = None,
     wtPodSecurityContext = \<lparr>FSGroup = Ptr 1000, RunAsNonRoot = Ptr True, RunAsUser = Ptr 1000, pscRest = ''runAsGroup: 1000''\<rparr>,
     wtSecurityContext = [], wtServiceAccountName = [], wtAutomountServiceAccountToken = Ptr False,
     wtVolumes = [], wtVolumeMounts = [], wtInitContainers = [], wtCommand = [], wtArgs = [],
     wtReadinessProbe = None, wtLivenessProbe = None, wtNodeSelector = [], wtTolerations = [],
     wtTerminationGracePeriodSeconds = None\<rparr>"

definition fixtureNetwork :: networkSpec where
  "fixtureNetwork = \<lparr>WorkspaceEgress = [\<lparr>egTo = [cidrPeer ''10.0.0.0/8''], egPorts = []\<rparr>],
     RouterIngress = \<lparr>FromTraefik = False, riFrom = [podPeer [(''app.kubernetes.io/name'', ''caller'')]]\<rparr>\<rparr>"

definition ValidApp :: "(string \<Rightarrow> quantity) \<Rightarrow> perUserApp option" where
  "ValidApp MustParse = do {
     idle \<leftarrow> Dur ''30m'';
     startup \<leftarrow> Dur ''180s'';
     backoff \<leftarrow> Dur ''30m'';
     reap \<leftarrow> Dur ''60s'';
     heartbeat \<leftarrow> Dur ''450s'';
     Some \<lparr>appMeta = zeroMeta\<lparr>Name := ''app'', Namespace := ''ns''\<rparr>,
       appSpec = \<lparr>spIdentity = \<lparr>idHeader = ''X-User-Id'', idMaxLength = 256\<rparr>,
         spCallerAuth = \<lparr>shSecretName = ''app-router'', shSecretKey = ''api-key'', shHeader = ''Authorization'',
           shScheme = ''Bearer''\<rparr>,
         spWorkspace = fixtureTemplate, spNetwork = fixtureNetwork,
         spStorage = \<lparr>stSize = MustParse ''10Gi'', stStorageClassName = ''ceph-block-static'', stMountPath = ''/home/user'',
           stSeed = None\<rparr>,
         spLimits = \<lparr>MaxWorkspaces = 200, MaxConcurrentStarts = 5\<rparr>,
         spLifecycle = \<lparr>IdleTimeout = idle, StartupTimeout = startup, BackoffMax = backoff, ReapInterval = reap,
           ConnectionHeartbeatInterval = heartbeat\<rparr>,
         spRouter = \<lparr>rtReplicas = 2, rtResources = [], rtImage = [], ColdStartHoldSeconds = 300, SharedPaths = []\<rparr>,
         spReclaim = None\<rparr>,
       appStatus = \<lparr>apObservedGeneration = 0, RouterReady = False, apConditions = []\<rparr>\<rparr>
   }"

definition ValidWorkspace :: workspace where
  "ValidWorkspace =
     (let k = UserKey ''ns'' ''app'' ''alice'' in
      \<lparr>wsMeta = zeroMeta\<lparr>Name := ChildName ''app'' k, Namespace := ''ns'',
         Labels := [(LabelApp, ''app''), (LabelUserKey, k)], Annotations := [(AnnUserDisplay, ''alice@corp.example'')]\<rparr>,
       wsSpec = \<lparr>wsAppRef = ''app'', wsUserKey = k\<rparr>, wsStatus = zeroStatus\<rparr>)"

text \<open>No duration of the fixture panics.\<close>

lemma fixture_durations:
  "Dur ''30m'' = Some (1800 * second)" "Dur ''180s'' = Some (180 * second)" "Dur ''60s'' = Some (60 * second)"
  "Dur ''450s'' = Some (450 * second)"
  by code_simp+

text \<open>The app is valid, without a warning; and its workspace is what the router creates, under the key of one identity and
  with the display name of another.\<close>

lemma fixture_app_valid: "\<exists>app. ValidApp MustParse = Some app \<and> ValidateApp app = Inr []"
  unfolding ValidApp_def fixture_durations
  by (simp add: fixtureTemplate_def fixtureNetwork_def Ptr_def) (code_simp | simp)

lemma fixture_workspace_created:
  assumes "cfgApp cfg = ''app''" and "cfgNamespace cfg = ''ns''"
  shows "ValidWorkspace = newWorkspace cfg ''alice@corp.example'' (UserKey ''ns'' ''app'' ''alice'')"
  using assms by (simp add: ValidWorkspace_def newWorkspace_def Let_def)

end
