(* ===== verification/Go_Memory.thy ===== *)
theory Go_Memory
  imports Main
begin

text \<open>
  Memory with aliasing, for code that copies before it mutates.

  Elsewhere in this development a Go struct is a value. That is right only as long as a copy taken with
  \<open>DeepCopy\<close> shares nothing with the object it was taken from, because the code mutates objects in place
  afterwards. Here pointers, slices and maps are references into a memory of cells (a list: the address is
  the index, allocation appends), struct values hold them inline, and a type says where they are.

  \<open>view\<close> reads a value with everything it refers to as a tree, \<open>reach\<close> is the set of cells it depends on,
  \<open>typed\<close> says that the value has the type and refers to allocated cells of the right kind. A copier is
  \<open>deepFor\<close> a type if it only allocates, its result reads like its argument, and its result reaches no cell
  that existed before. The combinators are the statements generated deep-copy code consists of; each of them
  preserves \<open>deepFor\<close> (\<open>deep_rules\<close>).
\<close>

named_theorems deep_rules "copiers that are deep"

section \<open>Values, cells, types\<close>

datatype gval = Scalar string | Struct "(string \<times> gval) list" | PtrRef "nat option" | Slice "nat option" | MapRef "nat option"

datatype cell = PtrCell gval | SliceCell "gval list" | MapCell "(string \<times> gval) list"

type_synonym memory = "cell list"

datatype gotype = TScalar | TStruct "(string \<times> gotype) list" | TPtr gotype | TSlice gotype | TMap gotype

datatype tree = TrScalar string | TrStruct "(string \<times> tree) list" | TrNil | TrPtr tree | TrSlice "tree list"
  | TrMap "(string \<times> tree) list"

fun ptrTarget :: "memory \<Rightarrow> nat \<Rightarrow> gval option" where
  "ptrTarget h a = (if a < length h then (case h ! a of PtrCell x \<Rightarrow> Some x | _ \<Rightarrow> None) else None)"

fun sliceElems :: "memory \<Rightarrow> nat \<Rightarrow> gval list option" where
  "sliceElems h a = (if a < length h then (case h ! a of SliceCell xs \<Rightarrow> Some xs | _ \<Rightarrow> None) else None)"

fun mapEntries :: "memory \<Rightarrow> nat \<Rightarrow> (string \<times> gval) list option" where
  "mapEntries h a = (if a < length h then (case h ! a of MapCell es \<Rightarrow> Some es | _ \<Rightarrow> None) else None)"

declare ptrTarget.simps [simp del] sliceElems.simps [simp del] mapEntries.simps [simp del]

fun typed :: "gotype \<Rightarrow> memory \<Rightarrow> gval \<Rightarrow> bool"
  and typedFields :: "(string \<times> gotype) list \<Rightarrow> memory \<Rightarrow> (string \<times> gval) list \<Rightarrow> bool" where
  "typed TScalar h v = (case v of Scalar _ \<Rightarrow> True | _ \<Rightarrow> False)"
| "typed (TStruct fts) h v = (case v of Struct fs \<Rightarrow> typedFields fts h fs | _ \<Rightarrow> False)"
| "typed (TPtr t) h v =
     (case v of
        PtrRef None \<Rightarrow> True
      | PtrRef (Some a) \<Rightarrow> (case ptrTarget h a of Some x \<Rightarrow> typed t h x | None \<Rightarrow> False)
      | _ \<Rightarrow> False)"
| "typed (TSlice t) h v =
     (case v of
        Slice None \<Rightarrow> True
      | Slice (Some a) \<Rightarrow> (case sliceElems h a of Some xs \<Rightarrow> list_all (typed t h) xs | None \<Rightarrow> False)
      | _ \<Rightarrow> False)"
| "typed (TMap t) h v =
     (case v of
        MapRef None \<Rightarrow> True
      | MapRef (Some a) \<Rightarrow> (case mapEntries h a of Some es \<Rightarrow> list_all (\<lambda>e. typed t h (snd e)) es | None \<Rightarrow> False)
      | _ \<Rightarrow> False)"
| "typedFields [] h fs = (fs = [])"
| "typedFields ((f, t) # fts) h fs =
     (case fs of (g, x) # fs' \<Rightarrow> g = f \<and> typed t h x \<and> typedFields fts h fs' | [] \<Rightarrow> False)"

fun view :: "gotype \<Rightarrow> memory \<Rightarrow> gval \<Rightarrow> tree"
  and viewFields :: "(string \<times> gotype) list \<Rightarrow> memory \<Rightarrow> (string \<times> gval) list \<Rightarrow> (string \<times> tree) list" where
  "view TScalar h v = (case v of Scalar s \<Rightarrow> TrScalar s | _ \<Rightarrow> TrNil)"
| "view (TStruct fts) h v = (case v of Struct fs \<Rightarrow> TrStruct (viewFields fts h fs) | _ \<Rightarrow> TrNil)"
| "view (TPtr t) h v =
     (case v of PtrRef (Some a) \<Rightarrow> (case ptrTarget h a of Some x \<Rightarrow> TrPtr (view t h x) | None \<Rightarrow> TrNil) | _ \<Rightarrow> TrNil)"
| "view (TSlice t) h v =
     (case v of Slice (Some a) \<Rightarrow> (case sliceElems h a of Some xs \<Rightarrow> TrSlice (map (view t h) xs) | None \<Rightarrow> TrNil) | _ \<Rightarrow> TrNil)"
| "view (TMap t) h v =
     (case v of
        MapRef (Some a) \<Rightarrow> (case mapEntries h a of Some es \<Rightarrow> TrMap (map (\<lambda>e. (fst e, view t h (snd e))) es) | None \<Rightarrow> TrNil)
      | _ \<Rightarrow> TrNil)"
| "viewFields [] h fs = []"
| "viewFields ((f, t) # fts) h fs =
     (case fs of (g, x) # fs' \<Rightarrow> (f, view t h x) # viewFields fts h fs' | [] \<Rightarrow> [])"

fun reach :: "gotype \<Rightarrow> memory \<Rightarrow> gval \<Rightarrow> nat set"
  and reachFields :: "(string \<times> gotype) list \<Rightarrow> memory \<Rightarrow> (string \<times> gval) list \<Rightarrow> nat set" where
  "reach TScalar h v = {}"
| "reach (TStruct fts) h v = (case v of Struct fs \<Rightarrow> reachFields fts h fs | _ \<Rightarrow> {})"
| "reach (TPtr t) h v =
     (case v of PtrRef (Some a) \<Rightarrow> insert a (case ptrTarget h a of Some x \<Rightarrow> reach t h x | None \<Rightarrow> {}) | _ \<Rightarrow> {})"
| "reach (TSlice t) h v =
     (case v of
        Slice (Some a) \<Rightarrow> insert a (case sliceElems h a of Some xs \<Rightarrow> \<Union>x\<in>set xs. reach t h x | None \<Rightarrow> {})
      | _ \<Rightarrow> {})"
| "reach (TMap t) h v =
     (case v of
        MapRef (Some a) \<Rightarrow> insert a (case mapEntries h a of Some es \<Rightarrow> \<Union>e\<in>set es. reach t h (snd e) | None \<Rightarrow> {})
      | _ \<Rightarrow> {})"
| "reachFields [] h fs = {}"
| "reachFields ((f, t) # fts) h fs =
     (case fs of (g, x) # fs' \<Rightarrow> reach t h x \<union> reachFields fts h fs' | [] \<Rightarrow> {})"

section \<open>What a value depends on\<close>

text \<open>Structural induction over types and the fields of structs.\<close>

lemma typed_induct [case_names TScalar TStruct TPtr TSlice TMap Nil Cons]:
  assumes "P TScalar" and "\<And>fts. Q fts \<Longrightarrow> P (TStruct fts)" and "\<And>t. P t \<Longrightarrow> P (TPtr t)"
    and "\<And>t. P t \<Longrightarrow> P (TSlice t)" and "\<And>t. P t \<Longrightarrow> P (TMap t)"
    and "Q []" and "\<And>f t fts. P t \<Longrightarrow> Q fts \<Longrightarrow> Q ((f, t) # fts)"
  shows "P t" and "Q fts"
proof -
  have P: "P t" for t
  proof (induction t)
    case (TStruct fts)
    have "Q gts" if "set gts \<subseteq> set fts" for gts
      using that
    proof (induction gts)
      case (Cons g gts)
      obtain f u where g: "g = (f, u)" by (cases g)
      then have "P u" using Cons.prems TStruct [of g u] by auto
      with Cons g show ?case using assms(7) by simp
    qed (rule assms(6))
    then show ?case using assms(2) by simp
  qed (use assms in blast)+
  show "P t" by (rule P)
  show "Q fts" by (induction fts) (auto intro: assms(6,7) P)
qed

text \<open>The two memories agree on a set of allocated cells.\<close>

definition agree :: "nat set \<Rightarrow> memory \<Rightarrow> memory \<Rightarrow> bool" where
  "agree A h h' \<longleftrightarrow> (\<forall>a\<in>A. a < length h \<longrightarrow> a < length h' \<and> h' ! a = h ! a)"

lemma agree_subset: "agree A h h' \<Longrightarrow> B \<subseteq> A \<Longrightarrow> agree B h h'"
  by (auto simp: agree_def)

lemma agree_append: "agree A h (h @ zs)"
  by (auto simp: agree_def nth_append)

lemma agree_targets:
  assumes "agree A h h'" and "a \<in> A"
  shows "ptrTarget h a = Some x \<Longrightarrow> ptrTarget h' a = Some x"
    and "sliceElems h a = Some xs \<Longrightarrow> sliceElems h' a = Some xs"
    and "mapEntries h a = Some es \<Longrightarrow> mapEntries h' a = Some es"
  using assms by (auto simp: agree_def ptrTarget.simps sliceElems.simps mapEntries.simps split: if_splits)

text \<open>A well-formed value reads the same in every memory that agrees on the cells it reaches.\<close>

lemma frame:
  "typed t h v \<Longrightarrow> agree (reach t h v) h h' \<Longrightarrow> typed t h' v \<and> view t h' v = view t h v \<and> reach t h' v = reach t h v"
  "typedFields fts h fs \<Longrightarrow> agree (reachFields fts h fs) h h' \<Longrightarrow>
     typedFields fts h' fs \<and> viewFields fts h' fs = viewFields fts h fs \<and> reachFields fts h' fs = reachFields fts h fs"
proof (induction t and fts arbitrary: v and fs rule: typed_induct)
  case (TPtr t)
  show ?case
  proof (cases "\<exists>a. v = PtrRef (Some a)")
    case True
    then obtain a x where v: "v = PtrRef (Some a)" and x: "ptrTarget h a = Some x" "typed t h x"
      using TPtr.prems by (auto split: option.splits)
    with TPtr.prems have ag: "agree (insert a (reach t h x)) h h'" by simp
    from TPtr.IH [OF x(2) agree_subset [OF ag]] agree_targets(1) [OF ag _ x(1)] x v show ?thesis by auto
  qed (use TPtr.prems in \<open>auto split: gval.splits option.splits\<close>)
next
  case (TSlice t)
  show ?case
  proof (cases "\<exists>a. v = Slice (Some a)")
    case True
    then obtain a xs where v: "v = Slice (Some a)" and xs: "sliceElems h a = Some xs" "list_all (typed t h) xs"
      using TSlice.prems by (auto split: option.splits)
    with TSlice.prems have ag: "agree (insert a (\<Union>x\<in>set xs. reach t h x)) h h'" by simp
    have "typed t h' x \<and> view t h' x = view t h x \<and> reach t h' x = reach t h x" if "x \<in> set xs" for x
      using that xs(2) by (intro TSlice.IH agree_subset [OF ag]) (auto simp: list_all_iff)
    with agree_targets(2) [OF ag _ xs(1)] xs v show ?thesis by (auto simp: list_all_iff)
  qed (use TSlice.prems in \<open>auto split: gval.splits option.splits\<close>)
next
  case (TMap t)
  show ?case
  proof (cases "\<exists>a. v = MapRef (Some a)")
    case True
    then obtain a es where v: "v = MapRef (Some a)"
      and es: "mapEntries h a = Some es" "list_all (\<lambda>e. typed t h (snd e)) es"
      using TMap.prems by (auto split: option.splits)
    with TMap.prems have ag: "agree (insert a (\<Union>e\<in>set es. reach t h (snd e))) h h'" by simp
    have "typed t h' (snd e) \<and> view t h' (snd e) = view t h (snd e) \<and> reach t h' (snd e) = reach t h (snd e)"
      if "e \<in> set es" for e
      using that es(2) by (intro TMap.IH agree_subset [OF ag]) (auto simp: list_all_iff)
    with agree_targets(3) [OF ag _ es(1)] es v show ?thesis by (auto simp: list_all_iff)
  qed (use TMap.prems in \<open>auto split: gval.splits option.splits\<close>)
next
  case (Cons f t fts)
  then obtain x fs' where fs: "fs = (f, x) # fs'" and x: "typed t h x" "typedFields fts h fs'"
    by (auto split: list.splits)
  with Cons.prems have ag: "agree (reach t h x \<union> reachFields fts h fs') h h'" by simp
  from Cons.IH(1) [OF x(1) agree_subset [OF ag]] Cons.IH(2) [OF x(2) agree_subset [OF ag]] fs x
  show ?case by auto
qed (auto split: gval.splits)

lemmas frame_append = frame(1) [OF _ agree_append]

lemma reach_allocated:
  "typed t h v \<Longrightarrow> reach t h v \<subseteq> {..<length h}"
  "typedFields fts h fs \<Longrightarrow> reachFields fts h fs \<subseteq> {..<length h}"
proof (induction t and fts arbitrary: v and fs rule: typed_induct)
  case (TPtr t)
  then show ?case by (auto simp: ptrTarget.simps split: gval.splits option.splits if_splits dest!: TPtr.IH)
next
  case (TSlice t)
  then show ?case by (fastforce simp: sliceElems.simps list_all_iff split: gval.splits option.splits if_splits dest!: TSlice.IH)
next
  case (TMap t)
  then show ?case by (fastforce simp: mapEntries.simps list_all_iff split: gval.splits option.splits if_splits dest!: TMap.IH)
next
  case (Cons f t fts)
  then show ?case by (auto split: list.splits prod.splits)
qed (auto split: gval.splits)

section \<open>Copiers\<close>

type_synonym copier = "gval \<Rightarrow> memory \<Rightarrow> gval \<times> memory"

definition deepFor :: "gotype \<Rightarrow> copier \<Rightarrow> bool" where
  "deepFor t c \<longleftrightarrow> (\<forall>h v. typed t h v \<longrightarrow>
     (\<exists>v' zs. c v h = (v', h @ zs) \<and> typed t (h @ zs) v' \<and> view t (h @ zs) v' = view t h v \<and>
        reach t (h @ zs) v' \<subseteq> {length h..}))"

lemma deepForI:
  assumes "\<And>h v. typed t h v \<Longrightarrow> \<exists>v' zs. c v h = (v', h @ zs) \<and> typed t (h @ zs) v' \<and>
      view t (h @ zs) v' = view t h v \<and> reach t (h @ zs) v' \<subseteq> {length h..}"
  shows "deepFor t c"
  using assms by (simp add: deepFor_def)

lemma deepForE:
  assumes "deepFor t c" and "typed t h v"
  obtains v' zs where "c v h = (v', h @ zs)" "typed t (h @ zs) v'" "view t (h @ zs) v' = view t h v"
    "reach t (h @ zs) v' \<subseteq> {length h..}"
  using assms unfolding deepFor_def by blast

text \<open>\<open>*out = *in\<close> for a type without references, and the types this is deep for.\<close>

definition assign :: copier where
  "assign v h = (v, h)"

fun flat :: "gotype \<Rightarrow> bool" where
  "flat TScalar = True"
| "flat (TStruct fts) = list_all (\<lambda>ft. flat (snd ft)) fts"
| "flat _ = False"

lemma flat_reach: "flat t \<Longrightarrow> reach t h v = {}" "list_all (\<lambda>ft. flat (snd ft)) fts \<Longrightarrow> reachFields fts h fs = {}"
  by (induction t and fts arbitrary: v and fs rule: typed_induct) (auto split: gval.splits list.splits)

lemma deep_assign [deep_rules]: "flat t \<Longrightarrow> deepFor t assign"
  by (rule deepForI) (simp add: assign_def flat_reach exI [of _ "[]"])

text \<open>\<open>new(T)\<close> with the copy of the target, under a test for nil; the same for the elements of a slice and of a
  map.\<close>

definition copyPtr :: "copier \<Rightarrow> copier" where
  "copyPtr c v h =
     (case v of
        PtrRef (Some a) \<Rightarrow>
          (case ptrTarget h a of
             Some x \<Rightarrow> let (y, h1) = c x h in (PtrRef (Some (length h1)), h1 @ [PtrCell y])
           | None \<Rightarrow> (v, h))
      | _ \<Rightarrow> (v, h))"

fun copyElems :: "copier \<Rightarrow> gval list \<Rightarrow> memory \<Rightarrow> gval list \<times> memory" where
  "copyElems c [] h = ([], h)"
| "copyElems c (x # xs) h = (let (y, h1) = c x h; (ys, h2) = copyElems c xs h1 in (y # ys, h2))"

definition copySlice :: "copier \<Rightarrow> copier" where
  "copySlice c v h =
     (case v of
        Slice (Some a) \<Rightarrow>
          (case sliceElems h a of
             Some xs \<Rightarrow> let (ys, h1) = copyElems c xs h in (Slice (Some (length h1)), h1 @ [SliceCell ys])
           | None \<Rightarrow> (v, h))
      | _ \<Rightarrow> (v, h))"

definition copyMap :: "copier \<Rightarrow> copier" where
  "copyMap c v h =
     (case v of
        MapRef (Some a) \<Rightarrow>
          (case mapEntries h a of
             Some es \<Rightarrow>
               let (ys, h1) = copyElems c (map snd es) h in
               (MapRef (Some (length h1)), h1 @ [MapCell (zip (map fst es) ys)])
           | None \<Rightarrow> (v, h))
      | _ \<Rightarrow> (v, h))"

text \<open>\<open>*val.DeepCopy()\<close>: the copy is made in a cell of its own and read back.\<close>

definition copyVia :: "copier \<Rightarrow> copier" where
  "copyVia c v h = (let (y, h1) = c v h in (y, h1 @ [PtrCell y]))"

lemma deep_via [deep_rules]: "deepFor t c \<Longrightarrow> deepFor t (copyVia c)"
proof (rule deepForI)
  fix h v
  assume "deepFor t c" and "typed t h v"
  then obtain v' zs where c: "c v h = (v', h @ zs)" and r: "typed t (h @ zs) v'" "view t (h @ zs) v' = view t h v"
    "reach t (h @ zs) v' \<subseteq> {length h..}" by (rule deepForE)
  from frame_append [OF r(1), of "[PtrCell v']"] c r
  show "\<exists>v' zs. copyVia c v h = (v', h @ zs) \<and> typed t (h @ zs) v' \<and> view t (h @ zs) v' = view t h v \<and>
      reach t (h @ zs) v' \<subseteq> {length h..}"
    by (intro exI [of _ v'] exI [of _ "zs @ [PtrCell v']"]) (simp add: copyVia_def)
qed

lemma target_last [simp]:
  "ptrTarget (h @ zs @ [PtrCell x]) (length h + length zs) = Some x"
  "sliceElems (h @ zs @ [SliceCell xs]) (length h + length zs) = Some xs"
  "mapEntries (h @ zs @ [MapCell es]) (length h + length zs) = Some es"
  by (simp_all add: ptrTarget.simps sliceElems.simps mapEntries.simps nth_append)

lemma deep_ptr [deep_rules]:
  assumes "deepFor t c"
  shows "deepFor (TPtr t) (copyPtr c)"
proof (rule deepForI)
  fix h v
  assume v: "typed (TPtr t) h v"
  show "\<exists>v' zs. copyPtr c v h = (v', h @ zs) \<and> typed (TPtr t) (h @ zs) v' \<and> view (TPtr t) (h @ zs) v' = view (TPtr t) h v \<and>
      reach (TPtr t) (h @ zs) v' \<subseteq> {length h..}"
  proof (cases "v = PtrRef None")
    case True
    then show ?thesis by (simp add: copyPtr_def exI [of _ "[]"])
  next
    case False
    with v obtain a x where a: "v = PtrRef (Some a)" "ptrTarget h a = Some x" and x: "typed t h x"
      by (auto split: gval.splits option.splits)
    from deepForE [OF assms x] obtain y zs where c: "c x h = (y, h @ zs)" and r: "typed t (h @ zs) y"
      "view t (h @ zs) y = view t h x" "reach t (h @ zs) y \<subseteq> {length h..}" by blast
    from frame_append [OF r(1), of "[PtrCell y]"] a c r show ?thesis
      by (intro exI [of _ "PtrRef (Some (length h + length zs))"] exI [of _ "zs @ [PtrCell y]"]) (simp add: copyPtr_def)
  qed
qed

lemma deep_elems:
  assumes "deepFor t c" and "list_all (typed t h) xs"
  shows "\<exists>ys zs. copyElems c xs h = (ys, h @ zs) \<and> list_all (typed t (h @ zs)) ys \<and> map (view t (h @ zs)) ys = map (view t h) xs \<and>
    (\<Union>y\<in>set ys. reach t (h @ zs) y) \<subseteq> {length h..}"
  using assms(2)
proof (induction xs arbitrary: h)
  case Nil
  then show ?case by (simp add: exI [of _ "[]"])
next
  case (Cons x xs)
  from deepForE [OF assms(1), of h x] Cons.prems obtain y zs where c: "c x h = (y, h @ zs)"
    and y: "typed t (h @ zs) y" "view t (h @ zs) y = view t h x" "reach t (h @ zs) y \<subseteq> {length h..}" by auto
  have old: "typed t (h @ zs) u \<and> view t (h @ zs) u = view t h u" if "u \<in> set xs" for u
    using frame_append [of t h u zs] Cons.prems that by (auto simp: list_all_iff)
  then have "list_all (typed t (h @ zs)) xs" by (simp add: list_all_iff)
  from Cons.IH [OF this] obtain ys zs' where ys: "copyElems c xs (h @ zs) = (ys, (h @ zs) @ zs')"
    "list_all (typed t ((h @ zs) @ zs')) ys" "map (view t ((h @ zs) @ zs')) ys = map (view t (h @ zs)) xs"
    "(\<Union>u\<in>set ys. reach t ((h @ zs) @ zs') u) \<subseteq> {length (h @ zs)..}" by blast
  from frame_append [OF y(1), of zs'] y c ys old show ?case
    by (intro exI [of _ "y # ys"] exI [of _ "zs @ zs'"]) (fastforce simp: split_beta)
qed

lemma deep_slice [deep_rules]:
  assumes "deepFor t c"
  shows "deepFor (TSlice t) (copySlice c)"
proof (rule deepForI)
  fix h v
  assume v: "typed (TSlice t) h v"
  show "\<exists>v' zs. copySlice c v h = (v', h @ zs) \<and> typed (TSlice t) (h @ zs) v' \<and>
      view (TSlice t) (h @ zs) v' = view (TSlice t) h v \<and> reach (TSlice t) (h @ zs) v' \<subseteq> {length h..}"
  proof (cases "v = Slice None")
    case True
    then show ?thesis by (simp add: copySlice_def exI [of _ "[]"])
  next
    case False
    with v obtain a xs where a: "v = Slice (Some a)" "sliceElems h a = Some xs" and xs: "list_all (typed t h) xs"
      by (auto split: gval.splits option.splits)
    from deep_elems [OF assms xs] obtain ys zs where c: "copyElems c xs h = (ys, h @ zs)"
      and r: "list_all (typed t (h @ zs)) ys" "map (view t (h @ zs)) ys = map (view t h) xs"
        "(\<Union>y\<in>set ys. reach t (h @ zs) y) \<subseteq> {length h..}" by blast
    have "typed t (h @ zs @ [SliceCell ys]) y \<and> view t (h @ zs @ [SliceCell ys]) y = view t (h @ zs) y \<and>
        reach t (h @ zs @ [SliceCell ys]) y = reach t (h @ zs) y" if "y \<in> set ys" for y
      using frame_append [of t "h @ zs" y "[SliceCell ys]"] r(1) that by (auto simp: list_all_iff)
    with a c r show ?thesis
      by (intro exI [of _ "Slice (Some (length h + length zs))"] exI [of _ "zs @ [SliceCell ys]"])
        (auto simp: copySlice_def list_all_iff simp flip: r(2) cong: map_cong)
  qed
qed

lemma deep_map [deep_rules]:
  assumes "deepFor t c"
  shows "deepFor (TMap t) (copyMap c)"
proof (rule deepForI)
  fix h v
  assume v: "typed (TMap t) h v"
  have pairs: "map (\<lambda>e. (fst e, f (snd e))) es = zip (map fst es) (map f (map snd es))" for f :: "gval \<Rightarrow> tree" and es :: "(string \<times> gval) list"
    by (induction es) auto
  show "\<exists>v' zs. copyMap c v h = (v', h @ zs) \<and> typed (TMap t) (h @ zs) v' \<and>
      view (TMap t) (h @ zs) v' = view (TMap t) h v \<and> reach (TMap t) (h @ zs) v' \<subseteq> {length h..}"
  proof (cases "v = MapRef None")
    case True
    then show ?thesis by (simp add: copyMap_def exI [of _ "[]"])
  next
    case False
    with v obtain a es where a: "v = MapRef (Some a)" "mapEntries h a = Some es" and es: "list_all (typed t h) (map snd es)"
      by (auto simp: list_all_iff split: gval.splits option.splits)
    from deep_elems [OF assms es] obtain ys zs where c: "copyElems c (map snd es) h = (ys, h @ zs)"
      and r: "list_all (typed t (h @ zs)) ys" "map (view t (h @ zs)) ys = map (view t h) (map snd es)"
        "(\<Union>y\<in>set ys. reach t (h @ zs) y) \<subseteq> {length h..}" by blast
    let ?cell = "MapCell (zip (map fst es) ys)"
    have len: "length ys = length es" using arg_cong [OF r(2), of length] by simp
    have up: "typed t (h @ zs @ [?cell]) y \<and> view t (h @ zs @ [?cell]) y = view t (h @ zs) y \<and>
        reach t (h @ zs @ [?cell]) y = reach t (h @ zs) y" if "y \<in> set ys" for y
      using frame_append [of t "h @ zs" y "[?cell]"] r(1) that by (auto simp: list_all_iff)
    then have views: "map (view t (h @ zs @ [?cell])) ys = map (view t h) (map snd es)"
      unfolding r(2) [symmetric] by simp
    have "view (TMap t) (h @ zs @ [?cell]) (MapRef (Some (length h + length zs))) = view (TMap t) h v"
      using a len views by (simp add: pairs)
    moreover have "snd e \<in> set ys" if "e \<in> set (zip (map fst es) ys)" for e
      using that set_zip_rightD [of "fst e" "snd e" "map fst es" ys] by simp
    ultimately show ?thesis using a c r(3) up
      by (intro exI [of _ "MapRef (Some (length h + length zs))"] exI [of _ "zs @ [?cell]"])
        (auto simp: copyMap_def list_all_iff)
  qed
qed

section \<open>Structs\<close>

text \<open>A struct is copied whole, references included, and then statement by statement: each sets a field of the
  copy from the field of the original.\<close>

definition fieldOf :: "string \<Rightarrow> gval \<Rightarrow> gval option" where
  "fieldOf f v = (case v of Struct fs \<Rightarrow> map_of fs f | _ \<Rightarrow> None)"

definition setField :: "string \<Rightarrow> gval \<Rightarrow> gval \<Rightarrow> gval" where
  "setField f x v = (case v of Struct fs \<Rightarrow> Struct (map (\<lambda>g. if fst g = f then (f, x) else g) fs) | _ \<Rightarrow> v)"

fun runFields :: "(string \<times> copier) list \<Rightarrow> gval \<Rightarrow> gval \<Rightarrow> memory \<Rightarrow> gval \<times> memory" where
  "runFields [] inp outp h = (outp, h)"
| "runFields ((f, c) # cs) inp outp h =
     (case fieldOf f inp of
        None \<Rightarrow> runFields cs inp outp h
      | Some x \<Rightarrow> let (y, h1) = c x h in runFields cs inp (setField f y outp) h1)"

definition copyFields :: "(string \<times> copier) list \<Rightarrow> copier" where
  "copyFields cs v h = runFields cs v v h"

text \<open>Every field without a copier of its own is flat.\<close>

definition covers :: "(string \<times> gotype) list \<Rightarrow> (string \<times> copier) list \<Rightarrow> bool" where
  "covers fts cs \<longleftrightarrow> distinct (map fst fts) \<and> list_all (\<lambda>fc. fst fc \<in> set (map fst fts)) cs \<and>
     list_all (\<lambda>ft. list_all (\<lambda>fc. fst fc = fst ft \<longrightarrow> deepFor (snd ft) (snd fc)) cs \<and>
       (fst ft \<in> set (map fst cs) \<or> flat (snd ft))) fts"

lemma typedFields_nth:
  "typedFields fts h fs \<longleftrightarrow> length fs = length fts \<and>
     (\<forall>i<length fts. fst (fs ! i) = fst (fts ! i) \<and> typed (snd (fts ! i)) h (snd (fs ! i)))"
proof (induction fts arbitrary: fs)
  case (Cons ft fts)
  then show ?case by (cases ft; cases fs) (auto simp: All_less_Suc2)
qed simp

lemma viewFields_nth:
  "length fs = length fts \<Longrightarrow> viewFields fts h fs = map (\<lambda>i. (fst (fts ! i), view (snd (fts ! i)) h (snd (fs ! i)))) [0..<length fts]"
proof (induction fts arbitrary: fs)
  case (Cons ft fts)
  then show ?case by (cases ft; cases fs) (auto simp: map_upt_Suc simp del: upt_Suc)
qed simp

lemma reachFields_nth:
  "length fs = length fts \<Longrightarrow> reachFields fts h fs = (\<Union>i<length fts. reach (snd (fts ! i)) h (snd (fs ! i)))"
proof (induction fts arbitrary: fs)
  case (Cons ft fts)
  have "(\<Union>i<Suc n. A i) = A 0 \<union> (\<Union>i<n. A (Suc i))" for n and A :: "nat \<Rightarrow> nat set"
    by (auto simp: lessThan_Suc_eq_insert_0)
  with Cons show ?case by (cases ft; cases fs) auto
qed simp

text \<open>The state between two statements: the fields in \<open>D\<close> are copied.\<close>

definition copied :: "(string \<times> gotype) list \<Rightarrow> memory \<Rightarrow> (string \<times> gval) list \<Rightarrow> string set \<Rightarrow> (string \<times> gval) list \<Rightarrow> memory \<Rightarrow> bool" where
  "copied fts h0 fs D gs h \<longleftrightarrow> (\<exists>zs. h = h0 @ zs) \<and> length gs = length fts \<and>
     (\<forall>i<length fts. fst (gs ! i) = fst (fts ! i) \<and> typed (snd (fts ! i)) h (snd (gs ! i)) \<and>
        view (snd (fts ! i)) h (snd (gs ! i)) = view (snd (fts ! i)) h0 (snd (fs ! i)) \<and>
        (fst (fts ! i) \<in> D \<longrightarrow> reach (snd (fts ! i)) h (snd (gs ! i)) \<subseteq> {length h0..}))"

lemma copied_step:
  assumes "typedFields fts h0 fs" and "distinct (map fst fts)" and "i < length fts" and "deepFor (snd (fts ! i)) c"
    and "copied fts h0 fs D gs h"
  shows "\<exists>x y h1 gs'. fieldOf (fst (fts ! i)) (Struct fs) = Some x \<and> c x h = (y, h1) \<and>
    setField (fst (fts ! i)) y (Struct gs) = Struct gs' \<and> copied fts h0 fs (insert (fst (fts ! i)) D) gs' h1"
proof -
  let ?f = "fst (fts ! i)" and ?t = "snd (fts ! i)"
  obtain zs where h: "h = h0 @ zs" using assms(5) by (auto simp: copied_def)
  have fs: "length fs = length fts" "\<And>j. j < length fts \<Longrightarrow> fst (fs ! j) = fst (fts ! j)"
    "\<And>j. j < length fts \<Longrightarrow> typed (snd (fts ! j)) h0 (snd (fs ! j))"
    using assms(1) by (simp_all add: typedFields_nth)
  have "map fst fs = map fst fts" using fs(1,2) by (simp add: list_eq_iff_nth_eq)
  then have x: "fieldOf ?f (Struct fs) = Some (snd (fs ! i))"
    using assms(2,3) fs by (simp add: fieldOf_def map_of_eq_Some_iff in_set_conv_nth) (metis prod.collapse)
  from frame_append [OF fs(3) [OF assms(3)], of zs] have "typed ?t h (snd (fs ! i))"
    and vx: "view ?t h (snd (fs ! i)) = view ?t h0 (snd (fs ! i))" by (simp_all add: h)
  from deepForE [OF assms(4) this(1)] obtain y zs' where c: "c (snd (fs ! i)) h = (y, h @ zs')"
    and y: "typed ?t (h @ zs') y" "view ?t (h @ zs') y = view ?t h (snd (fs ! i))" "reach ?t (h @ zs') y \<subseteq> {length h..}"
    by blast
  let ?gs = "map (\<lambda>g. if fst g = ?f then (?f, y) else g) gs"
  have "copied fts h0 fs (insert ?f D) ?gs (h @ zs')"
    unfolding copied_def
  proof (intro conjI allI impI)
    fix j
    assume j: "j < length fts"
    have gs: "length gs = length fts" "fst (gs ! j) = fst (fts ! j)" "typed (snd (fts ! j)) h (snd (gs ! j))"
      "view (snd (fts ! j)) h (snd (gs ! j)) = view (snd (fts ! j)) h0 (snd (fs ! j))"
      "fst (fts ! j) \<in> D \<Longrightarrow> reach (snd (fts ! j)) h (snd (gs ! j)) \<subseteq> {length h0..}"
      using assms(5) j by (simp_all add: copied_def)
    have same: "fst (fts ! j) = ?f \<longleftrightarrow> j = i"
      using assms(2,3) j nth_eq_iff_index_eq [of "map fst fts" j i] by simp
    note up = frame_append [OF gs(3), of zs']
    show "fst (?gs ! j) = fst (fts ! j)" using gs j by simp
    show "typed (snd (fts ! j)) (h @ zs') (snd (?gs ! j))" using gs j same up y(1) by auto
    show "view (snd (fts ! j)) (h @ zs') (snd (?gs ! j)) = view (snd (fts ! j)) h0 (snd (fs ! j))"
      using gs j same up y(2) vx by auto
    show "reach (snd (fts ! j)) (h @ zs') (snd (?gs ! j)) \<subseteq> {length h0..}" if "fst (fts ! j) \<in> insert ?f D"
      using gs j same up y(3) that h by fastforce
  qed (use assms(5) h in \<open>auto simp: copied_def\<close>)
  with x c show ?thesis by (simp add: setField_def)
qed

lemma runFields_copied:
  assumes "typedFields fts h0 fs" and "covers fts cs'" and "set cs \<subseteq> set cs'" and "copied fts h0 fs D gs h"
  shows "\<exists>gs' h'. runFields cs (Struct fs) (Struct gs) h = (Struct gs', h') \<and> copied fts h0 fs (D \<union> fst ` set cs) gs' h'"
  using assms(3,4)
proof (induction cs arbitrary: D gs h)
  case (Cons fc cs)
  obtain f c where fc: "fc = (f, c)" by (cases fc)
  then have mem: "(f, c) \<in> set cs'" using Cons.prems(1) by simp
  then have "f \<in> set (map fst fts)" using assms(2) unfolding covers_def list_all_iff by (metis fst_conv)
  then obtain i where i: "i < length fts" "f = fst (fts ! i)" by (auto simp: in_set_conv_nth)
  have deep: "deepFor (snd (fts ! i)) c"
    using assms(2) mem nth_mem [OF i(1)] unfolding i(2) covers_def list_all_iff by (metis fst_conv snd_conv)
  have dist: "distinct (map fst fts)" using assms(2) by (simp add: covers_def)
  from copied_step [OF assms(1) dist i(1) deep Cons.prems(2)] obtain x y h1 gs1 where
    step: "fieldOf f (Struct fs) = Some x" "c x h = (y, h1)" "setField f y (Struct gs) = Struct gs1"
      "copied fts h0 fs (insert f D) gs1 h1" using i(2) by blast
  from Cons.IH [OF _ step(4)] Cons.prems(1) step fc show ?case by auto
qed auto

lemma deep_struct [deep_rules]:
  assumes "covers fts cs"
  shows "deepFor (TStruct fts) (copyFields cs)"
proof (rule deepForI)
  fix h v
  assume "typed (TStruct fts) h v"
  then obtain fs where v: "v = Struct fs" and fs: "typedFields fts h fs" by (auto split: gval.splits)
  have "copied fts h fs {} fs h" using fs by (auto simp: copied_def typedFields_nth)
  from runFields_copied [OF fs assms subset_refl this] obtain gs h' where
    run: "runFields cs (Struct fs) (Struct fs) h = (Struct gs, h')" and gs: "copied fts h fs (fst ` set cs) gs h'" by auto
  obtain zs where h': "h' = h @ zs" using gs by (auto simp: copied_def)
  have len: "length gs = length fts" "length fs = length fts" using gs fs by (simp_all add: copied_def typedFields_nth)
  have "reach (snd (fts ! i)) h' (snd (gs ! i)) \<subseteq> {length h..}" if "i < length fts" for i
  proof (cases "fst (fts ! i) \<in> fst ` set cs")
    case True
    then show ?thesis using gs that by (simp add: copied_def)
  next
    case False
    then have "flat (snd (fts ! i))" using assms that by (auto simp: covers_def list_all_iff)
    then show ?thesis by (simp add: flat_reach)
  qed
  then have "reachFields fts h' gs \<subseteq> {length h..}" by (auto simp: reachFields_nth [OF len(1)])
  moreover have "typedFields fts h' gs" "viewFields fts h' gs = viewFields fts h fs"
    using gs by (simp_all add: copied_def typedFields_nth viewFields_nth len)
  ultimately show "\<exists>v' zs. copyFields cs v h = (v', h @ zs) \<and> typed (TStruct fts) (h @ zs) v' \<and>
      view (TStruct fts) (h @ zs) v' = view (TStruct fts) h v \<and> reach (TStruct fts) (h @ zs) v' \<subseteq> {length h..}"
    using run by (intro exI [of _ "Struct gs"] exI [of _ zs]) (simp add: copyFields_def v h')
qed

section \<open>A reference copier\<close>

text \<open>The deep copy a type describes.\<close>

fun copyOf :: "gotype \<Rightarrow> copier" and copyStruct :: "(string \<times> gotype) list \<Rightarrow> (string \<times> copier) list" where
  "copyOf TScalar = assign"
| "copyOf (TStruct fts) = copyFields (copyStruct fts)"
| "copyOf (TPtr t) = copyPtr (copyOf t)"
| "copyOf (TSlice t) = copySlice (copyOf t)"
| "copyOf (TMap t) = copyMap (copyOf t)"
| "copyStruct [] = []"
| "copyStruct ((f, t) # fts) = (f, copyOf t) # copyStruct fts"

fun fieldsDistinct :: "gotype \<Rightarrow> bool" where
  "fieldsDistinct TScalar = True"
| "fieldsDistinct (TStruct fts) = (distinct (map fst fts) \<and> list_all (\<lambda>ft. fieldsDistinct (snd ft)) fts)"
| "fieldsDistinct (TPtr t) = fieldsDistinct t"
| "fieldsDistinct (TSlice t) = fieldsDistinct t"
| "fieldsDistinct (TMap t) = fieldsDistinct t"

lemma copyStruct_map: "copyStruct fts = map (\<lambda>ft. (fst ft, copyOf (snd ft))) fts"
  by (induction fts) auto

lemma deep_copyOf: "fieldsDistinct t \<Longrightarrow> deepFor t (copyOf t)"
proof (induction t)
  case (TStruct fts)
  have one: "gt = ft" if "ft \<in> set fts" "gt \<in> set fts" "fst gt = fst ft" for ft gt
    using that TStruct.prems by (auto simp: distinct_map inj_on_def)
  have own: "deepFor (snd ft) (copyOf (snd gt))" if "ft \<in> set fts" "gt \<in> set fts" "fst gt = fst ft" for ft gt
    using one [OF that] TStruct.IH [of ft "snd ft"] TStruct.prems that(1) by (cases ft) (auto simp: list_all_iff)
  have "covers fts (copyStruct fts)"
    unfolding covers_def copyStruct_map list_all_iff
  proof (intro conjI ballI impI)
    fix ft fc
    assume "ft \<in> set fts" and "fc \<in> set (map (\<lambda>ft. (fst ft, copyOf (snd ft))) fts)" and "fst fc = fst ft"
    then obtain gt where "gt \<in> set fts" "fc = (fst gt, copyOf (snd gt))" by auto
    with own [OF \<open>ft \<in> set fts\<close>, of gt] \<open>fst fc = fst ft\<close> show "deepFor (snd ft) (snd fc)" by simp
  qed (use TStruct.prems in \<open>auto intro: rev_image_eqI\<close>)
  then show ?case by (simp add: deep_struct)
qed (simp_all add: deep_rules)

section \<open>Snapshots\<close>

text \<open>What a deep copy is for: the copy reads like the original did, now and in every later memory in which the
  cells of the copy are untouched, whatever happens to the rest; and the original reads as before in every later memory
  in which the cells that existed before are untouched, whatever happens to the copy.\<close>

definition snapshots :: "gotype \<Rightarrow> copier \<Rightarrow> bool" where
  "snapshots t c \<longleftrightarrow> (\<forall>h v. typed t h v \<longrightarrow> (\<exists>v' zs. c v h = (v', h @ zs) \<and>
     (\<forall>h'. agree {length h..<length h + length zs} (h @ zs) h' \<longrightarrow> view t h' v' = view t h v) \<and>
     (\<forall>h'. agree {..<length h} h h' \<longrightarrow> view t h' v = view t h v)))"

lemma deep_snapshots:
  assumes "deepFor t c"
  shows "snapshots t c"
  unfolding snapshots_def
proof (intro allI impI)
  fix h v
  assume v: "typed t h v"
  from deepForE [OF assms v] obtain v' zs where c: "c v h = (v', h @ zs)" "typed t (h @ zs) v'"
    "view t (h @ zs) v' = view t h v" "reach t (h @ zs) v' \<subseteq> {length h..}" by blast
  have "reach t (h @ zs) v' \<subseteq> {length h..<length h + length zs}" using c(4) reach_allocated(1) [OF c(2)] by auto
  then have copy: "view t h' v' = view t h v" if "agree {length h..<length h + length zs} (h @ zs) h'" for h'
    using frame(1) [OF c(2), of h'] agree_subset [OF that] c(3) by simp
  have "view t h' v = view t h v" if "agree {..<length h} h h'" for h'
    using frame(1) [OF v, of h'] agree_subset [OF that reach_allocated(1) [OF v]] by simp
  with copy c(1) show "\<exists>v' zs. c v h = (v', h @ zs) \<and>
     (\<forall>h'. agree {length h..<length h + length zs} (h @ zs) h' \<longrightarrow> view t h' v' = view t h v) \<and>
     (\<forall>h'. agree {..<length h} h h' \<longrightarrow> view t h' v = view t h v)" by blast
qed

end
