(* ===== verification/Deep_Copy.thy ===== *)
theory Deep_Copy
  imports Go_Memory
begin

text \<open>
  \<open>api/v1alpha1/zz_generated.deepcopy.go\<close> over a memory with aliasing. For each type of the API group: its
  layout, from \<open>workspace_types.go\<close> and \<open>peruserapp_types.go\<close>, with pointers, slices and maps where the struct has
  them; \<open>DeepCopyInto\<close>, statement by statement; \<open>DeepCopy\<close>; and \<open>DeepCopyObject\<close> for the four root types.

  The layouts of library types (\<open>D\<close>) and their own copy functions (\<open>E\<close>) are parameters; what the generated code
  relies on is the hypothesis \<open>libraryCopies\<close>: those functions are deep copies, and the three library types it assigns
  without one (\<open>TypeMeta\<close>, \<open>Duration\<close>, \<open>LocalObjectReference\<close>) hold no references. In \<open>new(T)\<close> followed
  by \<open>DeepCopyInto\<close> the copy is made before its cell is allocated, which only changes the number the new cell gets.

  Shown here: every one of the twenty copiers takes snapshots. The rest of the development models objects as values;
  this is what makes that right where the code keeps \<open>base := x.DeepCopy()\<close> and then mutates \<open>x\<close> in place.
\<close>

type_synonym layouts = "string \<Rightarrow> gotype"
type_synonym copiers = "string \<Rightarrow> copier"

section \<open>Layouts\<close>

definition ConnectionEntry_layout :: "layouts \<Rightarrow> gotype" where
  "ConnectionEntry_layout D = TStruct
     [(''Count'', TScalar), (''HeartbeatAt'', D ''Time'')]"

definition IdentitySpec_layout :: "layouts \<Rightarrow> gotype" where
  "IdentitySpec_layout D = TStruct
     [(''Header'', TScalar), (''MaxLength'', TScalar)]"

definition LifecycleSpec_layout :: "layouts \<Rightarrow> gotype" where
  "LifecycleSpec_layout D = TStruct
     [(''IdleTimeout'', D ''Duration''), (''StartupTimeout'', D ''Duration''),
      (''BackoffMax'', D ''Duration''), (''ReapInterval'', D ''Duration''),
      (''ConnectionHeartbeatInterval'', D ''Duration'')]"

definition LimitsSpec_layout :: "layouts \<Rightarrow> gotype" where
  "LimitsSpec_layout D = TStruct
     [(''MaxWorkspaces'', TScalar), (''MaxConcurrentStarts'', TScalar)]"

definition RouterIngressSpec_layout :: "layouts \<Rightarrow> gotype" where
  "RouterIngressSpec_layout D = TStruct
     [(''FromTraefik'', TScalar), (''From'', TSlice (D ''NetworkPolicyPeer''))]"

definition NetworkSpec_layout :: "layouts \<Rightarrow> gotype" where
  "NetworkSpec_layout D = TStruct
     [(''WorkspaceEgress'', TSlice (D ''NetworkPolicyEgressRule'')),
      (''RouterIngress'', RouterIngressSpec_layout D)]"

definition ReclaimSpec_layout :: "layouts \<Rightarrow> gotype" where
  "ReclaimSpec_layout D = TStruct
     [(''Enabled'', TScalar), (''TargetWorkspaces'', TScalar), (''MinIdleAge'', D ''Duration''),
      (''Interval'', D ''Duration''), (''DeleteVolumeData'', TScalar)]"

definition RouterSpec_layout :: "layouts \<Rightarrow> gotype" where
  "RouterSpec_layout D = TStruct
     [(''Replicas'', TScalar), (''Resources'', D ''ResourceRequirements''), (''Image'', TScalar),
      (''ColdStartHoldSeconds'', TScalar), (''SharedPaths'', TSlice TScalar)]"

definition SecretHeaderRef_layout :: "layouts \<Rightarrow> gotype" where
  "SecretHeaderRef_layout D = TStruct
     [(''SecretRef'', D ''SecretKeySelector''), (''Header'', TScalar), (''Scheme'', TScalar)]"

definition SeedSpec_layout :: "layouts \<Rightarrow> gotype" where
  "SeedSpec_layout D = TStruct
     [(''StagingMountPath'', TScalar), (''From'', TScalar)]"

definition StorageSpec_layout :: "layouts \<Rightarrow> gotype" where
  "StorageSpec_layout D = TStruct
     [(''Size'', D ''Quantity''), (''StorageClassName'', TScalar), (''MountPath'', TScalar),
      (''Seed'', TPtr (SeedSpec_layout D))]"

definition WorkspaceTemplateSpec_layout :: "layouts \<Rightarrow> gotype" where
  "WorkspaceTemplateSpec_layout D = TStruct
     [(''Image'', TScalar), (''ImagePullPolicy'', TScalar), (''Port'', TScalar),
      (''Env'', TSlice (D ''EnvVar'')), (''EnvFrom'', TSlice (D ''EnvFromSource'')),
      (''Resources'', D ''ResourceRequirements''), (''UpstreamAuth'', TPtr (SecretHeaderRef_layout D)),
      (''PodSecurityContext'', D ''PodSecurityContext''), (''SecurityContext'', D ''SecurityContext''),
      (''ServiceAccountName'', TScalar), (''AutomountServiceAccountToken'', TPtr TScalar),
      (''Volumes'', TSlice (D ''Volume'')), (''VolumeMounts'', TSlice (D ''VolumeMount'')),
      (''InitContainers'', TSlice (D ''Container'')), (''Command'', TSlice TScalar),
      (''Args'', TSlice TScalar), (''ReadinessProbe'', TPtr (D ''Probe'')),
      (''LivenessProbe'', TPtr (D ''Probe'')), (''NodeSelector'', TMap TScalar),
      (''Tolerations'', TSlice (D ''Toleration'')), (''TerminationGracePeriodSeconds'', TPtr TScalar)]"

definition PerUserAppSpec_layout :: "layouts \<Rightarrow> gotype" where
  "PerUserAppSpec_layout D = TStruct
     [(''Identity'', IdentitySpec_layout D), (''CallerAuth'', SecretHeaderRef_layout D),
      (''Workspace'', WorkspaceTemplateSpec_layout D), (''Network'', NetworkSpec_layout D),
      (''Storage'', StorageSpec_layout D), (''Limits'', LimitsSpec_layout D),
      (''Lifecycle'', LifecycleSpec_layout D), (''Router'', RouterSpec_layout D),
      (''Reclaim'', TPtr (ReclaimSpec_layout D))]"

definition PerUserAppStatus_layout :: "layouts \<Rightarrow> gotype" where
  "PerUserAppStatus_layout D = TStruct
     [(''ObservedGeneration'', TScalar), (''RouterReady'', TScalar), (''Conditions'', TSlice (D ''Condition''))]"

definition PerUserApp_layout :: "layouts \<Rightarrow> gotype" where
  "PerUserApp_layout D = TStruct
     [(''TypeMeta'', D ''TypeMeta''), (''ObjectMeta'', D ''ObjectMeta''),
      (''Spec'', PerUserAppSpec_layout D), (''Status'', PerUserAppStatus_layout D)]"

definition PerUserAppList_layout :: "layouts \<Rightarrow> gotype" where
  "PerUserAppList_layout D = TStruct
     [(''TypeMeta'', D ''TypeMeta''), (''ListMeta'', D ''ListMeta''),
      (''Items'', TSlice (PerUserApp_layout D))]"

definition WorkspaceSpec_layout :: "layouts \<Rightarrow> gotype" where
  "WorkspaceSpec_layout D = TStruct
     [(''AppRef'', D ''LocalObjectReference''), (''UserKey'', TScalar)]"

definition WorkspaceStatus_layout :: "layouts \<Rightarrow> gotype" where
  "WorkspaceStatus_layout D = TStruct
     [(''ObservedGeneration'', TScalar), (''Phase'', TScalar), (''ScaledDown'', TScalar),
      (''LastActivity'', TPtr (D ''Time'')), (''Connections'', TMap (ConnectionEntry_layout D)),
      (''WakeRequestedAt'', TPtr (D ''Time'')), (''EnqueuedAt'', TPtr (D ''Time'')),
      (''ConsecutiveFailures'', TScalar), (''BackoffUntil'', TPtr (D ''Time'')),
      (''StartDeadline'', TPtr (D ''Time'')), (''WaitingReason'', TScalar),
      (''LargestObservedSize'', TPtr (D ''Quantity'')), (''Conditions'', TSlice (D ''Condition'')),
      (''PodRef'', TScalar), (''ServiceRef'', TScalar), (''PVCRef'', TScalar)]"

definition Workspace_layout :: "layouts \<Rightarrow> gotype" where
  "Workspace_layout D = TStruct
     [(''TypeMeta'', D ''TypeMeta''), (''ObjectMeta'', D ''ObjectMeta''), (''Spec'', WorkspaceSpec_layout D),
      (''Status'', WorkspaceStatus_layout D)]"

definition WorkspaceList_layout :: "layouts \<Rightarrow> gotype" where
  "WorkspaceList_layout D = TStruct
     [(''TypeMeta'', D ''TypeMeta''), (''ListMeta'', D ''ListMeta''), (''Items'', TSlice (Workspace_layout D))]"

lemmas layout_defs = ConnectionEntry_layout_def IdentitySpec_layout_def LifecycleSpec_layout_def LimitsSpec_layout_def
  RouterIngressSpec_layout_def NetworkSpec_layout_def ReclaimSpec_layout_def RouterSpec_layout_def
  SecretHeaderRef_layout_def SeedSpec_layout_def StorageSpec_layout_def
  WorkspaceTemplateSpec_layout_def PerUserAppSpec_layout_def PerUserAppStatus_layout_def
  PerUserApp_layout_def PerUserAppList_layout_def WorkspaceSpec_layout_def WorkspaceStatus_layout_def
  Workspace_layout_def WorkspaceList_layout_def

section \<open>DeepCopyInto\<close>

definition ConnectionEntry_DeepCopyInto :: "copiers \<Rightarrow> copier" where
  "ConnectionEntry_DeepCopyInto E = copyFields
     [(''HeartbeatAt'', E ''Time'')]"

definition IdentitySpec_DeepCopyInto :: "copiers \<Rightarrow> copier" where
  "IdentitySpec_DeepCopyInto E = copyFields
     []"

definition LifecycleSpec_DeepCopyInto :: "copiers \<Rightarrow> copier" where
  "LifecycleSpec_DeepCopyInto E = copyFields
     [(''IdleTimeout'', assign), (''StartupTimeout'', assign), (''BackoffMax'', assign),
      (''ReapInterval'', assign), (''ConnectionHeartbeatInterval'', assign)]"

definition LimitsSpec_DeepCopyInto :: "copiers \<Rightarrow> copier" where
  "LimitsSpec_DeepCopyInto E = copyFields
     []"

definition RouterIngressSpec_DeepCopyInto :: "copiers \<Rightarrow> copier" where
  "RouterIngressSpec_DeepCopyInto E = copyFields
     [(''From'', copySlice (E ''NetworkPolicyPeer''))]"

definition NetworkSpec_DeepCopyInto :: "copiers \<Rightarrow> copier" where
  "NetworkSpec_DeepCopyInto E = copyFields
     [(''WorkspaceEgress'', copySlice (E ''NetworkPolicyEgressRule'')),
      (''RouterIngress'', RouterIngressSpec_DeepCopyInto E)]"

definition ReclaimSpec_DeepCopyInto :: "copiers \<Rightarrow> copier" where
  "ReclaimSpec_DeepCopyInto E = copyFields
     [(''MinIdleAge'', assign), (''Interval'', assign)]"

definition RouterSpec_DeepCopyInto :: "copiers \<Rightarrow> copier" where
  "RouterSpec_DeepCopyInto E = copyFields
     [(''Resources'', E ''ResourceRequirements''), (''SharedPaths'', copySlice assign)]"

definition SecretHeaderRef_DeepCopyInto :: "copiers \<Rightarrow> copier" where
  "SecretHeaderRef_DeepCopyInto E = copyFields
     [(''SecretRef'', E ''SecretKeySelector'')]"

definition SeedSpec_DeepCopyInto :: "copiers \<Rightarrow> copier" where
  "SeedSpec_DeepCopyInto E = copyFields
     []"

definition StorageSpec_DeepCopyInto :: "copiers \<Rightarrow> copier" where
  "StorageSpec_DeepCopyInto E = copyFields
     [(''Size'', E ''Quantity''), (''Seed'', copyPtr assign)]"

definition WorkspaceTemplateSpec_DeepCopyInto :: "copiers \<Rightarrow> copier" where
  "WorkspaceTemplateSpec_DeepCopyInto E = copyFields
     [(''Env'', copySlice (E ''EnvVar'')), (''EnvFrom'', copySlice (E ''EnvFromSource'')),
      (''Resources'', E ''ResourceRequirements''),
      (''UpstreamAuth'', copyPtr (SecretHeaderRef_DeepCopyInto E)),
      (''PodSecurityContext'', E ''PodSecurityContext''), (''SecurityContext'', E ''SecurityContext''),
      (''AutomountServiceAccountToken'', copyPtr assign), (''Volumes'', copySlice (E ''Volume'')),
      (''VolumeMounts'', copySlice (E ''VolumeMount'')), (''InitContainers'', copySlice (E ''Container'')),
      (''Command'', copySlice assign), (''Args'', copySlice assign),
      (''ReadinessProbe'', copyPtr (E ''Probe'')), (''LivenessProbe'', copyPtr (E ''Probe'')),
      (''NodeSelector'', copyMap assign), (''Tolerations'', copySlice (E ''Toleration'')),
      (''TerminationGracePeriodSeconds'', copyPtr assign)]"

definition PerUserAppSpec_DeepCopyInto :: "copiers \<Rightarrow> copier" where
  "PerUserAppSpec_DeepCopyInto E = copyFields
     [(''Identity'', assign), (''CallerAuth'', SecretHeaderRef_DeepCopyInto E),
      (''Workspace'', WorkspaceTemplateSpec_DeepCopyInto E), (''Network'', NetworkSpec_DeepCopyInto E),
      (''Storage'', StorageSpec_DeepCopyInto E), (''Limits'', assign), (''Lifecycle'', assign),
      (''Router'', RouterSpec_DeepCopyInto E), (''Reclaim'', copyPtr assign)]"

definition PerUserAppStatus_DeepCopyInto :: "copiers \<Rightarrow> copier" where
  "PerUserAppStatus_DeepCopyInto E = copyFields
     [(''Conditions'', copySlice (E ''Condition''))]"

definition PerUserApp_DeepCopyInto :: "copiers \<Rightarrow> copier" where
  "PerUserApp_DeepCopyInto E = copyFields
     [(''TypeMeta'', assign), (''ObjectMeta'', E ''ObjectMeta''), (''Spec'', PerUserAppSpec_DeepCopyInto E),
      (''Status'', PerUserAppStatus_DeepCopyInto E)]"

definition PerUserAppList_DeepCopyInto :: "copiers \<Rightarrow> copier" where
  "PerUserAppList_DeepCopyInto E = copyFields
     [(''TypeMeta'', assign), (''ListMeta'', E ''ListMeta''),
      (''Items'', copySlice (PerUserApp_DeepCopyInto E))]"

definition WorkspaceSpec_DeepCopyInto :: "copiers \<Rightarrow> copier" where
  "WorkspaceSpec_DeepCopyInto E = copyFields
     [(''AppRef'', assign)]"

definition WorkspaceStatus_DeepCopyInto :: "copiers \<Rightarrow> copier" where
  "WorkspaceStatus_DeepCopyInto E = copyFields
     [(''LastActivity'', copyPtr (E ''Time'')),
      (''Connections'', copyMap (copyVia (ConnectionEntry_DeepCopyInto E))),
      (''WakeRequestedAt'', copyPtr (E ''Time'')), (''EnqueuedAt'', copyPtr (E ''Time'')),
      (''BackoffUntil'', copyPtr (E ''Time'')), (''StartDeadline'', copyPtr (E ''Time'')),
      (''LargestObservedSize'', copyPtr (E ''Quantity'')), (''Conditions'', copySlice (E ''Condition''))]"

definition Workspace_DeepCopyInto :: "copiers \<Rightarrow> copier" where
  "Workspace_DeepCopyInto E = copyFields
     [(''TypeMeta'', assign), (''ObjectMeta'', E ''ObjectMeta''), (''Spec'', assign),
      (''Status'', WorkspaceStatus_DeepCopyInto E)]"

definition WorkspaceList_DeepCopyInto :: "copiers \<Rightarrow> copier" where
  "WorkspaceList_DeepCopyInto E = copyFields
     [(''TypeMeta'', assign), (''ListMeta'', E ''ListMeta''), (''Items'', copySlice (Workspace_DeepCopyInto E))]"

section \<open>DeepCopy and DeepCopyObject\<close>

definition ConnectionEntry_DeepCopy :: "copiers \<Rightarrow> copier" where
  "ConnectionEntry_DeepCopy E = copyPtr (ConnectionEntry_DeepCopyInto E)"
definition IdentitySpec_DeepCopy :: "copiers \<Rightarrow> copier" where
  "IdentitySpec_DeepCopy E = copyPtr (IdentitySpec_DeepCopyInto E)"
definition LifecycleSpec_DeepCopy :: "copiers \<Rightarrow> copier" where
  "LifecycleSpec_DeepCopy E = copyPtr (LifecycleSpec_DeepCopyInto E)"
definition LimitsSpec_DeepCopy :: "copiers \<Rightarrow> copier" where
  "LimitsSpec_DeepCopy E = copyPtr (LimitsSpec_DeepCopyInto E)"
definition RouterIngressSpec_DeepCopy :: "copiers \<Rightarrow> copier" where
  "RouterIngressSpec_DeepCopy E = copyPtr (RouterIngressSpec_DeepCopyInto E)"
definition NetworkSpec_DeepCopy :: "copiers \<Rightarrow> copier" where
  "NetworkSpec_DeepCopy E = copyPtr (NetworkSpec_DeepCopyInto E)"
definition ReclaimSpec_DeepCopy :: "copiers \<Rightarrow> copier" where
  "ReclaimSpec_DeepCopy E = copyPtr (ReclaimSpec_DeepCopyInto E)"
definition RouterSpec_DeepCopy :: "copiers \<Rightarrow> copier" where
  "RouterSpec_DeepCopy E = copyPtr (RouterSpec_DeepCopyInto E)"
definition SecretHeaderRef_DeepCopy :: "copiers \<Rightarrow> copier" where
  "SecretHeaderRef_DeepCopy E = copyPtr (SecretHeaderRef_DeepCopyInto E)"
definition SeedSpec_DeepCopy :: "copiers \<Rightarrow> copier" where
  "SeedSpec_DeepCopy E = copyPtr (SeedSpec_DeepCopyInto E)"
definition StorageSpec_DeepCopy :: "copiers \<Rightarrow> copier" where
  "StorageSpec_DeepCopy E = copyPtr (StorageSpec_DeepCopyInto E)"
definition WorkspaceTemplateSpec_DeepCopy :: "copiers \<Rightarrow> copier" where
  "WorkspaceTemplateSpec_DeepCopy E = copyPtr (WorkspaceTemplateSpec_DeepCopyInto E)"
definition PerUserAppSpec_DeepCopy :: "copiers \<Rightarrow> copier" where
  "PerUserAppSpec_DeepCopy E = copyPtr (PerUserAppSpec_DeepCopyInto E)"
definition PerUserAppStatus_DeepCopy :: "copiers \<Rightarrow> copier" where
  "PerUserAppStatus_DeepCopy E = copyPtr (PerUserAppStatus_DeepCopyInto E)"
definition PerUserApp_DeepCopy :: "copiers \<Rightarrow> copier" where
  "PerUserApp_DeepCopy E = copyPtr (PerUserApp_DeepCopyInto E)"
definition PerUserAppList_DeepCopy :: "copiers \<Rightarrow> copier" where
  "PerUserAppList_DeepCopy E = copyPtr (PerUserAppList_DeepCopyInto E)"
definition WorkspaceSpec_DeepCopy :: "copiers \<Rightarrow> copier" where
  "WorkspaceSpec_DeepCopy E = copyPtr (WorkspaceSpec_DeepCopyInto E)"
definition WorkspaceStatus_DeepCopy :: "copiers \<Rightarrow> copier" where
  "WorkspaceStatus_DeepCopy E = copyPtr (WorkspaceStatus_DeepCopyInto E)"
definition Workspace_DeepCopy :: "copiers \<Rightarrow> copier" where
  "Workspace_DeepCopy E = copyPtr (Workspace_DeepCopyInto E)"
definition WorkspaceList_DeepCopy :: "copiers \<Rightarrow> copier" where
  "WorkspaceList_DeepCopy E = copyPtr (WorkspaceList_DeepCopyInto E)"

text \<open>A nil interface value for a nil copy.\<close>

definition objectOf :: "gval \<times> memory \<Rightarrow> gval option \<times> memory" where
  "objectOf r = (case fst r of PtrRef None \<Rightarrow> (None, snd r) | c \<Rightarrow> (Some c, snd r))"

definition PerUserApp_DeepCopyObject :: "copiers \<Rightarrow> gval \<Rightarrow> memory \<Rightarrow> gval option \<times> memory" where
  "PerUserApp_DeepCopyObject E v h = objectOf (PerUserApp_DeepCopy E v h)"
definition PerUserAppList_DeepCopyObject :: "copiers \<Rightarrow> gval \<Rightarrow> memory \<Rightarrow> gval option \<times> memory" where
  "PerUserAppList_DeepCopyObject E v h = objectOf (PerUserAppList_DeepCopy E v h)"
definition Workspace_DeepCopyObject :: "copiers \<Rightarrow> gval \<Rightarrow> memory \<Rightarrow> gval option \<times> memory" where
  "Workspace_DeepCopyObject E v h = objectOf (Workspace_DeepCopy E v h)"
definition WorkspaceList_DeepCopyObject :: "copiers \<Rightarrow> gval \<Rightarrow> memory \<Rightarrow> gval option \<times> memory" where
  "WorkspaceList_DeepCopyObject E v h = objectOf (WorkspaceList_DeepCopy E v h)"

section \<open>All of them are deep\<close>

definition libraryCopies :: "layouts \<Rightarrow> copiers \<Rightarrow> bool" where
  "libraryCopies D E \<longleftrightarrow> (\<forall>n. deepFor (D n) (E n)) \<and> flat (D ''TypeMeta'') \<and> flat (D ''Duration'') \<and> flat (D ''LocalObjectReference'')"

lemma library_deep [deep_rules]: "libraryCopies D E \<Longrightarrow> deepFor (D n) (E n)"
  by (simp add: libraryCopies_def)

lemma flat_library [deep_rules]:
  assumes "libraryCopies D E"
  shows "flat (D ''TypeMeta'')" "flat (D ''Duration'')" "flat (D ''LocalObjectReference'')"
    "flat (LifecycleSpec_layout D)" "flat (ReclaimSpec_layout D)" "flat (WorkspaceSpec_layout D)"
  using assms by (simp_all add: libraryCopies_def layout_defs)

lemma flat_specs [simp]: "flat (IdentitySpec_layout D)" "flat (LimitsSpec_layout D)" "flat (SeedSpec_layout D)"
  by (simp_all add: layout_defs)

text \<open>Each statement list covers the references of its layout; the types that contain others after those.\<close>

lemma deep_parts [deep_rules]:
  assumes "libraryCopies D E"
  shows "deepFor (ConnectionEntry_layout D) (ConnectionEntry_DeepCopyInto E)"
    "deepFor (IdentitySpec_layout D) (IdentitySpec_DeepCopyInto E)"
    "deepFor (LifecycleSpec_layout D) (LifecycleSpec_DeepCopyInto E)"
    "deepFor (LimitsSpec_layout D) (LimitsSpec_DeepCopyInto E)"
    "deepFor (RouterIngressSpec_layout D) (RouterIngressSpec_DeepCopyInto E)"
    "deepFor (ReclaimSpec_layout D) (ReclaimSpec_DeepCopyInto E)"
    "deepFor (RouterSpec_layout D) (RouterSpec_DeepCopyInto E)"
    "deepFor (SecretHeaderRef_layout D) (SecretHeaderRef_DeepCopyInto E)"
    "deepFor (SeedSpec_layout D) (SeedSpec_DeepCopyInto E)"
    "deepFor (StorageSpec_layout D) (StorageSpec_DeepCopyInto E)"
    "deepFor (PerUserAppStatus_layout D) (PerUserAppStatus_DeepCopyInto E)"
    "deepFor (WorkspaceSpec_layout D) (WorkspaceSpec_DeepCopyInto E)"
  unfolding ConnectionEntry_layout_def ConnectionEntry_DeepCopyInto_def IdentitySpec_layout_def
    IdentitySpec_DeepCopyInto_def LifecycleSpec_layout_def LifecycleSpec_DeepCopyInto_def LimitsSpec_layout_def
    LimitsSpec_DeepCopyInto_def RouterIngressSpec_layout_def RouterIngressSpec_DeepCopyInto_def
    ReclaimSpec_layout_def ReclaimSpec_DeepCopyInto_def RouterSpec_layout_def RouterSpec_DeepCopyInto_def
    SecretHeaderRef_layout_def SecretHeaderRef_DeepCopyInto_def SeedSpec_layout_def SeedSpec_DeepCopyInto_def
    StorageSpec_layout_def StorageSpec_DeepCopyInto_def PerUserAppStatus_layout_def
    PerUserAppStatus_DeepCopyInto_def WorkspaceSpec_layout_def WorkspaceSpec_DeepCopyInto_def
  using assms by (simp_all add: covers_def deep_rules)

lemma deep_templates [deep_rules]:
  assumes "libraryCopies D E"
  shows "deepFor (NetworkSpec_layout D) (NetworkSpec_DeepCopyInto E)"
    "deepFor (WorkspaceTemplateSpec_layout D) (WorkspaceTemplateSpec_DeepCopyInto E)"
    "deepFor (WorkspaceStatus_layout D) (WorkspaceStatus_DeepCopyInto E)"
  unfolding NetworkSpec_layout_def NetworkSpec_DeepCopyInto_def WorkspaceTemplateSpec_layout_def
    WorkspaceTemplateSpec_DeepCopyInto_def WorkspaceStatus_layout_def WorkspaceStatus_DeepCopyInto_def
  using assms by (simp_all add: covers_def deep_rules)

lemma deep_workspace [deep_rules]:
  assumes "libraryCopies D E"
  shows "deepFor (Workspace_layout D) (Workspace_DeepCopyInto E)"
    "deepFor (PerUserAppSpec_layout D) (PerUserAppSpec_DeepCopyInto E)"
  unfolding Workspace_layout_def Workspace_DeepCopyInto_def PerUserAppSpec_layout_def
    PerUserAppSpec_DeepCopyInto_def
  using assms by (simp_all add: covers_def deep_rules)

lemma deep_app [deep_rules]:
  assumes "libraryCopies D E"
  shows "deepFor (WorkspaceList_layout D) (WorkspaceList_DeepCopyInto E)"
    "deepFor (PerUserApp_layout D) (PerUserApp_DeepCopyInto E)"
  unfolding WorkspaceList_layout_def WorkspaceList_DeepCopyInto_def PerUserApp_layout_def
    PerUserApp_DeepCopyInto_def
  using assms by (simp_all add: covers_def deep_rules)

lemma deep_app_list [deep_rules]:
  assumes "libraryCopies D E"
  shows "deepFor (PerUserAppList_layout D) (PerUserAppList_DeepCopyInto E)"
  unfolding PerUserAppList_layout_def PerUserAppList_DeepCopyInto_def
  using assms by (simp_all add: covers_def deep_rules)

text \<open>The layouts with their copiers.\<close>

definition copierTable :: "layouts \<Rightarrow> copiers \<Rightarrow> (gotype \<times> copier \<times> copier) list" where
  "copierTable D E =
     [(ConnectionEntry_layout D, ConnectionEntry_DeepCopyInto E, ConnectionEntry_DeepCopy E),
      (IdentitySpec_layout D, IdentitySpec_DeepCopyInto E, IdentitySpec_DeepCopy E),
      (LifecycleSpec_layout D, LifecycleSpec_DeepCopyInto E, LifecycleSpec_DeepCopy E),
      (LimitsSpec_layout D, LimitsSpec_DeepCopyInto E, LimitsSpec_DeepCopy E),
      (RouterIngressSpec_layout D, RouterIngressSpec_DeepCopyInto E, RouterIngressSpec_DeepCopy E),
      (NetworkSpec_layout D, NetworkSpec_DeepCopyInto E, NetworkSpec_DeepCopy E),
      (ReclaimSpec_layout D, ReclaimSpec_DeepCopyInto E, ReclaimSpec_DeepCopy E),
      (RouterSpec_layout D, RouterSpec_DeepCopyInto E, RouterSpec_DeepCopy E),
      (SecretHeaderRef_layout D, SecretHeaderRef_DeepCopyInto E, SecretHeaderRef_DeepCopy E),
      (SeedSpec_layout D, SeedSpec_DeepCopyInto E, SeedSpec_DeepCopy E),
      (StorageSpec_layout D, StorageSpec_DeepCopyInto E, StorageSpec_DeepCopy E),
      (WorkspaceTemplateSpec_layout D, WorkspaceTemplateSpec_DeepCopyInto E, WorkspaceTemplateSpec_DeepCopy E),
      (PerUserAppSpec_layout D, PerUserAppSpec_DeepCopyInto E, PerUserAppSpec_DeepCopy E),
      (PerUserAppStatus_layout D, PerUserAppStatus_DeepCopyInto E, PerUserAppStatus_DeepCopy E),
      (PerUserApp_layout D, PerUserApp_DeepCopyInto E, PerUserApp_DeepCopy E),
      (PerUserAppList_layout D, PerUserAppList_DeepCopyInto E, PerUserAppList_DeepCopy E),
      (WorkspaceSpec_layout D, WorkspaceSpec_DeepCopyInto E, WorkspaceSpec_DeepCopy E),
      (WorkspaceStatus_layout D, WorkspaceStatus_DeepCopyInto E, WorkspaceStatus_DeepCopy E),
      (Workspace_layout D, Workspace_DeepCopyInto E, Workspace_DeepCopy E),
      (WorkspaceList_layout D, WorkspaceList_DeepCopyInto E, WorkspaceList_DeepCopy E)]"

lemmas copy_defs =
  ConnectionEntry_DeepCopy_def IdentitySpec_DeepCopy_def LifecycleSpec_DeepCopy_def LimitsSpec_DeepCopy_def
  RouterIngressSpec_DeepCopy_def NetworkSpec_DeepCopy_def ReclaimSpec_DeepCopy_def RouterSpec_DeepCopy_def
  SecretHeaderRef_DeepCopy_def SeedSpec_DeepCopy_def StorageSpec_DeepCopy_def
  WorkspaceTemplateSpec_DeepCopy_def PerUserAppSpec_DeepCopy_def PerUserAppStatus_DeepCopy_def
  PerUserApp_DeepCopy_def PerUserAppList_DeepCopy_def WorkspaceSpec_DeepCopy_def WorkspaceStatus_DeepCopy_def
  Workspace_DeepCopy_def WorkspaceList_DeepCopy_def

lemma into_table:
  "libraryCopies D E \<Longrightarrow> list_all (\<lambda>(t, into, _). deepFor t into) (copierTable D E)"
  by (simp add: copierTable_def deep_rules)

lemma copy_is_ptr: "list_all (\<lambda>(_, into, copy). copy = copyPtr into) (copierTable D E)"
  by (simp add: copierTable_def copy_defs)

text \<open>What is lost without them: an assignment shares the map, and an update in place shows through the copy.\<close>

lemma assignment_shares: "\<not> snapshots (TMap TScalar) assign"
proof
  let ?h = "[MapCell [(''pod'', Scalar ''1'')]]" and ?v = "MapRef (Some 0)"
  assume "snapshots (TMap TScalar) assign"
  moreover have "typed (TMap TScalar) ?h ?v" by (simp add: mapEntries.simps)
  ultimately obtain v' zs where "assign ?v ?h = (v', ?h @ zs)"
    and "\<forall>h'. agree {length ?h..<length ?h + length zs} (?h @ zs) h' \<longrightarrow> view (TMap TScalar) h' v' = view (TMap TScalar) ?h ?v"
    unfolding snapshots_def by blast
  then have "view (TMap TScalar) [MapCell []] ?v = view (TMap TScalar) ?h ?v" by (auto simp: assign_def agree_def)
  then show False by (simp add: mapEntries.simps)
qed

text \<open>\<open>DeepCopyObject\<close> returns a nil interface exactly for a nil receiver.\<close>

lemma objectOf_copyPtr: "fst (objectOf (copyPtr c (PtrRef p) h)) = None \<longleftrightarrow> p = None"
  by (auto simp: objectOf_def copyPtr_def split: option.splits prod.splits gval.splits)

text \<open>Claim C21. Every generated copier takes snapshots: for all twenty types of the API group, the result of
  \<open>DeepCopyInto\<close> and of \<open>DeepCopy\<close> reads like the original did and keeps reading so whatever later happens to
  the cells that existed before (the caller mutates the object it took the copy of), and the original keeps reading as
  it did whatever happens to the copy; provided the library's own copy functions are deep copies.\<close>

theorem deep_copies_are_snapshots:
  assumes "libraryCopies D E"
  shows "list_all (\<lambda>(t, into, copy). snapshots t into \<and> snapshots (TPtr t) copy) (copierTable D E)"
  using into_table [OF assms] copy_is_ptr [of D E] unfolding list_all_iff by (fastforce intro: deep_snapshots deep_ptr)

definition sampleLayouts :: layouts where
  "sampleLayouts n =
     (if n = ''ObjectMeta'' then TStruct [(''Name'', TScalar), (''Labels'', TMap TScalar), (''Finalizers'', TSlice TScalar)]
      else if n = ''Time'' then TStruct [(''Time'', TStruct [(''wall'', TScalar), (''loc'', TPtr TScalar)])]
      else TScalar)"

theorem deep_copies_are_snapshots_witness:
  "libraryCopies sampleLayouts (\<lambda>n. copyOf (sampleLayouts n)) \<and>
   list_all (\<lambda>(t, into, copy). snapshots t into \<and> snapshots (TPtr t) copy)
     (copierTable sampleLayouts (\<lambda>n. copyOf (sampleLayouts n)))"
proof -
  have "libraryCopies sampleLayouts (\<lambda>n. copyOf (sampleLayouts n))"
    unfolding libraryCopies_def by (intro conjI allI deep_copyOf) (simp_all add: sampleLayouts_def)
  then show ?thesis using deep_copies_are_snapshots by blast
qed

end
