(* ===== verification/Api_Store.thy ===== *)
theory Api_Store
  imports Render_Facts Samples
begin

text \<open>
  What the API server promises of the objects it stores, for the theorems that follow an object through several
  calls of a handler, and a program logic over the stored objects.

  \<^item> \<open>triple P m Q\<close>: run from a state of the environment that satisfies \<open>P\<close>, \<open>m\<close> ends with a result and a state
    that satisfy \<open>Q\<close>. Rules in \<open>triple_rules\<close>.
  \<^item> \<open>api_store env view\<close>: the Workspaces, claims and volumes an environment stores, read off its state by \<open>view\<close>,
    and what Kubernetes documents of the calls on them. A call that is answered with an error may have taken
    effect or not, so a crash or an outage after any call is one such environment. \<open>calm_store\<close> adds that
    calls do not fail.
  \<^item> \<open>faultyEnv\<close>: an API server over tables that serves, refuses or executes without an answer each call as a
    schedule says. Both locales are interpreted on it.
\<close>

named_theorems triple_rules "syntax-directed rules for triple"

section \<open>Triples over the state of the environment\<close>

definition triple :: "('s \<Rightarrow> bool) \<Rightarrow> ('s, 'e, 'a) prog \<Rightarrow> ('a \<Rightarrow> 's \<Rightarrow> bool) \<Rightarrow> bool" where
  "triple P m Q \<longleftrightarrow> (\<forall>w. P (cluster w) \<longrightarrow> Q (fst (run_state m w)) (cluster (snd (run_state m w))))"

lemma tripleD: "triple P m Q \<Longrightarrow> run_state m w = (r, w') \<Longrightarrow> P (cluster w) \<Longrightarrow> Q r (cluster w')"
  unfolding triple_def by (metis fst_conv snd_conv)

lemma triple_mono: "triple P m Q \<Longrightarrow> (\<And>s. P' s \<Longrightarrow> P s) \<Longrightarrow> (\<And>r s. Q r s \<Longrightarrow> Q' r s) \<Longrightarrow> triple P' m Q'"
  unfolding triple_def by blast

lemma triple_conj: "triple P m Q \<Longrightarrow> triple P m R \<Longrightarrow> triple P m (\<lambda>r s. Q r s \<and> R r s)"
  unfolding triple_def by blast

lemma triple_pre: "triple P m Q \<Longrightarrow> (\<And>s. P' s \<Longrightarrow> P s) \<Longrightarrow> triple P' m Q"
  unfolding triple_def by blast

lemma triple_False [simp]: "triple (\<lambda>_. False) m Q"
  by (simp add: triple_def)

lemma triple_return [triple_rules]: "(\<And>s. P s \<Longrightarrow> Q x s) \<Longrightarrow> triple P (ret x) Q"
  by (simp add: triple_def)

lemma triple_emit [triple_rules]: "(\<And>s. P s \<Longrightarrow> Q () s) \<Longrightarrow> triple P (emit e) Q"
  by (simp add: triple_def)

lemma triple_ask: "(\<And>s r s'. P s \<Longrightarrow> f s = (r, s') \<Longrightarrow> Q r s') \<Longrightarrow> triple P (ask f ev) Q"
  by (simp add: triple_def)

lemma triple_bind:
  assumes "triple P m R" and "\<And>x. triple (R x) (f x) Q"
  shows "triple P (State_Monad.bind m f) Q"
  using assms unfolding triple_def by (simp add: split_beta)

lemma triple_if [triple_rules]:
  "(b \<Longrightarrow> triple P m Q) \<Longrightarrow> (\<not> b \<Longrightarrow> triple P n Q) \<Longrightarrow> triple P (if b then m else n) Q"
  by simp

lemma triple_case_sum [triple_rules]:
  "(\<And>e. r = Inl e \<Longrightarrow> triple P (f e) Q) \<Longrightarrow> (\<And>x. r = Inr x \<Longrightarrow> triple P (g x) Q) \<Longrightarrow>
   triple P (case r of Inl e \<Rightarrow> f e | Inr x \<Rightarrow> g x) Q"
  by (cases r) auto

lemma triple_case_option [triple_rules]:
  "(r = None \<Longrightarrow> triple P f Q) \<Longrightarrow> (\<And>x. r = Some x \<Longrightarrow> triple P (g x) Q) \<Longrightarrow>
   triple P (case r of None \<Rightarrow> f | Some x \<Rightarrow> g x) Q"
  by (cases r) auto

lemma triple_now: "(\<And>s t s'. P s \<Longrightarrow> clock env s = (t, s') \<Longrightarrow> Q t s') \<Longrightarrow> triple P (now env) Q"
  by (simp add: now_def triple_ask)

lemma triple_doGet: "(\<And>s r s'. P s \<Longrightarrow> rGet res key s = (r, s') \<Longrightarrow> Q r s') \<Longrightarrow> triple P (doGet res k key) Q"
  by (simp add: doGet_def triple_ask)

lemma triple_doList: "(\<And>s r s'. P s \<Longrightarrow> rList res ns ls s = (r, s') \<Longrightarrow> Q r s') \<Longrightarrow> triple P (doList res k ns ls) Q"
  by (simp add: doList_def triple_ask)

lemma triple_doPatch: "(\<And>s r s'. P s \<Longrightarrow> rPatch res b x s = (r, s') \<Longrightarrow> Q r s') \<Longrightarrow> triple P (doPatch res mk b x) Q"
  by (simp add: doPatch_def triple_ask)

lemma triple_doDelete: "(\<And>s r s'. P s \<Longrightarrow> rDelete res x s = (r, s') \<Longrightarrow> Q r s') \<Longrightarrow> triple P (doDelete res mk x) Q"
  by (simp add: doDelete_def triple_ask)

lemma triple_metric_then [triple_rules]:
  "triple P (f ()) Q \<Longrightarrow> triple P (State_Monad.bind (record_metric mt) f) Q"
  by (simp add: triple_def record_metric_def)

lemmas triple_calls = triple_now triple_doGet triple_doList triple_doPatch triple_doDelete

section \<open>Stored objects\<close>

definition metaKey :: "objectMeta \<Rightarrow> key" where
  "metaKey md = (Namespace md, Name md)"

record store =
  stWs :: "key \<rightharpoonup> workspace"
  stPvc :: "key \<rightharpoonup> persistentVolumeClaim"
  stPv :: "string \<rightharpoonup> persistentVolume"

text \<open>Gone, or on its way out: deletion of an object with finalizers only marks it.\<close>

definition going :: "('o \<Rightarrow> objectMeta) \<Rightarrow> 'o option \<Rightarrow> bool" where
  "going md x \<longleftrightarrow> (case x of None \<Rightarrow> True | Some y \<Rightarrow> DeletionTimestamp (md y) \<noteq> None)"

text \<open>The answer says that the object is deleted, or was not there.\<close>

definition acknowledged :: "error + 'a \<Rightarrow> bool" where
  "acknowledged r \<longleftrightarrow> (case r of Inl e \<Rightarrow> IsNotFound e | Inr _ \<Rightarrow> True)"

text \<open>The stored claim after a merge patch from \<open>b\<close> to \<open>b\<close> with the annotations \<open>an\<close>: annotations that differ are sent
  and stored, the others stay as stored, and so does the rest of the claim, the resource version apart.\<close>

definition claimPatched ::
    "persistentVolumeClaim \<Rightarrow> strmap \<Rightarrow> persistentVolumeClaim \<Rightarrow> persistentVolumeClaim \<Rightarrow> bool" where
  "claimPatched b an cur new \<longleftrightarrow>
     (\<exists>an' rv. new = cur\<lparr>pvcMeta := (pvcMeta cur)\<lparr>Annotations := an', ResourceVersion := rv\<rparr>\<rparr> \<and>
        (\<forall>k. map_of an' k = (if map_of an k = map_of (Annotations (pvcMeta b)) k
                             then map_of (Annotations (pvcMeta cur)) k else map_of an k)))"

definition volumePatched ::
    "persistentVolume \<Rightarrow> string \<Rightarrow> persistentVolume \<Rightarrow> persistentVolume \<Rightarrow> bool" where
  "volumePatched b p cur new \<longleftrightarrow>
     (\<exists>rv. new = cur\<lparr>pvMeta := (pvMeta cur)\<lparr>ResourceVersion := rv\<rparr>,
        pvReclaimPolicy := (if p = pvReclaimPolicy b then pvReclaimPolicy cur else p)\<rparr>)"

locale api_store =
  fixes env :: "('s, 'x) env_scheme" and view :: "'s \<Rightarrow> store"
  assumes claim_key: "stPvc (view s) k = Some pvc \<Longrightarrow> metaKey (pvcMeta pvc) = k"
    and volume_key: "stPv (view s) n = Some pv \<Longrightarrow> Name (pvMeta pv) = n"
    and clock_reads: "view (snd (clock env s)) = view s"
    and get_claim_reads: "view (snd (rGet (claims env) k s)) = view s"
    and get_volume_reads: "view (snd (rGet (volumes env) k s)) = view s"
    and list_claims_reads: "view (snd (rList (claims env) ns ls s)) = view s"
    and get_claim: "fst (rGet (claims env) k s) = Inr pvc \<Longrightarrow> stPvc (view s) k = Some pvc"
    and get_claim_none: "fst (rGet (claims env) k s) = Inl e \<Longrightarrow> IsNotFound e \<Longrightarrow> stPvc (view s) k = None"
    and get_volume: "fst (rGet (volumes env) ([], n) s) = Inr pv \<Longrightarrow> stPv (view s) n = Some pv"
    and get_volume_none: "fst (rGet (volumes env) ([], n) s) = Inl e \<Longrightarrow> IsNotFound e \<Longrightarrow> stPv (view s) n = None"
    and patch_claim:
      "rPatch (claims env) b (b\<lparr>pvcMeta := (pvcMeta b)\<lparr>Annotations := an\<rparr>\<rparr>) s = (r, s') \<Longrightarrow>
       (view s' = view s \<and> (\<exists>e. r = Inl e)) \<or>
       (\<exists>cur new. stPvc (view s) (metaKey (pvcMeta b)) = Some cur \<and> claimPatched b an cur new \<and>
          view s' = (view s)\<lparr>stPvc := (stPvc (view s))(metaKey (pvcMeta b) \<mapsto> new)\<rparr> \<and>
          (\<forall>y. r = Inr y \<longrightarrow> y = new))"
    and patch_volume:
      "rPatch (volumes env) v (v\<lparr>pvReclaimPolicy := p\<rparr>) s = (q, s') \<Longrightarrow>
       (view s' = view s \<and> (\<exists>e. q = Inl e)) \<or>
       (\<exists>cur new. stPv (view s) (Name (pvMeta v)) = Some cur \<and> volumePatched v p cur new \<and>
          view s' = (view s)\<lparr>stPv := (stPv (view s))(Name (pvMeta v) \<mapsto> new)\<rparr>)"
    and delete_workspace:
      "rDelete (workspaces env) ws s = (d, s') \<Longrightarrow>
       \<exists>x. view s' = (view s)\<lparr>stWs := (stWs (view s))(metaKey (wsMeta ws) := x)\<rparr> \<and>
         (x = stWs (view s) (metaKey (wsMeta ws)) \<or> going wsMeta x) \<and> (acknowledged d \<longrightarrow> going wsMeta x)"
    and delete_claim:
      "rDelete (claims env) c s = (d, s') \<Longrightarrow>
       \<exists>x. view s' = (view s)\<lparr>stPvc := (stPvc (view s))(metaKey (pvcMeta c) := x)\<rparr> \<and>
         (x = stPvc (view s) (metaKey (pvcMeta c)) \<or> going pvcMeta x) \<and> (acknowledged d \<longrightarrow> going pvcMeta x)"

text \<open>While nothing fails: what is stored is found and patched, deletions are acknowledged, and a
  listing is complete.\<close>

locale calm_store = api_store env view for env :: "('s, 'x) env_scheme" and view :: "'s \<Rightarrow> store" +
  assumes calm_get_claim: "fst (rGet (claims env) k s) = Inl e \<Longrightarrow> IsNotFound e"
    and calm_get_volume: "fst (rGet (volumes env) k s) = Inl e \<Longrightarrow> IsNotFound e"
    and calm_patch_claim: "stPvc (view s) (metaKey (pvcMeta b)) \<noteq> None \<Longrightarrow> \<exists>y. fst (rPatch (claims env) b x s) = Inr y"
    and calm_patch_volume: "stPv (view s) (Name (pvMeta v)) \<noteq> None \<Longrightarrow> \<exists>y. fst (rPatch (volumes env) v u s) = Inr y"
    and calm_delete_workspace: "acknowledged (fst (rDelete (workspaces env) ws s))"
    and calm_delete_claim: "acknowledged (fst (rDelete (claims env) c s))"
    and calm_list_claims: "\<exists>pvcs. fst (rList (claims env) ns ls s) = Inr pvcs \<and>
        set pvcs = {pvc. \<exists>n. stPvc (view s) (ns, n) = Some pvc \<and> selects ls (Labels (pvcMeta pvc))}"

section \<open>An API server over tables\<close>

datatype fault = Served | Refused | Unanswered

record tables =
  tbWs :: "workspace list"
  tbPvc :: "persistentVolumeClaim list"
  tbPv :: "persistentVolume list"
  tbNow :: gotime
  tbCalls :: nat

text \<open>\<open>mk\<close> is the key of an object. A table has the first object of each key.\<close>

definition tableGet :: "('o \<Rightarrow> 'k) \<Rightarrow> 'o list \<Rightarrow> 'k \<Rightarrow> 'o option" where
  "tableGet mk xs k = find (\<lambda>x. mk x = k) xs"

definition tablePut :: "('o \<Rightarrow> 'k) \<Rightarrow> 'k \<Rightarrow> ('o \<Rightarrow> 'o) \<Rightarrow> 'o list \<Rightarrow> 'o list" where
  "tablePut mk k f xs = map (\<lambda>x. if mk x = k then f x else x) xs"

definition tableRemove :: "('o \<Rightarrow> 'k) \<Rightarrow> 'k \<Rightarrow> 'o list \<Rightarrow> 'o list" where
  "tableRemove mk k xs = filter (\<lambda>x. mk x \<noteq> k) xs"

fun tableFirsts :: "('o \<Rightarrow> 'k) \<Rightarrow> 'o list \<Rightarrow> 'o list" where
  "tableFirsts mk [] = []"
| "tableFirsts mk (x # xs) = x # filter (\<lambda>y. mk y \<noteq> mk x) (tableFirsts mk xs)"

lemma tableGet_key: "tableGet mk xs k = Some x \<Longrightarrow> mk x = k"
  by (auto simp: tableGet_def find_Some_iff)

lemma tableGet_put:
  assumes "\<And>x. mk (f x) = mk x"
  shows "tableGet mk (tablePut mk k f xs) = (tableGet mk xs)(k := map_option f (tableGet mk xs k))"
proof
  fix k'
  show "tableGet mk (tablePut mk k f xs) k' = ((tableGet mk xs)(k := map_option f (tableGet mk xs k))) k'"
    by (induction xs) (auto simp: tableGet_def tablePut_def assms)
qed

lemma tableGet_remove: "tableGet mk (tableRemove mk k xs) = (tableGet mk xs)(k := None)"
proof
  fix k'
  show "tableGet mk (tableRemove mk k xs) k' = ((tableGet mk xs)(k := None)) k'"
    by (induction xs) (auto simp: tableGet_def tableRemove_def)
qed

lemma tableFirsts_iff: "x \<in> set (tableFirsts mk xs) \<longleftrightarrow> tableGet mk xs (mk x) = Some x"
  by (induction xs) (auto simp: tableGet_def)

definition markDeleted :: "gotime \<Rightarrow> objectMeta \<Rightarrow> objectMeta" where
  "markDeleted t md = (if DeletionTimestamp md = None then md\<lparr>DeletionTimestamp := Some t\<rparr> else md)"

definition tableDelete ::
    "('o \<Rightarrow> objectMeta) \<Rightarrow> ((objectMeta \<Rightarrow> objectMeta) \<Rightarrow> 'o \<Rightarrow> 'o) \<Rightarrow> gotime \<Rightarrow> key \<Rightarrow> 'o list \<Rightarrow> 'o list" where
  "tableDelete md upd t k xs =
     (case tableGet (metaKey \<circ> md) xs k of
        None \<Rightarrow> xs
      | Some x \<Rightarrow> if Finalizers (md x) = [] then tableRemove (metaKey \<circ> md) k xs
                  else tablePut (metaKey \<circ> md) k (upd (markDeleted t)) xs)"

definition tableDeleted ::
    "('o \<Rightarrow> objectMeta) \<Rightarrow> ((objectMeta \<Rightarrow> objectMeta) \<Rightarrow> 'o \<Rightarrow> 'o) \<Rightarrow> gotime \<Rightarrow> key \<Rightarrow> 'o list \<Rightarrow> 'o option" where
  "tableDeleted md upd t k xs =
     (case tableGet (metaKey \<circ> md) xs k of
        None \<Rightarrow> None
      | Some x \<Rightarrow> if Finalizers (md x) = [] then None else Some (upd (markDeleted t) x))"

lemma tableDelete_get:
  assumes "\<And>f x. md (upd f x) = f (md x)"
  shows "tableGet (metaKey \<circ> md) (tableDelete md upd t k xs) =
      (tableGet (metaKey \<circ> md) xs)(k := tableDeleted md upd t k xs) \<and> going md (tableDeleted md upd t k xs)"
proof -
  have key: "(metaKey \<circ> md) (upd (markDeleted t) x) = (metaKey \<circ> md) x" for x
    by (simp add: assms metaKey_def markDeleted_def)
  show ?thesis
    by (auto simp: tableDelete_def tableDeleted_def tableGet_remove tableGet_put [where mk = "metaKey \<circ> md", OF key] going_def assms
        markDeleted_def split: option.split)
qed

text \<open>Per member of a merge patch: what differs between base and wanted object is sent.\<close>

definition mergeMap :: "strmap \<Rightarrow> strmap \<Rightarrow> strmap \<Rightarrow> strmap" where
  "mergeMap b x cur =
     filter (\<lambda>(k, v). map_of x k \<noteq> map_of b k) x @ filter (\<lambda>(k, v). map_of x k = map_of b k) cur"

lemma map_of_filter_key: "map_of (filter (\<lambda>(k, v). P k) xs) k = (if P k then map_of xs k else None)"
  by (induction xs) auto

lemma map_of_mergeMap:
  "map_of (mergeMap b x cur) k = (if map_of x k = map_of b k then map_of cur k else map_of x k)"
  by (cases "map_of x k") (auto simp: mergeMap_def map_add_def map_of_filter_key)

definition mergeClaim :: "persistentVolumeClaim \<Rightarrow> persistentVolumeClaim \<Rightarrow> persistentVolumeClaim \<Rightarrow> persistentVolumeClaim" where
  "mergeClaim b x cur = cur\<lparr>pvcMeta := (pvcMeta cur)\<lparr>Annotations :=
       mergeMap (Annotations (pvcMeta b)) (Annotations (pvcMeta x)) (Annotations (pvcMeta cur))\<rparr>,
     pvcRequest := (if pvcRequest x = pvcRequest b then pvcRequest cur else pvcRequest x)\<rparr>"

definition mergeVolume :: "persistentVolume \<Rightarrow> persistentVolume \<Rightarrow> persistentVolume \<Rightarrow> persistentVolume" where
  "mergeVolume b x cur =
     cur\<lparr>pvReclaimPolicy := (if pvReclaimPolicy x = pvReclaimPolicy b then pvReclaimPolicy cur else pvReclaimPolicy x)\<rparr>"

definition serve :: "(nat \<Rightarrow> fault) \<Rightarrow> (tables \<Rightarrow> (error + 'a) \<times> tables) \<Rightarrow> tables \<Rightarrow> (error + 'a) \<times> tables" where
  "serve fs f tb = (let tb' = tb\<lparr>tbCalls := tbCalls tb + 1\<rparr> in
     case fs (tbCalls tb) of
       Served \<Rightarrow> f tb'
     | Refused \<Rightarrow> (Inl (OtherError ''connection refused''), tb')
     | Unanswered \<Rightarrow> (Inl (OtherError ''timeout''), snd (f tb')))"

definition found :: "'o option \<Rightarrow> error + 'o" where
  "found x = (case x of None \<Rightarrow> Inl NotFound | Some y \<Rightarrow> Inr y)"

abbreviation wsTable :: "tables \<Rightarrow> key \<Rightarrow> workspace option" where
  "wsTable tb \<equiv> tableGet (metaKey \<circ> wsMeta) (tbWs tb)"

abbreviation pvcTable :: "tables \<Rightarrow> key \<Rightarrow> persistentVolumeClaim option" where
  "pvcTable tb \<equiv> tableGet (metaKey \<circ> pvcMeta) (tbPvc tb)"

abbreviation pvTable :: "tables \<Rightarrow> string \<Rightarrow> persistentVolume option" where
  "pvTable tb \<equiv> tableGet (Name \<circ> pvMeta) (tbPv tb)"

definition faultyEnv :: "(nat \<Rightarrow> fault) \<Rightarrow> tables env" where
  "faultyEnv fs = \<lparr>clock = \<lambda>tb. (tbNow tb, tb),
     workspaces = refusing\<lparr>
       rGet := \<lambda>k. serve fs (\<lambda>tb. (found (wsTable tb k), tb)),
       rList := \<lambda>ns ls. serve fs (\<lambda>tb. (Inr (filter (\<lambda>x. Namespace (wsMeta x) = ns \<and> selects ls (Labels (wsMeta x)))
         (tableFirsts (metaKey \<circ> wsMeta) (tbWs tb))), tb)),
       rDelete := \<lambda>x. serve fs (\<lambda>tb.
         (map_sum id (\<lambda>_. ()) (found (wsTable tb (metaKey (wsMeta x)))),
          tb\<lparr>tbWs := tableDelete wsMeta wsMeta_update (tbNow tb) (metaKey (wsMeta x)) (tbWs tb)\<rparr>))\<rparr>,
     perUserApps = refusing, deployments = refusing, services = refusing, networkPolicies = refusing,
     claims = refusing\<lparr>
       rGet := \<lambda>k. serve fs (\<lambda>tb. (found (pvcTable tb k), tb)),
       rList := \<lambda>ns ls. serve fs (\<lambda>tb. (Inr (filter (\<lambda>x. Namespace (pvcMeta x) = ns \<and> selects ls (Labels (pvcMeta x)))
         (tableFirsts (metaKey \<circ> pvcMeta) (tbPvc tb))), tb)),
       rPatch := \<lambda>b x. serve fs (\<lambda>tb.
         (found (map_option (mergeClaim b x) (pvcTable tb (metaKey (pvcMeta b)))),
          tb\<lparr>tbPvc := tablePut (metaKey \<circ> pvcMeta) (metaKey (pvcMeta b)) (mergeClaim b x) (tbPvc tb)\<rparr>)),
       rDelete := \<lambda>x. serve fs (\<lambda>tb.
         (map_sum id (\<lambda>_. ()) (found (pvcTable tb (metaKey (pvcMeta x)))),
          tb\<lparr>tbPvc := tableDelete pvcMeta pvcMeta_update (tbNow tb) (metaKey (pvcMeta x)) (tbPvc tb)\<rparr>))\<rparr>,
     volumes = refusing\<lparr>
       rGet := \<lambda>k. serve fs (\<lambda>tb. (found (pvTable tb (snd k)), tb)),
       rPatch := \<lambda>b x. serve fs (\<lambda>tb.
         (found (map_option (mergeVolume b x) (pvTable tb (Name (pvMeta b)))),
          tb\<lparr>tbPv := tablePut (Name \<circ> pvMeta) (Name (pvMeta b)) (mergeVolume b x) (tbPv tb)\<rparr>))\<rparr>,
     pods = refusing, endpointSlices = refusing, storageClasses = refusing, serviceAccounts = refusing,
     roleBindings = refusing,
     setStatusCondition = \<lambda>cs c tb. (listSetCondition (tbNow tb) cs c, tb),
     removeStatusCondition = listRemoveCondition, findStatusCondition = listFindCondition,
     containsFinalizer = \<lambda>fs f. f \<in> set fs, addFinalizer = \<lambda>fs f. if f \<in> set fs then fs else fs @ [f],
     removeFinalizer = \<lambda>fs f. removeAll f fs, jsonMarshal = \<lambda>_. [], quantityString = \<lambda>_. []\<rparr>"

definition tablesView :: "tables \<Rightarrow> store" where
  "tablesView tb = \<lparr>stWs = wsTable tb, stPvc = pvcTable tb, stPv = pvTable tb\<rparr>"

text \<open>A call that is served or executed took effect; a refused one left the tables alone.\<close>

lemma serve_cases:
  assumes "serve fs f tb = (r, tb')"
  obtains (done_) e where "tb' = snd (f (tb\<lparr>tbCalls := tbCalls tb + 1\<rparr>))"
    "r = fst (f (tb\<lparr>tbCalls := tbCalls tb + 1\<rparr>)) \<or> r = Inl (OtherError e)"
  | (refused) e where "tb' = tb\<lparr>tbCalls := tbCalls tb + 1\<rparr>" "r = Inl (OtherError e)"
proof (cases "fs (tbCalls tb)")
  case Served
  with assms show ?thesis by (intro that(1)) (simp_all add: serve_def)
next
  case Refused
  with assms show ?thesis by (intro that(2)) (auto simp: serve_def Let_def)
next
  case Unanswered
  with assms show ?thesis by (intro that(1)) (auto simp: serve_def Let_def)
qed

lemma serve_reads:
  "(\<And>tb. tablesView (snd (f tb)) = tablesView tb) \<Longrightarrow> tablesView (snd (serve fs f tb)) = tablesView tb"
  by (auto simp: serve_def Let_def tablesView_def split: fault.split)

lemma serve_answer:
  "fst (serve fs f tb) = Inr x \<Longrightarrow> fst (f (tb\<lparr>tbCalls := tbCalls tb + 1\<rparr>)) = Inr x"
  "fst (serve fs f tb) = Inl e \<Longrightarrow> IsNotFound e \<Longrightarrow> fst (f (tb\<lparr>tbCalls := tbCalls tb + 1\<rparr>)) = Inl e"
  by (auto simp: serve_def Let_def split: fault.splits)

lemma found_simps [simp]:
  "found x = Inr y \<longleftrightarrow> x = Some y" "found x = Inl e \<longleftrightarrow> x = None \<and> e = NotFound"
  by (auto simp: found_def split: option.splits)

lemma not_acknowledged [simp]: "\<not> acknowledged (Inl (OtherError e))"
  by (simp add: acknowledged_def)

lemma metaKey_annotated: "(metaKey \<circ> pvcMeta) (mergeClaim b x c) = (metaKey \<circ> pvcMeta) c"
  by (simp add: mergeClaim_def metaKey_def)

lemma name_merged: "(Name \<circ> pvMeta) (mergeVolume b x v) = (Name \<circ> pvMeta) v"
  by (simp add: mergeVolume_def)

lemmas table_put = tableGet_put [where mk = "metaKey \<circ> pvcMeta", OF metaKey_annotated]
  tableGet_put [where mk = "Name \<circ> pvMeta", OF name_merged]

lemma mergeClaim_patched: "claimPatched b an cur (mergeClaim b (b\<lparr>pvcMeta := (pvcMeta b)\<lparr>Annotations := an\<rparr>\<rparr>) cur)"
  unfolding claimPatched_def
proof (intro exI conjI allI)
  show "mergeClaim b (b\<lparr>pvcMeta := (pvcMeta b)\<lparr>Annotations := an\<rparr>\<rparr>) cur =
      cur\<lparr>pvcMeta := (pvcMeta cur)\<lparr>Annotations := mergeMap (Annotations (pvcMeta b)) an (Annotations (pvcMeta cur)),
        ResourceVersion := ResourceVersion (pvcMeta cur)\<rparr>\<rparr>"
    by (simp add: mergeClaim_def)
qed (simp add: map_of_mergeMap)

lemma mergeVolume_patched: "volumePatched b p cur (mergeVolume b (b\<lparr>pvReclaimPolicy := p\<rparr>) cur)"
  unfolding volumePatched_def by (rule exI [of _ "ResourceVersion (pvMeta cur)"]) (simp add: mergeVolume_def)

lemma faultyEnv_calls:
  "clock (faultyEnv fs) tb = (tbNow tb, tb)"
  "rGet (claims (faultyEnv fs)) k = serve fs (\<lambda>tb. (found (pvcTable tb k), tb))"
  "rGet (volumes (faultyEnv fs)) k = serve fs (\<lambda>tb. (found (pvTable tb (snd k)), tb))"
  "rList (claims (faultyEnv fs)) ns ls = serve fs (\<lambda>tb.
     (Inr (filter (\<lambda>x. Namespace (pvcMeta x) = ns \<and> selects ls (Labels (pvcMeta x)))
        (tableFirsts (metaKey \<circ> pvcMeta) (tbPvc tb))), tb))"
  "rPatch (claims (faultyEnv fs)) b x = serve fs (\<lambda>tb.
     (found (map_option (mergeClaim b x) (pvcTable tb (metaKey (pvcMeta b)))),
      tb\<lparr>tbPvc := tablePut (metaKey \<circ> pvcMeta) (metaKey (pvcMeta b)) (mergeClaim b x) (tbPvc tb)\<rparr>))"
  "rPatch (volumes (faultyEnv fs)) v u = serve fs (\<lambda>tb.
     (found (map_option (mergeVolume v u) (pvTable tb (Name (pvMeta v)))),
      tb\<lparr>tbPv := tablePut (Name \<circ> pvMeta) (Name (pvMeta v)) (mergeVolume v u) (tbPv tb)\<rparr>))"
  "rDelete (workspaces (faultyEnv fs)) ws = serve fs (\<lambda>tb.
     (map_sum id (\<lambda>_. ()) (found (wsTable tb (metaKey (wsMeta ws)))),
      tb\<lparr>tbWs := tableDelete wsMeta wsMeta_update (tbNow tb) (metaKey (wsMeta ws)) (tbWs tb)\<rparr>))"
  "rDelete (claims (faultyEnv fs)) c = serve fs (\<lambda>tb.
     (map_sum id (\<lambda>_. ()) (found (pvcTable tb (metaKey (pvcMeta c)))),
      tb\<lparr>tbPvc := tableDelete pvcMeta pvcMeta_update (tbNow tb) (metaKey (pvcMeta c)) (tbPvc tb)\<rparr>))"
  by (simp_all add: faultyEnv_def)

lemma tables_delete_workspace:
  assumes "rDelete (workspaces (faultyEnv fs)) ws tb = (d, tb')"
  shows "\<exists>y. tablesView tb' = (tablesView tb)\<lparr>stWs := (stWs (tablesView tb))(metaKey (wsMeta ws) := y)\<rparr> \<and>
      (y = stWs (tablesView tb) (metaKey (wsMeta ws)) \<or> going wsMeta y) \<and> (acknowledged d \<longrightarrow> going wsMeta y)"
  using assms unfolding faultyEnv_calls
proof (cases rule: serve_cases)
  case done_
  then show ?thesis
    by (intro exI [of _ "tableDeleted wsMeta wsMeta_update (tbNow tb) (metaKey (wsMeta ws)) (tbWs tb)"])
      (simp add: tablesView_def tableDelete_get)
next
  case refused
  then show ?thesis by (intro exI [of _ "wsTable tb (metaKey (wsMeta ws))"]) (simp add: tablesView_def)
qed

lemma tables_delete_claim:
  assumes "rDelete (claims (faultyEnv fs)) c tb = (d, tb')"
  shows "\<exists>y. tablesView tb' = (tablesView tb)\<lparr>stPvc := (stPvc (tablesView tb))(metaKey (pvcMeta c) := y)\<rparr> \<and>
      (y = stPvc (tablesView tb) (metaKey (pvcMeta c)) \<or> going pvcMeta y) \<and> (acknowledged d \<longrightarrow> going pvcMeta y)"
  using assms unfolding faultyEnv_calls
proof (cases rule: serve_cases)
  case done_
  then show ?thesis
    by (intro exI [of _ "tableDeleted pvcMeta pvcMeta_update (tbNow tb) (metaKey (pvcMeta c)) (tbPvc tb)"])
      (simp add: tablesView_def tableDelete_get)
next
  case refused
  then show ?thesis by (intro exI [of _ "pvcTable tb (metaKey (pvcMeta c))"]) (simp add: tablesView_def)
qed

lemma tables_patch_claim:
  assumes "rPatch (claims (faultyEnv fs)) b (b\<lparr>pvcMeta := (pvcMeta b)\<lparr>Annotations := an\<rparr>\<rparr>) tb = (r, tb')"
  shows "(tablesView tb' = tablesView tb \<and> (\<exists>e. r = Inl e)) \<or>
      (\<exists>cur new. stPvc (tablesView tb) (metaKey (pvcMeta b)) = Some cur \<and> claimPatched b an cur new \<and>
        tablesView tb' = (tablesView tb)\<lparr>stPvc := (stPvc (tablesView tb))(metaKey (pvcMeta b) \<mapsto> new)\<rparr> \<and>
        (\<forall>y. r = Inr y \<longrightarrow> y = new))"
  using assms unfolding faultyEnv_calls
proof (cases rule: serve_cases)
  case done_
  show ?thesis
  proof (cases "pvcTable tb (metaKey (pvcMeta b))")
    case None
    with done_ show ?thesis by (auto simp: tablesView_def table_put found_def fun_upd_idem)
  next
    case (Some cur)
    with done_ show ?thesis
      by (intro disjI2 exI [of _ cur] exI [of _ "mergeClaim b (b\<lparr>pvcMeta := (pvcMeta b)\<lparr>Annotations := an\<rparr>\<rparr>) cur"])
        (auto simp: tablesView_def table_put found_def mergeClaim_patched)
  qed
next
  case refused
  then show ?thesis by (simp add: tablesView_def)
qed

lemma tables_patch_volume:
  assumes "rPatch (volumes (faultyEnv fs)) v (v\<lparr>pvReclaimPolicy := p\<rparr>) tb = (r, tb')"
  shows "(tablesView tb' = tablesView tb \<and> (\<exists>e. r = Inl e)) \<or>
      (\<exists>cur new. stPv (tablesView tb) (Name (pvMeta v)) = Some cur \<and> volumePatched v p cur new \<and>
        tablesView tb' = (tablesView tb)\<lparr>stPv := (stPv (tablesView tb))(Name (pvMeta v) \<mapsto> new)\<rparr>)"
  using assms unfolding faultyEnv_calls
proof (cases rule: serve_cases)
  case done_
  show ?thesis
  proof (cases "pvTable tb (Name (pvMeta v))")
    case None
    with done_ show ?thesis by (auto simp: tablesView_def table_put found_def fun_upd_idem)
  next
    case (Some cur)
    with done_ show ?thesis
      by (intro disjI2 exI [of _ cur] exI [of _ "mergeVolume v (v\<lparr>pvReclaimPolicy := p\<rparr>) cur"])
        (auto simp: tablesView_def table_put found_def mergeVolume_patched)
  qed
next
  case refused
  then show ?thesis by (simp add: tablesView_def)
qed

lemma tables_reads:
  "tablesView (snd (rGet (claims (faultyEnv fs)) k tb)) = tablesView tb"
  "tablesView (snd (rGet (volumes (faultyEnv fs)) k tb)) = tablesView tb"
  "tablesView (snd (rList (claims (faultyEnv fs)) ns ls tb)) = tablesView tb"
  by (simp_all add: faultyEnv_calls serve_reads)

lemma tables_get_claim:
  "fst (rGet (claims (faultyEnv fs)) k tb) = Inr pvc \<Longrightarrow> stPvc (tablesView tb) k = Some pvc"
  "fst (rGet (claims (faultyEnv fs)) k tb) = Inl e \<Longrightarrow> IsNotFound e \<Longrightarrow> stPvc (tablesView tb) k = None"
  unfolding faultyEnv_calls by (auto dest!: serve_answer simp: tablesView_def)

lemma tables_get_volume:
  "fst (rGet (volumes (faultyEnv fs)) ([], n) tb) = Inr pv \<Longrightarrow> stPv (tablesView tb) n = Some pv"
  "fst (rGet (volumes (faultyEnv fs)) ([], n) tb) = Inl e \<Longrightarrow> IsNotFound e \<Longrightarrow> stPv (tablesView tb) n = None"
  unfolding faultyEnv_calls by (auto dest!: serve_answer simp: tablesView_def)

lemma tables_keys:
  "stPvc (tablesView tb) k = Some pvc \<Longrightarrow> metaKey (pvcMeta pvc) = k"
  "stPv (tablesView tb) n = Some pv \<Longrightarrow> Name (pvMeta pv) = n"
  using tableGet_key [of "metaKey \<circ> pvcMeta" "tbPvc tb" k pvc] tableGet_key [of "Name \<circ> pvMeta" "tbPv tb" n pv]
  by (simp_all add: tablesView_def)

interpretation faulty: api_store "faultyEnv fs" tablesView for fs
  by unfold_locales
    (auto simp: faultyEnv_calls(1) tables_reads dest: tables_keys tables_get_claim tables_get_volume; fail |
      erule tables_patch_claim tables_patch_volume tables_delete_workspace tables_delete_claim)+

lemma tables_list_claims:
  "set (filter (\<lambda>x. Namespace (pvcMeta x) = ns \<and> selects ls (Labels (pvcMeta x))) (tableFirsts (metaKey \<circ> pvcMeta) (tbPvc tb))) =
   {pvc. \<exists>n. pvcTable tb (ns, n) = Some pvc \<and> selects ls (Labels (pvcMeta pvc))}" (is "?l = ?r")
proof (intro equalityI subsetI)
  fix pvc assume "pvc \<in> ?r"
  then obtain n where n: "pvcTable tb (ns, n) = Some pvc" "selects ls (Labels (pvcMeta pvc))" by blast
  then have "metaKey (pvcMeta pvc) = (ns, n)" using tableGet_key [OF n(1)] by simp
  with n show "pvc \<in> ?l" by (simp add: tableFirsts_iff metaKey_def)
qed (auto simp: tableFirsts_iff metaKey_def)

interpretation served: calm_store "faultyEnv (\<lambda>_. Served)" tablesView
proof unfold_locales
  fix ns ls tb
  show "\<exists>pvcs. fst (rList (claims (faultyEnv (\<lambda>_. Served))) ns ls tb) = Inr pvcs \<and>
      set pvcs = {pvc. \<exists>n. stPvc (tablesView tb) (ns, n) = Some pvc \<and> selects ls (Labels (pvcMeta pvc))}"
    using tables_list_claims by (simp add: faultyEnv_calls serve_def tablesView_def del: set_filter)
qed (auto simp: faultyEnv_calls serve_def tablesView_def acknowledged_def found_def split: option.splits)

end
