(* ===== verification/Reclaim_Crash.thy ===== *)
theory Reclaim_Crash
  imports Api_Store Reclaimer
begin

text \<open>
  What a reclamation leaves behind when it is interrupted (\<open>internal/controller/reclaimer.go\<close>, \<open>reclaimWorkspace\<close>
  and \<open>reclaimOrphanedPVCs\<close>): the comment on \<open>reclaimWorkspace\<close> says its order is chosen for what each possible crash
  leaves behind. Here the handlers of \<open>Reclaimer\<close> run against an \<open>api_store\<close>, whose calls may fail at any point, with
  or without having taken effect; since a handler stops at the first error, a run whose calls fail from some call on
  leaves the store of a crash at that call.

  Shown here: whatever fails, no other user's objects change, and a Workspace is only ever deleted once its claim
  carries the stamp and, with deleteVolumeData, its volume is released; a later pass without failures finishes
  every such reclamation. At the end, what the order does not protect: the three ways in which a user who
  comes back while a reclamation is under way loses their data.
\<close>

section \<open>The stores of a reclamation\<close>

definition claimKey :: "perUserApp \<Rightarrow> workspace \<Rightarrow> key" where
  "claimKey app ws = (Namespace (wsMeta ws), childName app ws)"

definition stamped :: "persistentVolumeClaim \<Rightarrow> bool" where
  "stamped pvc \<longleftrightarrow> map_of (Annotations (pvcMeta pvc)) AnnReclaiming \<noteq> None"

definition released :: "store \<Rightarrow> persistentVolumeClaim \<Rightarrow> bool" where
  "released v pvc \<longleftrightarrow> pvcVolumeName pvc = [] \<or>
     (case stPv v (pvcVolumeName pvc) of
        None \<Rightarrow> True | Some pv \<Rightarrow> pvReclaimPolicy pv = PersistentVolumeReclaimDelete)"

text \<open>The same claim but for the stamp and the resource version.\<close>

definition sameButStamp :: "persistentVolumeClaim \<Rightarrow> persistentVolumeClaim \<Rightarrow> bool" where
  "sameButStamp pvc x \<longleftrightarrow>
     (\<exists>an rv. x = pvc\<lparr>pvcMeta := (pvcMeta pvc)\<lparr>Annotations := an, ResourceVersion := rv\<rparr>\<rparr> \<and>
        (\<forall>k. k \<noteq> AnnReclaiming \<longrightarrow> map_of an k = map_of (Annotations (pvcMeta pvc)) k))"

lemma sameButStamp_refl [simp]: "sameButStamp pvc pvc"
  unfolding sameButStamp_def
  by (rule exI [of _ "Annotations (pvcMeta pvc)"], rule exI [of _ "ResourceVersion (pvcMeta pvc)"]) simp

lemma sameButStamp_keeps:
  "sameButStamp pvc x \<Longrightarrow> metaKey (pvcMeta x) = metaKey (pvcMeta pvc)"
  "sameButStamp pvc x \<Longrightarrow> pvcVolumeName x = pvcVolumeName pvc"
  "sameButStamp pvc x \<Longrightarrow> Labels (pvcMeta x) = Labels (pvcMeta pvc)"
  by (auto simp: sameButStamp_def metaKey_def)

lemma claimPatched_stamp:
  assumes "claimPatched b (AList.update AnnReclaiming t (Annotations (pvcMeta b))) b x"
    and "map_of (Annotations (pvcMeta b)) AnnReclaiming = None"
  shows "sameButStamp b x \<and> stamped x"
proof -
  let ?an = "AList.update AnnReclaiming t (Annotations (pvcMeta b))"
  obtain an rv where x: "x = b\<lparr>pvcMeta := (pvcMeta b)\<lparr>Annotations := an, ResourceVersion := rv\<rparr>\<rparr>"
    and an: "\<And>k. map_of an k = (if map_of ?an k = map_of (Annotations (pvcMeta b)) k
        then map_of (Annotations (pvcMeta b)) k else map_of ?an k)"
    using assms(1) unfolding claimPatched_def by blast
  have "\<forall>k. k \<noteq> AnnReclaiming \<longrightarrow> map_of an k = map_of (Annotations (pvcMeta b)) k"
    by (simp add: an update_conv')
  with x have "sameButStamp b x" unfolding sameButStamp_def by blast
  moreover have "stamped x" using assms(2) by (simp add: x stamped_def an update_conv')
  ultimately show ?thesis by blast
qed

section \<open>Triples of the steps\<close>

lemma triple_chain:
  assumes "\<And>v. \<Phi> v \<Longrightarrow> triple (\<lambda>s. view s = v) m (\<lambda>r s. \<Psi> v r (view s))"
  shows "triple (\<lambda>s. \<Phi> (view s)) m (\<lambda>r s. \<exists>v. \<Phi> v \<and> \<Psi> v r (view s))"
  using assms unfolding triple_def by blast

definition releasedVolume :: "store \<Rightarrow> persistentVolumeClaim \<Rightarrow> error option \<Rightarrow> store \<Rightarrow> bool" where
  "releasedVolume v pvc r v' \<longleftrightarrow> stWs v' = stWs v \<and> stPvc v' = stPvc v \<and>
     (\<forall>n. pvcVolumeName pvc = n \<or> stPv v' n = stPv v n) \<and> (r = None \<longrightarrow> released v' pvc)"

definition stampedClaim :: "store \<Rightarrow> persistentVolumeClaim \<Rightarrow> error + persistentVolumeClaim \<Rightarrow> store \<Rightarrow> bool" where
  "stampedClaim v pvc r v' \<longleftrightarrow>
     (\<exists>x. v' = v\<lparr>stPvc := (stPvc v)(metaKey (pvcMeta pvc) \<mapsto> x)\<rparr> \<and> sameButStamp pvc x \<and>
        (\<forall>y. r = Inr y \<longrightarrow> stamped x \<and> metaKey (pvcMeta y) = metaKey (pvcMeta pvc)))"

definition deletedBoth :: "key \<Rightarrow> key \<Rightarrow> store \<Rightarrow> error option \<Rightarrow> store \<Rightarrow> bool" where
  "deletedBoth wk ck v r v' \<longleftrightarrow>
     (\<exists>x y. v' = v\<lparr>stWs := (stWs v)(wk := x), stPvc := (stPvc v)(ck := y)\<rparr> \<and>
        (x = stWs v wk \<or> going wsMeta x) \<and> (y = stPvc v ck \<or> going wsMeta x \<and> going pvcMeta y) \<and>
        (r = None \<longrightarrow> going wsMeta x \<and> going pvcMeta y))"

lemma stampedClaim_unchanged:
  assumes "stPvc v (metaKey (pvcMeta pvc)) = Some pvc" and "\<forall>y. r = Inr y \<longrightarrow> stamped pvc \<and> y = pvc"
  shows "stampedClaim v pvc r v"
  unfolding stampedClaim_def by (rule exI [of _ pvc]) (use assms in \<open>auto simp: map_upd_triv\<close>)

lemma acknowledged_iff: "acknowledged r \<longleftrightarrow> ignoreNotFound r = None"
  by (simp add: acknowledged_def)

lemma deletedBoth_first:
  assumes "v' = v\<lparr>stWs := (stWs v)(wk := x)\<rparr>" and "x = stWs v wk \<or> going wsMeta x"
  shows "deletedBoth wk ck v (Some e) v'"
  unfolding deletedBoth_def by (rule exI [of _ x], rule exI [of _ "stPvc v ck"]) (use assms in simp)

text \<open>What one reclamation leaves, however it ends: the other objects as they were, and of the workspace one of
  three stages: nothing deleted; the Workspace deleted and the stamped claim left, its volume released; all deleted.\<close>

definition untouched :: "perUserApp \<Rightarrow> workspace \<Rightarrow> store \<Rightarrow> store \<Rightarrow> bool" where
  "untouched app ws v v' \<longleftrightarrow> stWs v' (metaKey (wsMeta ws)) = stWs v (metaKey (wsMeta ws)) \<and>
     (case stPvc v (claimKey app ws) of
        None \<Rightarrow> stPvc v' (claimKey app ws) = None
      | Some pvc \<Rightarrow> \<exists>x. stPvc v' (claimKey app ws) = Some x \<and> sameButStamp pvc x)"

definition dataReleased :: "perUserApp \<Rightarrow> reclaimSpec \<Rightarrow> workspace \<Rightarrow> store \<Rightarrow> store \<Rightarrow> bool" where
  "dataReleased app rc ws v v' \<longleftrightarrow>
     (\<forall>pvc. stPvc v (claimKey app ws) = Some pvc \<longrightarrow> DeleteVolumeData rc \<longrightarrow> released v' pvc)"

definition halfDone :: "perUserApp \<Rightarrow> reclaimSpec \<Rightarrow> workspace \<Rightarrow> store \<Rightarrow> store \<Rightarrow> bool" where
  "halfDone app rc ws v v' \<longleftrightarrow> going wsMeta (stWs v' (metaKey (wsMeta ws))) \<and> dataReleased app rc ws v v' \<and>
     (\<exists>pvc x. stPvc v (claimKey app ws) = Some pvc \<and> stPvc v' (claimKey app ws) = Some x \<and> sameButStamp pvc x \<and> stamped x)"

definition allDone :: "perUserApp \<Rightarrow> reclaimSpec \<Rightarrow> workspace \<Rightarrow> store \<Rightarrow> store \<Rightarrow> bool" where
  "allDone app rc ws v v' \<longleftrightarrow> going wsMeta (stWs v' (metaKey (wsMeta ws))) \<and> dataReleased app rc ws v v' \<and>
     going pvcMeta (stPvc v' (claimKey app ws))"

definition othersKept :: "perUserApp \<Rightarrow> reclaimSpec \<Rightarrow> workspace \<Rightarrow> store \<Rightarrow> store \<Rightarrow> bool" where
  "othersKept app rc ws v v' \<longleftrightarrow>
     (\<forall>k. k \<noteq> metaKey (wsMeta ws) \<longrightarrow> stWs v' k = stWs v k) \<and>
     (\<forall>k. k \<noteq> claimKey app ws \<longrightarrow> snd k \<noteq> [] \<longrightarrow> stPvc v' k = stPvc v k) \<and>
     (\<forall>n. (\<exists>pvc. DeleteVolumeData rc \<and> stPvc v (claimKey app ws) = Some pvc \<and> pvcVolumeName pvc = n) \<or> stPv v' n = stPv v n)"

definition reclaimLeft :: "perUserApp \<Rightarrow> reclaimSpec \<Rightarrow> workspace \<Rightarrow> store \<Rightarrow> error option \<Rightarrow> store \<Rightarrow> bool" where
  "reclaimLeft app rc ws v r v' \<longleftrightarrow> othersKept app rc ws v v' \<and>
     (untouched app ws v v' \<or> halfDone app rc ws v v' \<or> allDone app rc ws v v') \<and>
     (r = None \<longrightarrow> allDone app rc ws v v')"

lemmas reclaimLeft_defs = reclaimLeft_def untouched_def halfDone_def allDone_def othersKept_def dataReleased_def

text \<open>The store after the release of the volume, where it is asked for.\<close>

definition afterRelease :: "reclaimSpec \<Rightarrow> store \<Rightarrow> persistentVolumeClaim \<Rightarrow> error option \<Rightarrow> store \<Rightarrow> bool" where
  "afterRelease rc v pvc r v' \<longleftrightarrow> (if DeleteVolumeData rc then releasedVolume v pvc r v' else v' = v \<and> r = None)"

lemma reclaimLeft_unchanged [simp]: "reclaimLeft app rc ws v (Some e) v"
  by (auto simp: reclaimLeft_defs split: option.split)

lemma left_released:
  assumes "stPvc v (claimKey app ws) = Some pvc" and "afterRelease rc v pvc (Some e) v'"
  shows "reclaimLeft app rc ws v (Some e) v'"
  using assms by (auto simp: reclaimLeft_defs afterRelease_def releasedVolume_def split: if_splits)

lemma left_stamped:
  assumes "stPvc v (claimKey app ws) = Some pvc" and "metaKey (pvcMeta pvc) = claimKey app ws"
    and "afterRelease rc v pvc None v1" and "stampedClaim v1 pvc (Inl e) v'"
  shows "reclaimLeft app rc ws v (Some e) v'"
  using assms by (auto simp: reclaimLeft_defs afterRelease_def releasedVolume_def stampedClaim_def split: if_splits)

lemma claimKey_named [simp]: "snd (claimKey app ws) \<noteq> []" "claimKey app ws \<noteq> (n, [])"
  by (auto simp: claimKey_def childName_def ChildName_def)

lemma left_missing:
  assumes "stPvc v (claimKey app ws) = None" and "deletedBoth (metaKey (wsMeta ws)) ([], []) v r v'"
  shows "reclaimLeft app rc ws v r v'"
  using assms by (auto simp: reclaimLeft_defs deletedBoth_def going_def [of pvcMeta])

lemma left_deleted:
  assumes "stPvc v (claimKey app ws) = Some pvc" and "metaKey (pvcMeta pvc) = claimKey app ws"
    and "afterRelease rc v pvc None v1" and "stampedClaim v1 pvc (Inr p) v2"
    and "deletedBoth (metaKey (wsMeta ws)) (metaKey (pvcMeta p)) v2 r v'"
  shows "reclaimLeft app rc ws v r v'"
proof -
  obtain x where x: "v2 = v1\<lparr>stPvc := (stPvc v1)(claimKey app ws \<mapsto> x)\<rparr>" "sameButStamp pvc x" "stamped x"
    "metaKey (pvcMeta p) = claimKey app ws"
    using assms(2,4) unfolding stampedClaim_def by auto
  have v1: "stWs v1 = stWs v" "stPvc v1 = stPvc v" "DeleteVolumeData rc \<Longrightarrow> released v1 pvc"
    "\<forall>n. DeleteVolumeData rc \<and> pvcVolumeName pvc = n \<or> stPv v1 n = stPv v n"
    using assms(3) by (auto simp: afterRelease_def releasedVolume_def split: if_splits)
  obtain y z where v': "v' = v2\<lparr>stWs := (stWs v2)(metaKey (wsMeta ws) := y), stPvc := (stPvc v2)(claimKey app ws := z)\<rparr>"
    and y: "y = stWs v (metaKey (wsMeta ws)) \<or> going wsMeta y" and z: "z = Some x \<or> going wsMeta y \<and> going pvcMeta z"
    and r: "r = None \<longrightarrow> going wsMeta y \<and> going pvcMeta z"
    using assms(5) unfolding deletedBoth_def by (auto simp: x v1)
  have rel: "dataReleased app rc ws v v'"
    using v1(3) assms(1) by (auto simp: dataReleased_def released_def v' x(1))
  have others: "othersKept app rc ws v v'"
    using v1(4) assms(1) by (auto simp: othersKept_def v' x(1) v1(1,2))
  have "untouched app ws v v' \<or> halfDone app rc ws v v' \<or> allDone app rc ws v v'"
    using y z rel x(2,3) assms(1) by (auto simp: untouched_def halfDone_def allDone_def v')
  moreover have "r = None \<longrightarrow> allDone app rc ws v v'" using r rel by (auto simp: allDone_def v')
  ultimately show ?thesis using others unfolding reclaimLeft_def by blast
qed

definition claimSwept :: "key \<Rightarrow> store \<Rightarrow> store \<Rightarrow> bool" where
  "claimSwept k v v' \<longleftrightarrow> (\<exists>x. v' = v\<lparr>stPvc := (stPvc v)(k := x)\<rparr> \<and> (x = stPvc v k \<or> going pvcMeta x))"

definition sweptClaims ::
    "perUserApp \<Rightarrow> workspace list \<Rightarrow> persistentVolumeClaim list \<Rightarrow> store \<Rightarrow> store \<Rightarrow> bool" where
  "sweptClaims app items pvcs v v' \<longleftrightarrow> stWs v' = stWs v \<and> stPv v' = stPv v \<and>
     (\<forall>k. stPvc v' k = stPvc v k \<or>
        going pvcMeta (stPvc v' k) \<and> (\<exists>pvc\<in>set pvcs. orphaned app items pvc \<and> metaKey (pvcMeta pvc) = k))"

lemma sweptClaims_step:
  assumes "claimSwept (metaKey (pvcMeta pvc)) v v1" and "sweptClaims app items pvcs v1 v'" and "orphaned app items pvc"
  shows "sweptClaims app items (pvc # pvcs) v v'"
proof -
  obtain x where x: "v1 = v\<lparr>stPvc := (stPvc v)(metaKey (pvcMeta pvc) := x)\<rparr>" "x = stPvc v (metaKey (pvcMeta pvc)) \<or> going pvcMeta x"
    using assms(1) unfolding claimSwept_def by blast
  have "stPvc v' k = stPvc v k \<or> going pvcMeta (stPvc v' k) \<and>
      (\<exists>c\<in>set (pvc # pvcs). orphaned app items c \<and> metaKey (pvcMeta c) = k)" for k
  proof -
    have "stPvc v' k = stPvc v1 k \<or> going pvcMeta (stPvc v' k) \<and> (\<exists>c\<in>set pvcs. orphaned app items c \<and> metaKey (pvcMeta c) = k)"
      using assms(2) unfolding sweptClaims_def by blast
    then show ?thesis using x assms(3) by (cases "k = metaKey (pvcMeta pvc)") auto
  qed
  then show ?thesis using assms(2) x(1) unfolding sweptClaims_def by simp
qed

lemma sweptClaims_Cons: "sweptClaims app items pvcs v v' \<Longrightarrow> sweptClaims app items (pvc # pvcs) v v'"
  unfolding sweptClaims_def by auto

text \<open>The claims a sweep of the app lists, and the store after a sweep that reached all of them.\<close>

definition appClaims :: "perUserApp \<Rightarrow> store \<Rightarrow> persistentVolumeClaim set" where
  "appClaims app v = {pvc. \<exists>n. stPvc v (Namespace (appMeta app), n) = Some pvc \<and>
     map_of (Labels (pvcMeta pvc)) LabelApp = Some (appName app)}"

definition sweptExactly :: "perUserApp \<Rightarrow> workspace list \<Rightarrow> store \<Rightarrow> store \<Rightarrow> bool" where
  "sweptExactly app items v v' \<longleftrightarrow> stWs v' = stWs v \<and> stPv v' = stPv v \<and>
     (\<forall>k. if \<exists>pvc\<in>appClaims app v. metaKey (pvcMeta pvc) = k \<and> orphaned app items pvc
           then going pvcMeta (stPvc v' k) else stPvc v' k = stPvc v k)"

lemma sweptClaims_exactly:
  assumes "sweptClaims app items pvcs v v'" and "set pvcs = appClaims app v"
    and "\<forall>pvc\<in>set pvcs. orphaned app items pvc \<longrightarrow> going pvcMeta (stPvc v' (metaKey (pvcMeta pvc)))"
  shows "sweptExactly app items v v'"
  using assms unfolding sweptClaims_def sweptExactly_def by metis

context api_store
begin

lemma releaseVolume_triple:
  "triple (\<lambda>s. view s = v) (releaseVolume env pvc) (\<lambda>r s. releasedVolume v pvc r (view s))"
proof -
  let ?got = "\<lambda>g s. view s = v \<and> (\<forall>pv. g = Inr pv \<longrightarrow> stPv v (pvcVolumeName pvc) = Some pv) \<and>
    (\<forall>e. g = Inl e \<longrightarrow> IsNotFound e \<longrightarrow> stPv v (pvcVolumeName pvc) = None)"
  have get: "triple (\<lambda>s. view s = v) (doGet (volumes env) KPV ([], pvcVolumeName pvc)) ?got"
    using get_volume get_volume_none get_volume_reads by (intro triple_doGet) (metis fst_conv snd_conv)
  have patch: "triple (\<lambda>s. view s = v \<and> stPv v (pvcVolumeName pvc) = Some pv \<and> pvReclaimPolicy pv \<noteq> PersistentVolumeReclaimDelete)
      (doPatch (volumes env) PvObj pv (pv\<lparr>pvReclaimPolicy := PersistentVolumeReclaimDelete\<rparr>))
      (\<lambda>p s. releasedVolume v pvc (errOf p) (view s))" for pv
  proof (rule triple_doPatch)
    fix s r s'
    assume got: "view s = v \<and> stPv v (pvcVolumeName pvc) = Some pv \<and> pvReclaimPolicy pv \<noteq> PersistentVolumeReclaimDelete"
      and "rPatch (volumes env) pv (pv\<lparr>pvReclaimPolicy := PersistentVolumeReclaimDelete\<rparr>) s = (r, s')"
    then have n: "Name (pvMeta pv) = pvcVolumeName pvc" using volume_key by blast
    from patch_volume [OF \<open>rPatch _ _ _ s = (r, s')\<close>] got show "releasedVolume v pvc (errOf r) (view s')"
      by (auto simp: releasedVolume_def released_def volumePatched_def n split: if_splits)
  qed
  show ?thesis
    unfolding releaseVolume_def
    by (intro triple_rules triple_bind [OF get] triple_bind [OF triple_pre [OF patch]])
      (auto simp: releasedVolume_def released_def split: if_splits)
qed

lemma markReclaiming_triple:
  assumes "stPvc v (metaKey (pvcMeta pvc)) = Some pvc"
  shows "triple (\<lambda>s. view s = v) (markReclaiming env pvc) (\<lambda>r s. stampedClaim v pvc r (view s))"
proof -
  have clock: "triple (\<lambda>s. view s = v) (now env) (\<lambda>t s. view s = v)"
    using clock_reads by (intro triple_now) (metis snd_conv)
  have patch: "triple (\<lambda>s. view s = v) (doPatch (claims env) PvcObj pvc (pvc\<lparr>pvcMeta := (pvcMeta pvc)\<lparr>Annotations :=
      AList.update AnnReclaiming t (Annotations (pvcMeta pvc))\<rparr>\<rparr>)) (\<lambda>r s. stampedClaim v pvc r (view s))"
    if "map_of (Annotations (pvcMeta pvc)) AnnReclaiming = None" for t
  proof (rule triple_doPatch)
    fix s r s'
    assume v: "view s = v" and "rPatch (claims env) pvc (pvc\<lparr>pvcMeta := (pvcMeta pvc)\<lparr>Annotations :=
      AList.update AnnReclaiming t (Annotations (pvcMeta pvc))\<rparr>\<rparr>) s = (r, s')"
    from patch_claim [OF this(2)] consider "view s' = v" "\<exists>e. r = Inl e"
      | new where "claimPatched pvc (AList.update AnnReclaiming t (Annotations (pvcMeta pvc))) pvc new"
        "view s' = v\<lparr>stPvc := (stPvc v)(metaKey (pvcMeta pvc) \<mapsto> new)\<rparr>" "\<forall>y. r = Inr y \<longrightarrow> y = new"
      using assms unfolding v by auto
    then show "stampedClaim v pvc r (view s')"
    proof cases
      case 1
      then show ?thesis using stampedClaim_unchanged [OF assms] by auto
    next
      case (2 new)
      then show ?thesis
        using claimPatched_stamp [OF 2(1) that] sameButStamp_keeps(1) [of pvc new] unfolding stampedClaim_def
        by (intro exI [of _ new]) auto
    qed
  qed
  show ?thesis
    unfolding markReclaiming_def
    by (intro triple_rules triple_bind [OF clock] patch)
      (simp_all add: stampedClaim_unchanged [OF assms] stamped_def)
qed

lemma deleteBoth_triple:
  "triple (\<lambda>s. view s = v) (deleteBoth env app ws pvc)
     (\<lambda>r s. deletedBoth (metaKey (wsMeta ws)) (metaKey (pvcMeta pvc)) v r (view s))"
proof -
  let ?wk = "metaKey (wsMeta ws)" and ?ck = "metaKey (pvcMeta pvc)"
  let ?gone = "\<lambda>d s. \<exists>x. view s = v\<lparr>stWs := (stWs v)(?wk := x)\<rparr> \<and>
    (x = stWs v ?wk \<or> going wsMeta x) \<and> (acknowledged d \<longrightarrow> going wsMeta x)"
  have one: "triple (\<lambda>s. view s = v) (doDelete (workspaces env) WsObj ws) ?gone"
    by (rule triple_doDelete) (drule delete_workspace, simp)
  have two: "triple (\<lambda>s. \<exists>x. view s = v\<lparr>stWs := (stWs v)(?wk := x)\<rparr> \<and> going wsMeta x) (doDelete (claims env) PvcObj pvc)
      (\<lambda>d s. deletedBoth ?wk ?ck v (ignoreNotFound d) (view s))"
  proof (rule triple_doDelete)
    fix s d s'
    assume "\<exists>x. view s = v\<lparr>stWs := (stWs v)(?wk := x)\<rparr> \<and> going wsMeta x" and del: "rDelete (claims env) pvc s = (d, s')"
    then obtain x where x: "view s = v\<lparr>stWs := (stWs v)(?wk := x)\<rparr>" "going wsMeta x" by blast
    from delete_claim [OF del] obtain y where y: "view s' = (view s)\<lparr>stPvc := (stPvc (view s))(?ck := y)\<rparr>"
      "y = stPvc (view s) ?ck \<or> going pvcMeta y" "acknowledged d \<longrightarrow> going pvcMeta y" by blast
    show "deletedBoth ?wk ?ck v (ignoreNotFound d) (view s')"
      unfolding deletedBoth_def by (rule exI [of _ x], rule exI [of _ y]) (use x y in \<open>auto simp: acknowledged_def\<close>)
  qed
  show ?thesis
    unfolding deleteBoth_def
    by (intro triple_rules triple_bind [OF one] triple_bind [OF triple_pre [OF two]])
      (auto simp: acknowledged_iff simp del: ignoreNotFound_simps elim: deletedBoth_first)
qed

lemma reclaimWorkspace_triple:
  "triple (\<lambda>s. view s = v) (reclaimWorkspace env app rc ws) (\<lambda>r s. reclaimLeft app rc ws v r (view s))"
proof -
  let ?ck = "claimKey app ws"
  define own where "own pvc \<longleftrightarrow> stPvc v ?ck = Some pvc \<and> metaKey (pvcMeta pvc) = ?ck" for pvc
  define marked where "marked pvc k v' \<longleftrightarrow> own pvc \<and> (\<exists>v1. afterRelease rc v pvc None v1 \<and> stampedClaim v1 pvc k v')" for pvc k v'
  have get: "triple (\<lambda>s. view s = v) (doGet (claims env) KPVC (Namespace (wsMeta ws), childName app ws))
      (\<lambda>g s. view s = v \<and> (\<forall>pvc. g = Inr pvc \<longrightarrow> own pvc) \<and>
        (\<forall>e. g = Inl e \<longrightarrow> IsNotFound e \<longrightarrow> stPvc v ?ck = None))"
  proof (rule triple_doGet)
    fix s g s' assume v: "view s = v" and "rGet (claims env) (Namespace (wsMeta ws), childName app ws) s = (g, s')"
    then have got: "fst (rGet (claims env) ?ck s) = g" and "view s' = v"
      using get_claim_reads [of ?ck s] by (simp_all add: claimKey_def)
    then show "view s' = v \<and> (\<forall>pvc. g = Inr pvc \<longrightarrow> own pvc) \<and> (\<forall>e. g = Inl e \<longrightarrow> IsNotFound e \<longrightarrow> stPvc v ?ck = None)"
      using get_claim [of ?ck s] get_claim_none [of ?ck s] claim_key [of s ?ck] unfolding v own_def by simp
  qed
  have release: "triple (\<lambda>s. view s = v \<and> own pvc) (if DeleteVolumeData rc then releaseVolume env pvc else ret None)
      (\<lambda>r s. own pvc \<and> afterRelease rc v pvc r (view s))" for pvc
    using releaseVolume_triple [of v pvc] by (auto simp: afterRelease_def triple_def)
  have mark: "triple (\<lambda>s. own pvc \<and> afterRelease rc v pvc None (view s)) (markReclaiming env pvc)
      (\<lambda>k s. marked pvc k (view s))" for pvc
  proof -
    have "triple (\<lambda>s. view s = v1) (markReclaiming env pvc) (\<lambda>k s. stampedClaim v1 pvc k (view s))"
      if "own pvc \<and> afterRelease rc v pvc None v1" for v1
      using that by (intro markReclaiming_triple) (auto simp: own_def afterRelease_def releasedVolume_def split: if_splits)
    from triple_chain [where \<Phi> = "\<lambda>v1. own pvc \<and> afterRelease rc v pvc None v1", OF this] show ?thesis by (rule triple_mono) (auto simp: marked_def)
  qed
  have both: "triple (\<lambda>s. marked pvc (Inr p) (view s)) (deleteBoth env app ws p)
      (\<lambda>r s. reclaimLeft app rc ws v r (view s))" for pvc p
    using triple_chain [where \<Phi> = "marked pvc (Inr p)", OF deleteBoth_triple]
    by (rule triple_mono) (auto simp: marked_def own_def intro: left_deleted)
  have none: "triple (\<lambda>s. view s = v \<and> stPvc v ?ck = None) (deleteBoth env app ws zeroPVC)
      (\<lambda>r s. reclaimLeft app rc ws v r (view s))"
    using triple_chain [where \<Phi> = "\<lambda>v'. v' = v \<and> stPvc v ?ck = None", OF deleteBoth_triple]
    by (rule triple_mono) (auto simp: zeroPVC_def zeroMeta_def metaKey_def intro: left_missing)
  show ?thesis
    unfolding reclaimWorkspace_def
    by (intro triple_rules triple_bind [OF get] triple_bind [OF triple_pre [OF release]] triple_bind [OF triple_pre [OF mark]]
        triple_pre [OF both] triple_pre [OF none])
      (auto simp: own_def marked_def reclaimLeft_unchanged intro: left_released left_stamped)
qed

text \<open>The sweep: every claim it changes is deleted, stamped, and belongs to no listed workspace.\<close>

lemma deleteOrphans_triple:
  "triple (\<lambda>s. view s = v) (deleteOrphans env app items pvcs err) (\<lambda>r s. sweptClaims app items pvcs v (view s))"
proof (induction pvcs arbitrary: v err)
  case Nil
  then show ?case by (auto intro: triple_return simp: sweptClaims_def)
next
  case (Cons pvc pvcs)
  have del: "triple (\<lambda>s. view s = v) (doDelete (claims env) PvcObj pvc) (\<lambda>d s. claimSwept (metaKey (pvcMeta pvc)) v (view s))"
    by (rule triple_doDelete) (drule delete_claim, auto simp: claimSwept_def)
  have rest: "triple (\<lambda>s. claimSwept (metaKey (pvcMeta pvc)) v (view s)) (deleteOrphans env app items pvcs err')
      (\<lambda>r s. sweptClaims app items (pvc # pvcs) v (view s))" if "orphaned app items pvc" for err'
    using triple_chain [where \<Phi> = "claimSwept (metaKey (pvcMeta pvc)) v", OF Cons.IH]
    by (rule triple_mono) (auto simp: that intro: sweptClaims_step)
  show ?case
  proof (cases "orphaned app items pvc")
    case True
    then show ?thesis by (auto intro!: triple_rules triple_bind [OF del] rest)
  next
    case False
    then show ?thesis using triple_mono [OF Cons.IH [of v err] _ sweptClaims_Cons [of app items pvcs v _ pvc]] by simp
  qed
qed

end

section \<open>Without failures\<close>

context calm_store
begin

lemma releaseVolume_calm: "triple (\<lambda>_. True) (releaseVolume env pvc) (\<lambda>r _. r = None)"
proof -
  have get: "triple (\<lambda>_. True) (doGet (volumes env) KPV ([], pvcVolumeName pvc))
      (\<lambda>g s. (\<forall>pv. g = Inr pv \<longrightarrow> stPv (view s) (Name (pvMeta pv)) = Some pv) \<and> (\<forall>e. g = Inl e \<longrightarrow> IsNotFound e))"
  proof (rule triple_doGet)
    fix s g s' assume "rGet (volumes env) ([], pvcVolumeName pvc) s = (g, s')"
    then have "fst (rGet (volumes env) ([], pvcVolumeName pvc) s) = g" "view s' = view s"
      using get_volume_reads [of "([], pvcVolumeName pvc)" s] by simp_all
    then show "(\<forall>pv. g = Inr pv \<longrightarrow> stPv (view s') (Name (pvMeta pv)) = Some pv) \<and> (\<forall>e. g = Inl e \<longrightarrow> IsNotFound e)"
      using get_volume volume_key calm_get_volume by metis
  qed
  have patch: "triple (\<lambda>s. stPv (view s) (Name (pvMeta pv)) \<noteq> None)
      (doPatch (volumes env) PvObj pv (pv\<lparr>pvReclaimPolicy := PersistentVolumeReclaimDelete\<rparr>)) (\<lambda>p _. \<exists>y. p = Inr y)" for pv
    using calm_patch_volume by (intro triple_doPatch) (metis fst_conv)
  show ?thesis
    unfolding releaseVolume_def
    by (intro triple_rules triple_bind [OF get] triple_bind [OF triple_pre [OF patch]]) simp_all
qed

lemma markReclaiming_calm:
  "triple (\<lambda>s. stPvc (view s) (metaKey (pvcMeta pvc)) \<noteq> None) (markReclaiming env pvc) (\<lambda>k _. \<exists>y. k = Inr y)"
proof -
  have clock: "triple (\<lambda>s. stPvc (view s) (metaKey (pvcMeta pvc)) \<noteq> None) (now env)
      (\<lambda>t s. stPvc (view s) (metaKey (pvcMeta pvc)) \<noteq> None)"
    using clock_reads by (intro triple_now) (metis snd_conv)
  have patch: "triple (\<lambda>s. stPvc (view s) (metaKey (pvcMeta pvc)) \<noteq> None) (doPatch (claims env) PvcObj pvc x) (\<lambda>k _. \<exists>y. k = Inr y)" for x
    using calm_patch_claim by (intro triple_doPatch) (metis fst_conv)
  show ?thesis
    unfolding markReclaiming_def by (intro triple_rules triple_bind [OF clock] patch) simp_all
qed

lemma deleteBoth_calm: "triple (\<lambda>_. True) (deleteBoth env app ws pvc) (\<lambda>r _. r = None)"
proof -
  have one: "triple (\<lambda>_. True) (doDelete (workspaces env) WsObj ws) (\<lambda>d _. acknowledged d)"
    using calm_delete_workspace by (intro triple_doDelete) (metis fst_conv)
  have two: "triple (\<lambda>_. True) (doDelete (claims env) PvcObj pvc) (\<lambda>d _. acknowledged d)"
    using calm_delete_claim by (intro triple_doDelete) (metis fst_conv)
  show ?thesis
    unfolding deleteBoth_def
    by (intro triple_rules triple_bind [OF one] triple_bind [OF triple_pre [OF two]])
      (auto simp: acknowledged_iff simp del: ignoreNotFound_simps)
qed

lemma reclaimWorkspace_calm: "triple (\<lambda>s. view s = v) (reclaimWorkspace env app rc ws) (\<lambda>r _. r = None)"
proof -
  let ?ck = "claimKey app ws"
  have get: "triple (\<lambda>s. view s = v) (doGet (claims env) KPVC (Namespace (wsMeta ws), childName app ws))
      (\<lambda>g s. view s = v \<and> (\<forall>pvc. g = Inr pvc \<longrightarrow> stPvc v (metaKey (pvcMeta pvc)) = Some pvc) \<and> (\<forall>e. g = Inl e \<longrightarrow> IsNotFound e))"
  proof (rule triple_doGet)
    fix s g s' assume "view s = v" and "rGet (claims env) (Namespace (wsMeta ws), childName app ws) s = (g, s')"
    then have "view s = v" "fst (rGet (claims env) ?ck s) = g" "view s' = v"
      using get_claim_reads [of ?ck s] by (simp_all add: claimKey_def)
    then show "view s' = v \<and> (\<forall>pvc. g = Inr pvc \<longrightarrow> stPvc v (metaKey (pvcMeta pvc)) = Some pvc) \<and> (\<forall>e. g = Inl e \<longrightarrow> IsNotFound e)"
      using get_claim claim_key calm_get_claim by metis
  qed
  have release: "triple (\<lambda>s. view s = v \<and> stPvc v (metaKey (pvcMeta pvc)) = Some pvc)
      (if DeleteVolumeData rc then releaseVolume env pvc else ret None)
      (\<lambda>r s. stPvc (view s) (metaKey (pvcMeta pvc)) \<noteq> None \<and> r = None)" for pvc
    using releaseVolume_triple [of v pvc] releaseVolume_calm [of pvc] by (auto simp: triple_def releasedVolume_def)
  show ?thesis
    unfolding reclaimWorkspace_def
    by (intro triple_rules triple_bind [OF get] triple_bind [OF triple_pre [OF release]]
        triple_bind [OF triple_pre [OF markReclaiming_calm]] triple_pre [OF deleteBoth_calm]) auto
qed

lemma deleteOrphans_calm:
  "triple (\<lambda>s. \<forall>k\<in>K. going pvcMeta (stPvc (view s) k)) (deleteOrphans env app items pvcs err)
     (\<lambda>r s. r = err \<and> (\<forall>k \<in> K \<union> metaKey ` pvcMeta ` {pvc \<in> set pvcs. orphaned app items pvc}. going pvcMeta (stPvc (view s) k)))"
proof (induction pvcs arbitrary: K)
  case Nil
  then show ?case by (auto intro: triple_return)
next
  case (Cons pvc pvcs)
  show ?case
  proof (cases "orphaned app items pvc")
    case True
    have del: "triple (\<lambda>s. \<forall>k\<in>K. going pvcMeta (stPvc (view s) k)) (doDelete (claims env) PvcObj pvc)
        (\<lambda>d s. ignoreNotFound d = None \<and> (\<forall>k \<in> insert (metaKey (pvcMeta pvc)) K. going pvcMeta (stPvc (view s) k)))"
    proof (rule triple_doDelete)
      fix s d s' assume K: "\<forall>k\<in>K. going pvcMeta (stPvc (view s) k)" and d: "rDelete (claims env) pvc s = (d, s')"
      then have "acknowledged d" using calm_delete_claim [of pvc s] by simp
      with delete_claim [OF d] K
      show "ignoreNotFound d = None \<and> (\<forall>k \<in> insert (metaKey (pvcMeta pvc)) K. going pvcMeta (stPvc (view s') k))"
        by (auto simp: acknowledged_iff simp del: ignoreNotFound_simps)
    qed
    have "triple (\<lambda>s. \<forall>k\<in>K. going pvcMeta (stPvc (view s) k)) (deleteOrphans env app items (pvc # pvcs) err)
        (\<lambda>r s. r = err \<and> (\<forall>k \<in> insert (metaKey (pvcMeta pvc)) K \<union> metaKey ` pvcMeta ` {c \<in> set pvcs. orphaned app items c}.
          going pvcMeta (stPvc (view s) k)))"
      unfolding deleteOrphans.simps
      by (intro triple_rules triple_bind [OF del] triple_pre [OF Cons.IH [of "insert (metaKey (pvcMeta pvc)) K"]])
        (auto simp: True simp del: ignoreNotFound_simps intro: triple_return)
    then show ?thesis by (rule triple_mono) (auto simp: True)
  next
    case False
    with Cons.IH [of K] show ?thesis by (auto elim!: triple_mono)
  qed
qed

text \<open>A sweep without failures deletes the stamped claims of the app that belong to no listed workspace, and
  nothing else.\<close>

lemma reclaimOrphanedPVCs_calm:
  "triple (\<lambda>s. view s = v) (reclaimOrphanedPVCs env app items) (\<lambda>r s. r = None \<and> sweptExactly app items v (view s))"
proof -
  let ?ns = "Namespace (appMeta app)"
  let ?ls = "[(LabelApp, appName app)]"
  have l: "triple (\<lambda>s. view s = v) (doList (claims env) KPVC ?ns ?ls)
      (\<lambda>l s. view s = v \<and> (\<exists>pvcs. l = Inr pvcs \<and> set pvcs = appClaims app v))"
  proof (rule triple_doList)
    fix s l s' assume "view s = v" and "rList (claims env) ?ns ?ls s = (l, s')"
    then show "view s' = v \<and> (\<exists>pvcs. l = Inr pvcs \<and> set pvcs = appClaims app v)"
      using list_claims_reads [of ?ns ?ls s] calm_list_claims [of ?ns ?ls s] by (simp add: selects_def appClaims_def)
  qed
  have sweep: "triple (\<lambda>s. view s = v) (deleteOrphans env app items pvcs None)
      (\<lambda>r s. r = None \<and> sweptClaims app items pvcs v (view s) \<and>
        (\<forall>pvc\<in>set pvcs. orphaned app items pvc \<longrightarrow> going pvcMeta (stPvc (view s) (metaKey (pvcMeta pvc)))))" for pvcs
    using triple_conj [OF deleteOrphans_triple triple_pre [OF deleteOrphans_calm [of "{}"]]] by (rule triple_mono) auto
  have swept: "triple (\<lambda>s. view s = v \<and> set pvcs = appClaims app v) (deleteOrphans env app items pvcs None)
      (\<lambda>r s. r = None \<and> sweptExactly app items v (view s))" for pvcs
  proof (cases "set pvcs = appClaims app v")
    case True
    with sweep [of pvcs] show ?thesis by (elim triple_mono) (auto intro: sweptClaims_exactly)
  qed (auto simp: triple_def)
  show ?thesis
    unfolding reclaimOrphanedPVCs_def by (intro triple_rules triple_bind [OF l] triple_pre [OF swept]) auto
qed

end

section \<open>Crash safety\<close>

text \<open>The sweep reaches every stamped claim of the app whose workspace is not listed; so it finishes a
  half-done reclamation.\<close>

lemma sweep_reaches:
  assumes swept: "sweptExactly app items v v'" and pvc: "stPvc v (claimKey app ws) = Some pvc" "stamped pvc"
    and key: "metaKey (pvcMeta pvc) = claimKey app ws" and ns: "Namespace (wsMeta ws) = Namespace (appMeta app)"
    and label: "map_of (Labels (pvcMeta pvc)) LabelApp = Some (appName app)"
    and gone: "childName app ws \<notin> childName app ` set items"
  shows "going pvcMeta (stPvc v' (claimKey app ws))"
proof -
  have own: "pvc \<in> appClaims app v" using pvc(1) label ns unfolding appClaims_def claimKey_def by auto
  have orph: "DeletionTimestamp (pvcMeta pvc) = None \<Longrightarrow> orphaned app items pvc"
    using pvc(2) key gone by (auto simp: orphaned_def stamped_def claimKey_def metaKey_def)
  have "if \<exists>c\<in>appClaims app v. metaKey (pvcMeta c) = claimKey app ws \<and> orphaned app items c
      then going pvcMeta (stPvc v' (claimKey app ws)) else stPvc v' (claimKey app ws) = Some pvc"
    using swept pvc(1) unfolding sweptExactly_def by metis
  then show ?thesis
    using key own orph by (cases "DeletionTimestamp (pvcMeta pvc)") (auto simp: going_def [of _ "Some pvc"] split: if_splits)
qed

lemma sweep_finishes:
  assumes half: "halfDone app rc ws v v1" and swept: "sweptExactly app items v1 v2"
    and key: "\<And>pvc. stPvc v1 (claimKey app ws) = Some pvc \<Longrightarrow> metaKey (pvcMeta pvc) = claimKey app ws"
    and ns: "Namespace (wsMeta ws) = Namespace (appMeta app)"
    and label: "\<And>pvc. stPvc v (claimKey app ws) = Some pvc \<Longrightarrow> map_of (Labels (pvcMeta pvc)) LabelApp = Some (appName app)"
    and gone: "childName app ws \<notin> childName app ` set items"
  shows "allDone app rc ws v v2"
proof -
  obtain pvc x where x: "stPvc v (claimKey app ws) = Some pvc" "stPvc v1 (claimKey app ws) = Some x" "sameButStamp pvc x" "stamped x"
    using half unfolding halfDone_def by blast
  have "going pvcMeta (stPvc v2 (claimKey app ws))"
    using sweep_reaches [OF swept x(2,4) key [OF x(2)] ns _ gone] label [OF x(1)] sameButStamp_keeps(3) [OF x(3)] by simp
  then show ?thesis
    using half swept by (auto simp: allDone_def halfDone_def dataReleased_def sweptExactly_def released_def)
qed

text \<open>Claim C4. Crash safety of reclamation. Let a reclamation of \<open>ws\<close> run against an API server whose calls may fail
  at any point, with or without having taken effect. However it ends, every other Workspace, every other named claim and
  every volume but the one bound to the claim (and that one too, unless deleteVolumeData is set) is as before, and
  the workspace itself is in one of three states: nothing deleted, at most the stamp added to the claim; the
  Workspace deleted, the claim there and stamped, with deleteVolumeData its volume released; or all deleted, the volume
  released. No error means all deleted. And if calls no longer fail, trying again deletes all that is left; and once the
  Workspace is no longer listed, the sweep for orphaned claims finishes a reclamation that was stopped half-way.\<close>

theorem reclaim_survives_crashes:
  assumes "api_store env view" and "calm_store env' view"
    and "run_state (reclaimWorkspace env app rc ws) w = (r, w1)"
    and "view (cluster w') = view (cluster w1)"
    and "run_state (reclaimWorkspace env' app rc ws) w' = (r2, w2)"
    and "run_state (reclaimOrphanedPVCs env' app items) w' = (r3, w3)"
  shows "othersKept app rc ws (view (cluster w)) (view (cluster w1)) \<and>
    (untouched app ws (view (cluster w)) (view (cluster w1)) \<or> halfDone app rc ws (view (cluster w)) (view (cluster w1)) \<or>
     allDone app rc ws (view (cluster w)) (view (cluster w1))) \<and>
    (r = None \<longrightarrow> allDone app rc ws (view (cluster w)) (view (cluster w1))) \<and>
    (r2 = None \<and> allDone app rc ws (view (cluster w1)) (view (cluster w2))) \<and>
    (halfDone app rc ws (view (cluster w)) (view (cluster w1)) \<and> Namespace (wsMeta ws) = Namespace (appMeta app) \<and>
     (\<forall>pvc. stPvc (view (cluster w)) (claimKey app ws) = Some pvc \<longrightarrow>
        map_of (Labels (pvcMeta pvc)) LabelApp = Some (appName app)) \<and>
     childName app ws \<notin> childName app ` set items \<longrightarrow>
       r3 = None \<and> allDone app rc ws (view (cluster w)) (view (cluster w3)))"
proof -
  have left: "reclaimLeft app rc ws (view (cluster w)) r (view (cluster w1))"
    using tripleD [OF api_store.reclaimWorkspace_triple [OF assms(1)] assms(3)] by simp
  have store': "api_store env' view" using assms(2) by (rule calm_store.axioms)
  have retry: "r2 = None" "reclaimLeft app rc ws (view (cluster w1)) r2 (view (cluster w2))"
    using tripleD [OF calm_store.reclaimWorkspace_calm [OF assms(2)] assms(5)]
      tripleD [OF api_store.reclaimWorkspace_triple [OF store'] assms(5)] assms(4) by simp_all
  have sweep: "r3 = None \<and> sweptExactly app items (view (cluster w1)) (view (cluster w3))"
    using tripleD [OF calm_store.reclaimOrphanedPVCs_calm [OF assms(2)] assms(6)] assms(4) by simp
  have "allDone app rc ws (view (cluster w)) (view (cluster w3))"
    if "halfDone app rc ws (view (cluster w)) (view (cluster w1))" "Namespace (wsMeta ws) = Namespace (appMeta app)"
      "\<forall>pvc. stPvc (view (cluster w)) (claimKey app ws) = Some pvc \<longrightarrow> map_of (Labels (pvcMeta pvc)) LabelApp = Some (appName app)"
      "childName app ws \<notin> childName app ` set items"
    using sweep_finishes [OF that(1) conjunct2 [OF sweep] _ that(2) _ that(4)] api_store.claim_key [OF assms(1)] that(3) by blast
  then show ?thesis using left retry sweep unfolding reclaimLeft_def by blast
qed

text \<open>Two users, of which the first is reclaimed; the API server goes away between the two deletions.\<close>

definition crashTables :: tables where
  "crashTables = \<lparr>tbWs = [idleWs ''u1'' 0, readyWs ''u2'' 0],
     tbPvc = [(RenderWorkspacePVC sampleApp (idleWs ''u1'' 0))\<lparr>pvcVolumeName := ''pv-1''\<rparr>,
              (RenderWorkspacePVC sampleApp (readyWs ''u2'' 0))\<lparr>pvcVolumeName := ''pv-2''\<rparr>],
     tbPv = [\<lparr>pvMeta = zeroMeta\<lparr>Name := ''pv-1''\<rparr>, pvReclaimPolicy = ''Retain''\<rparr>,
             \<lparr>pvMeta = zeroMeta\<lparr>Name := ''pv-2''\<rparr>, pvReclaimPolicy = ''Retain''\<rparr>],
     tbNow = 900 * second, tbCalls = 0\<rparr>"

definition crashAt :: "nat \<Rightarrow> nat \<Rightarrow> fault" where
  "crashAt n i = (if i < n then Served else Refused)"

abbreviation crashStart :: "(tables, event) world" where
  "crashStart \<equiv> \<lparr>cluster = crashTables, trace = []\<rparr>"

abbreviation crashRun :: "error option \<times> (tables, event) world" where
  "crashRun \<equiv> run_state (reclaimWorkspace (faultyEnv (crashAt 5)) sampleApp sampleReclaim (idleWs ''u1'' 0)) crashStart"

lemmas crash_eval = reclaim_steps faultyEnv_calls serve_def crashAt_def crashTables_def client_defs tableGet_def tablePut_def
  tableDelete_def tableRemove_def tablesView_def found_def mergeVolume_def mergeClaim_def metaKey_def RenderWorkspacePVC_def
  childName_def ChildName_def claimKey_def sample_defs Let_def PersistentVolumeReclaimDelete_def ignoreNotFound_def

lemma crash_run:
  "stWs (tablesView (cluster (snd crashRun))) (''ns'', ''app-u1'') = None \<and>
   \<not> going pvcMeta (stPvc (tablesView (cluster (snd crashRun))) (''ns'', ''app-u1''))"
  by (simp add: crash_eval going_def puc_consts)

lemma crash_start:
  "stWs (tablesView crashTables) (''ns'', ''app-u1'') \<noteq> None"
  "stPvc (tablesView crashTables) (claimKey sampleApp (idleWs ''u1'' 0)) =
     Some ((RenderWorkspacePVC sampleApp (idleWs ''u1'' 0))\<lparr>pvcVolumeName := ''pv-1''\<rparr>)"
  "metaKey (wsMeta (idleWs ''u1'' 0)) = (''ns'', ''app-u1'')" "claimKey sampleApp (idleWs ''u1'' 0) = (''ns'', ''app-u1'')"
  "Namespace (wsMeta (idleWs ''u1'' 0)) = Namespace (appMeta sampleApp)"
  "childName sampleApp (idleWs ''u1'' 0) \<notin> childName sampleApp ` set [readyWs ''u2'' 0]"
  by (simp_all add: crash_eval puc_consts)

theorem reclaim_survives_crashes_witness:
  "\<exists>r3 w3. halfDone sampleApp sampleReclaim (idleWs ''u1'' 0) (tablesView crashTables) (tablesView (cluster (snd crashRun))) \<and>
     othersKept sampleApp sampleReclaim (idleWs ''u1'' 0) (tablesView crashTables) (tablesView (cluster (snd crashRun))) \<and>
     run_state (reclaimOrphanedPVCs (faultyEnv (\<lambda>_. Served)) sampleApp [readyWs ''u2'' 0]) (snd crashRun) = (r3, w3) \<and>
     r3 = None \<and> allDone sampleApp sampleReclaim (idleWs ''u1'' 0) (tablesView crashTables) (tablesView (cluster w3))"
proof -
  obtain r2 w2 where retry: "run_state (reclaimWorkspace (faultyEnv (\<lambda>_. Served)) sampleApp sampleReclaim (idleWs ''u1'' 0)) (snd crashRun) = (r2, w2)"
    by fastforce
  obtain r3 w3 where sweep: "run_state (reclaimOrphanedPVCs (faultyEnv (\<lambda>_. Served)) sampleApp [readyWs ''u2'' 0]) (snd crashRun) = (r3, w3)"
    by fastforce
  note crash = reclaim_survives_crashes [OF faulty.api_store_axioms served.calm_store_axioms
      surjective_pairing [of crashRun] refl retry sweep]
  have "\<not> untouched sampleApp (idleWs ''u1'' 0) (tablesView crashTables) (tablesView (cluster (snd crashRun)))"
    "\<not> allDone sampleApp sampleReclaim (idleWs ''u1'' 0) (tablesView crashTables) (tablesView (cluster (snd crashRun)))"
    using crash_run crash_start(1) by (auto simp: untouched_def allDone_def crash_start(3,4))
  with crash have half: "halfDone sampleApp sampleReclaim (idleWs ''u1'' 0) (tablesView crashTables) (tablesView (cluster (snd crashRun)))"
    by simp
  moreover have "\<forall>pvc. stPvc (tablesView crashTables) (claimKey sampleApp (idleWs ''u1'' 0)) = Some pvc \<longrightarrow>
      map_of (Labels (pvcMeta pvc)) LabelApp = Some (appName sampleApp)"
    unfolding crash_start(2) by (simp add: RenderWorkspacePVC_def puc_consts)
  ultimately show ?thesis using crash crash_start(5,6) sweep unfolding world.select_convs by blast
qed

section \<open>What the order does not protect\<close>

text \<open>The deletions name an object, they carry neither its resource version nor its UID. So a reclamation decided on
  a listing deletes whatever Workspace is stored under the name by then: one its user has woken since, with open
  connections, and its claim.\<close>

theorem stale_listing_deletes_active:
  assumes "calm_store env view" and "stWs (view (cluster w)) (metaKey (wsMeta ws)) = Some cur"
    and "phase cur = PhaseReady" and "0 < freshConnectionCount cur app t"
    and "run_state (reclaimWorkspace env app rc ws) w = (r, w')"
  shows "r = None \<and> going wsMeta (stWs (view (cluster w')) (metaKey (wsMeta ws))) \<and>
    going pvcMeta (stPvc (view (cluster w')) (claimKey app ws))"
proof -
  have "r = None" using tripleD [OF calm_store.reclaimWorkspace_calm [OF assms(1)] assms(5)] by simp
  moreover have "reclaimLeft app rc ws (view (cluster w)) r (view (cluster w'))"
    using tripleD [OF api_store.reclaimWorkspace_triple [OF calm_store.axioms(1) [OF assms(1)]] assms(5)] by simp
  ultimately show ?thesis by (simp add: reclaimLeft_def allDone_def)
qed

text \<open>The sweep compares claims with Workspaces that were listed before them: a user whose Workspace is created
  again in between, and whose stamped claim the reconciler has taken over, loses the claim to it.\<close>

theorem stale_sweep_deletes_claim:
  assumes "calm_store env view" and "stWs (view (cluster w)) (metaKey (wsMeta cur)) = Some cur"
    and "Namespace (wsMeta cur) = Namespace (appMeta app)"
    and "stPvc (view (cluster w)) (claimKey app cur) = Some pvc"
    and "map_of (Labels (pvcMeta pvc)) LabelApp = Some (appName app)" and "stamped pvc"
    and "childName app cur \<notin> childName app ` set items"
    and "run_state (reclaimOrphanedPVCs env app items) w = (r, w')"
  shows "stWs (view (cluster w')) (metaKey (wsMeta cur)) = Some cur \<and> going pvcMeta (stPvc (view (cluster w')) (claimKey app cur))"
proof -
  have swept: "sweptExactly app items (view (cluster w)) (view (cluster w'))"
    using tripleD [OF calm_store.reclaimOrphanedPVCs_calm [OF assms(1)] assms(8)] by simp
  have key: "metaKey (pvcMeta pvc) = claimKey app cur"
    using api_store.claim_key [OF calm_store.axioms(1) [OF assms(1)] assms(4)] .
  show ?thesis using sweep_reaches [OF swept assms(4,6) key assms(3,5,7)] swept assms(2) by (simp add: sweptExactly_def)
qed

text \<open>Nothing takes the stamp or the policy back: a reclamation stopped before its first deletion leaves
  the user's Workspace in use with a stamped claim on a volume set to Delete. When that Workspace is deleted
  for another reason, however much later, the sweep deletes the claim and with it the data.\<close>

theorem interrupted_reclamation_arms_claim:
  "let v = tablesView (cluster (snd (run_state (reclaimWorkspace (faultyEnv (crashAt 4)) sampleApp sampleReclaim
       (idleWs ''u1'' 0)) crashStart))) in
   stWs v (''ns'', ''app-u1'') = Some (idleWs ''u1'' 0) \<and> (\<exists>x. stPvc v (''ns'', ''app-u1'') = Some x \<and> stamped x) \<and>
   (\<exists>pv. stPv v ''pv-1'' = Some pv \<and> pvReclaimPolicy pv = PersistentVolumeReclaimDelete)"
  by (simp add: crash_eval stamped_def puc_consts mergeMap_def)

end
