(* ===== verification/Phase_Progress.thy ===== *)
theory Phase_Progress
  imports Workspace_Controller
begin

text \<open>
  The phase machine of \<open>internal/controller/workspace_controller.go\<close> from the side of progress. \<open>Workspace_Controller\<close> shows
  that a pass changes the phase only along the rows of the table; here, that it does change it: when the calls of a
  pass are answered (\<open>answering_calls\<close>, and \<open>answering_cluster\<close> with the write of the status), the phase after the
  pass is exactly the function \<open>nextPhase\<close> of the workspace, its Deployment, its pods, the time and the fleet, and the
  pass stores it.

  Shown here as well: with a claim of the size asked for (\<open>fitting_claim\<close>) a wake-up goes through to Ready; with one that
  matches in every respect (\<open>matching_claim\<close>) the reconciler is quiet at rest; and what a volume that was rounded up and
  a status that was not stored lead to.
\<close>

section \<open>The next phase\<close>

definition crashLooping :: "pod list \<Rightarrow> bool" where
  "crashLooping ps = (case ps of [] \<Rightarrow> False | p # _ \<Rightarrow> firstWaitingReason p = crashLoopBackOffReason)"

definition deadlinePassed :: "workspace \<Rightarrow> gotime \<Rightarrow> bool" where
  "deadlinePassed ws t = (case StartDeadline (wsStatus ws) of None \<Rightarrow> False | Some d \<Rightarrow> d \<le> t)"

definition backoffHolds :: "workspace \<Rightarrow> gotime \<Rightarrow> bool" where
  "backoffHolds ws t = (case BackoffUntil (wsStatus ws) of None \<Rightarrow> False | Some u \<Rightarrow> t < u)"

definition nextPhase ::
    "('s, 'x) env_scheme \<Rightarrow> perUserApp \<Rightarrow> workspace \<Rightarrow> deployment option \<Rightarrow> pod list \<Rightarrow> gotime \<Rightarrow> workspace list \<Rightarrow> Phase" where
  "nextPhase env app ws dep ps t items =
     (case phase ws of
        PhasePending \<Rightarrow>
          if \<not> migrationGate env app \<and> \<not> backoffHolds ws t \<and> admitDecision ws app items then PhaseStarting else PhasePending
      | PhaseStarting \<Rightarrow>
          if dep \<noteq> None \<and> 1 \<le> depReadyReplicas (the dep) then PhaseReady
          else if dep = None \<and> BackoffUntil (wsStatus ws) \<noteq> None \<or> crashLooping ps \<or> deadlinePassed ws t then PhaseFailed
          else PhaseStarting
      | PhaseReady \<Rightarrow>
          if WakeRequestedAt (wsStatus ws) \<noteq> None then PhasePending
          else if ScaledDown (wsStatus ws) \<and> ps = [] then PhaseIdle else PhaseReady
      | PhaseIdle \<Rightarrow> if WakeRequestedAt (wsStatus ws) \<noteq> None then PhasePending else PhaseIdle
      | PhaseFailed \<Rightarrow>
          (case BackoffUntil (wsStatus ws) of None \<Rightarrow> PhaseFailed | Some u \<Rightarrow> if u < t then PhasePending else PhaseFailed)
      | p \<Rightarrow> p)"

locale answering_calls =
  fixes env :: "('s, 'x) env_scheme" and ns :: string and app :: perUserApp and user :: string
    and dep :: "deployment option" and ps :: "pod list" and t :: gotime and items :: "workspace list"
    and pvcs :: "persistentVolumeClaim list"
  assumes time: "fst (clock env c) = t"
    and workspaces_listed: "fst (rList (workspaces env) ns [(LabelApp, appName app)] c) = Inr items"
    and claims_listed: "fst (rList (claims env) ns [(LabelApp, appName app), (LabelUserKey, user)] c) = Inr pvcs"
    and one_claim: "length pvcs \<le> 1"
    and claim_created: "fst (rCreate (claims env) p c) = Inl e \<Longrightarrow> IsAlreadyExists e"
    and claim_patched: "\<exists>y. fst (rPatch (claims env) p q c) = Inr y"
    and policies_written: "fst (rCreateOrUpdate (networkPolicies env) np f c) = Inr ()"
    and deployment_created: "fst (rCreate (deployments env) d c) = Inl e \<Longrightarrow> IsAlreadyExists e"
    and deployment_read: "fst (rGet (deployments env) (ns, ChildName (appName app) user) c) =
        (case dep of None \<Rightarrow> Inl NotFound | Some d \<Rightarrow> Inr d)"
    and deployment_patched: "\<exists>y. fst (rPatch (deployments env) d d' c) = Inr y"
    and service_created: "fst (rCreate (services env) sv c) = Inl e \<Longrightarrow> IsAlreadyExists e"
    and pods_listed: "fst (rList (pods env) ns (WorkspacePodLabels (appName app) user) c) = Inr ps"
begin

lemma answered:
  "fst (rCreateOrUpdate (networkPolicies env) np f c) \<noteq> Inl e"
  "fst (rPatch (claims env) p q c) \<noteq> Inl e" "fst (rPatch (deployments env) d d' c) \<noteq> Inl e"
  using policies_written claim_patched deployment_patched by (metis Inr_not_Inl)+

lemma ensurePolicies_answers: "obeys (ensurePolicies env nps) (\<lambda>e _. e = None)"
proof (induction nps)
  case (Cons np nps)
  then show ?case by (auto intro!: obeys_rules simp: policies_written)
qed (simp add: obeys_return)

lemma policies_answer: "obeys (ensureWorkspaceNetworkPolicies env r ws app) (\<lambda>x _. x = (Inr (), ws))"
  unfolding ensureWorkspaceNetworkPolicies_def by (intro obeys_rules obeys_mono [OF ensurePolicies_answers]) simp

lemma existing_answers:
  "obeys (reconcileExistingPVC env ws app pvc) (\<lambda>x _. fst x = Inr False \<and> storageStep ws (snd x))"
  by (rule obeys_mono [OF obeys_conj [OF _ reconcileExistingPVC_step]])
    (auto simp: reconcileExistingPVC_def answered intro!: obeys_rules)

text \<open>A workspace of this user whose storage is not to be shrunk.\<close>

definition ours :: "workspace \<Rightarrow> bool" where
  "ours ws \<longleftrightarrow> Namespace (wsMeta ws) = ns \<and> wsUserKey (wsSpec ws) = user \<and> \<not> shrinks ws app"

lemma storage_answers:
  assumes "ours ws"
  shows "obeys (reconcilePVC env ws app b) (\<lambda>x _. fst x = Inr False \<and> storageStep ws (snd x))"
proof (rule obeys_mono [OF obeys_conj [OF _ reconcilePVC_step]])
  have pvc: "length pvcs \<noteq> 0 \<Longrightarrow> length pvcs = 1" using one_claim by linarith
  show "obeys (reconcilePVC env ws app b) (\<lambda>x _. fst x = Inr False)"
    unfolding reconcilePVC_def
    using assms claims_listed pvc claim_created
    by (intro obeys_rules obeys_mono [OF existing_answers]) (auto simp: ours_def clearCondition_def)
qed simp

lemma withStorage_answers:
  assumes "ours ws" and "\<And>ws'. storageStep ws ws' \<Longrightarrow> obeys (k ws') (\<lambda>x _. Q x)"
  shows "obeys (withStorage env r ws app k) (\<lambda>x _. Q x)"
  unfolding withStorage_def
  by (intro obeys_andThen obeys_mono [OF storage_answers [OF assms(1)]])
    (auto intro!: obeys_rules obeys_mono [OF policies_answer] assms(2))

lemma deployment_answers:
  assumes "Namespace (wsMeta ws) = ns" and "wsUserKey (wsSpec ws) = user"
  shows "obeys (ensureDeployment env ws app n) (\<lambda>x _. x = (Inr (), ws))"
  unfolding ensureDeployment_def
  using deployment_read answered(3) assms
  by (intro obeys_rules) (auto split: option.splits sum.splits)

lemma pods_answer:
  assumes "Namespace (wsMeta ws) = ns" and "wsUserKey (wsSpec ws) = user"
  shows "obeys (podsOf env ws app) (\<lambda>x _. x = (Inr ps, ws))"
  unfolding podsOf_def using pods_listed assms by (intro obeys_rules) auto

lemma children_answer:
  assumes "Namespace (wsMeta ws) = ns" and "wsUserKey (wsSpec ws) = user"
  shows "obeys (startChildren env r ws app) (\<lambda>x _. x = (Inr Done, ws))"
proof -
  have pol: "obeys (startPolicies env r ws app) (\<lambda>x _. x = (Inr Done, ws))"
    unfolding startPolicies_def
    by (intro obeys_andThen obeys_mono [OF policies_answer]) (auto intro!: obeys_rules)
  show ?thesis
    unfolding startChildren_def
    by (intro obeys_andThen obeys_bind obeys_doCreate obeys_case_option)
      (use deployment_created service_created in
        \<open>auto intro!: obeys_return obeys_bind obeys_doCreate obeys_case_option obeys_if obeys_mono [OF deployment_answers [OF assms]]
          obeys_mono [OF pol] elim!: errOf.elims\<close>)
qed

section \<open>The rows\<close>

definition reaches :: "workspace \<Rightarrow> (error + result) \<times> workspace \<Rightarrow> bool" where
  "reaches ws x \<longleftrightarrow> (\<exists>res. fst x = Inr res) \<and> phase (snd x) = nextPhase env app ws dep ps t items"

lemma admission_answers:
  assumes "ours ws"
  shows "obeys (TryAdmit env ws app)
      (\<lambda>a _. a = Inr (\<not> migrationGate env app \<and> \<not> backoffHolds ws t \<and> admitDecision ws app items))"
  unfolding TryAdmit_def inBackoff_def
  using assms time workspaces_listed
  by (intro obeys_rules) (auto simp: ours_def backoffHolds_def split: option.splits)

lemma pending_reaches:
  assumes "ours ws" and "phase ws = PhasePending" and "rAdmitter r = NewAdmitter env"
  shows "obeys (reconcilePending env r ws app) (\<lambda>x _. reaches ws x)"
proof -
  have start: "obeys (andThen (reconcilePVC env ws' app True) (\<lambda>refused ws.
        if refused then ret (Inr Done, setStatus (\<lambda>s. s\<lparr>wsPhase := PhasePending, StartDeadline := None\<rparr>) ws)
        else startChildren env r ws app)) (\<lambda>x _. fst x = Inr Done \<and> phase (snd x) = phase ws')" if "ours ws'" for ws'
    using that
    by (intro obeys_andThen obeys_mono [OF storage_answers [OF that]])
      (auto simp: ours_def dest: storageStep_status intro!: obeys_mono [OF children_answer])
  show ?thesis
    unfolding reconcilePending_def assms(3) NewAdmitter_def admitter.simps
    by (rule obeys_bind, rule obeys_mono [OF admission_answers [OF assms(1)]])
      (auto intro!: obeys_return obeys_bind obeys_now obeys_mono [OF start]
        simp: reaches_def nextPhase_def assms(2) ours_def shrinks_def assms(1) [unfolded ours_def shrinks_def])
qed

text \<open>The Deployment is created with the children, before the pass stores anything of the status.\<close>

lemma pending_creates:
  assumes "ours ws" and "rAdmitter r = NewAdmitter env"
    and "\<not> migrationGate env app" and "\<not> backoffHolds ws t" and "admitDecision ws app items"
  shows "obeys (reconcilePending env r ws app) (\<lambda>x es. fst x = Inr Done \<and> phase (snd x) = PhaseStarting \<and>
    (\<exists>d er. Api (Create (DepObj d)) er \<in> set es \<and> Name (depMeta d) = ChildName (appName app) user))"
proof -
  have children: "obeys (startChildren env r ws' app) (\<lambda>x es. x = (Inr Done, ws') \<and>
      (\<exists>d er. Api (Create (DepObj d)) er \<in> set es \<and> Name (depMeta d) = ChildName (appName app) user))"
    if "Namespace (wsMeta ws') = ns" "wsUserKey (wsSpec ws') = user" for ws'
  proof (rule obeys_mono [OF obeys_conj [OF children_answer [OF that]]])
    have "Name (depMeta (RenderWorkspaceDeployment env app ws')) = ChildName (appName app) user"
      by (simp add: RenderWorkspaceDeployment_def childName_def that Let_def)
    then show "obeys (startChildren env r ws' app)
        (\<lambda>x es. \<exists>d er. Api (Create (DepObj d)) er \<in> set es \<and> Name (depMeta d) = ChildName (appName app) user)"
      unfolding startChildren_def
      by (intro obeys_rules) (auto intro!: obeys_rules split: sum.splits)
  qed simp
  have start: "obeys (andThen (reconcilePVC env ws' app True) (\<lambda>refused ws.
        if refused then ret (Inr Done, setStatus (\<lambda>s. s\<lparr>wsPhase := PhasePending, StartDeadline := None\<rparr>) ws)
        else startChildren env r ws app)) (\<lambda>x es. fst x = Inr Done \<and> phase (snd x) = phase ws' \<and>
      (\<exists>d er. Api (Create (DepObj d)) er \<in> set es \<and> Name (depMeta d) = ChildName (appName app) user))" if "ours ws'" for ws'
    using that
    by (intro obeys_andThen obeys_mono [OF storage_answers [OF that]])
      (auto simp: ours_def dest: storageStep_status intro!: obeys_mono [OF children])
  have adm: "obeys (TryAdmit env ws app) (\<lambda>a _. a = Inr True)"
    using admission_answers [OF assms(1)] assms(3-5) by simp
  have starting: "ours (setStatus (\<lambda>s. s\<lparr>wsPhase := PhaseStarting, StartDeadline := Some d\<rparr>) ws)" for d
    using assms(1) by (simp add: ours_def shrinks_def)
  show ?thesis
    unfolding reconcilePending_def assms(2) NewAdmitter_def admitter.simps
    by (rule obeys_bind, rule obeys_mono [OF adm])
      (auto intro!: obeys_bind obeys_now obeys_mono [OF start] simp: starting, blast)
qed

lemma starting_reaches:
  assumes "ours ws" and "phase ws = PhaseStarting" and "rAdmitter r = NewAdmitter env"
  shows "obeys (reconcileStarting env r ws app) (\<lambda>x _. reaches ws x)"
proof -
  have fail: "obeys (failStarting env r ws' app rs) (\<lambda>x _. phase x = PhaseFailed)" for ws' rs
    by (rule real_admitter.failStarting_wp [OF assms(3)]) simp
  have deadline: "obeys (checkDeadline env r ws' app) (\<lambda>x _. (\<exists>res. fst x = Inr res) \<and>
      phase (snd x) = (if deadlinePassed ws t then PhaseFailed else PhaseStarting))"
    if "StartDeadline (wsStatus ws') = StartDeadline (wsStatus ws)" "phase ws' = PhaseStarting" for ws'
    unfolding checkDeadline_def that(1)
    using that(2) time by (intro obeys_rules obeys_mono [OF fail]) (auto simp: deadlinePassed_def split: option.splits)
  have inspect: "obeys (inspectPod env r ws' app (firstPod ps)) (\<lambda>x _. (\<exists>res. fst x = Inr res) \<and>
      phase (snd x) = (if crashLooping ps \<or> deadlinePassed ws t then PhaseFailed else PhaseStarting))"
    if "storageStep ws ws'" for ws'
    unfolding inspectPod_def
    using storageStep_status [OF that] assms(2)
    by (intro obeys_rules obeys_mono [OF fail] obeys_mono [OF deadline])
      (auto simp: crashLooping_def firstPod_def split: list.splits)
  have exit: "obeys (startingExit env r ws' app (firstPod ps)) (\<lambda>x _. reaches ws x)" if "storageStep ws ws'" for ws'
    unfolding startingExit_def transitionToReady_def
    using storageStep_status [OF that] assms(1,2) deployment_read
    by (intro obeys_rules obeys_mono [OF inspect [OF that]])
      (auto simp: reaches_def nextPhase_def ours_def split: option.splits)
  show ?thesis
    unfolding reconcileStarting_def
  proof (rule withStorage_answers [OF assms(1)])
    fix ws' assume step: "storageStep ws ws'"
    with assms(1) have "Namespace (wsMeta ws') = ns" "wsUserKey (wsSpec ws') = user"
      using storageStep_status [OF step] by (simp_all add: ours_def)
    then show "obeys (andThen (podsOf env ws' app) (\<lambda>items ws. startingExit env r ws app (firstPod items))) (\<lambda>x _. reaches ws x)"
      by (intro obeys_andThen obeys_mono [OF pods_answer]) (auto intro!: exit [OF step])
  qed
qed

lemma ready_reaches:
  assumes "ours ws" and "phase ws = PhaseReady"
  shows "obeys (reconcileReady env r ws app) (\<lambda>x _. reaches ws x)"
  unfolding reconcileReady_def
proof (rule withStorage_answers [OF assms(1)])
  fix ws' assume "storageStep ws ws'"
  note facts = storageStep_status [OF this]
  have own: "Namespace (wsMeta ws') = ns" "wsUserKey (wsSpec ws') = user" using assms(1) facts by (simp_all add: ours_def)
  show "obeys (if WakeRequestedAt (wsStatus ws') \<noteq> None then ret (Inr Done, wake ws')
      else if ScaledDown (wsStatus ws')
      then andThen (ensureDeployment env ws' app 0) (\<lambda>_ ws. andThen (podsOf env ws app) (\<lambda>items ws.
        if length items = 0 then ret (Inr Done, setStatus (\<lambda>s. s\<lparr>wsPhase := PhaseIdle\<rparr>) ws)
        else ret (Inr (RequeueAfter (steadyStateInterval r)), ws)))
      else ret (Inr Done, ws')) (\<lambda>x _. reaches ws x)"
    by (intro obeys_if obeys_return obeys_andThen obeys_mono [OF deployment_answers [OF own]])
      (auto simp: reaches_def nextPhase_def facts assms(2) wake_def
        intro!: obeys_return obeys_andThen obeys_mono [OF pods_answer [OF own]])
qed

lemma idle_reaches:
  assumes "ours ws" and "phase ws = PhaseIdle"
  shows "obeys (reconcileIdle env r ws app) (\<lambda>x _. reaches ws x)"
  unfolding reconcileIdle_def
  by (rule withStorage_answers [OF assms(1)])
    (auto simp: reaches_def nextPhase_def storageStep_status assms(2) wake_def intro!: obeys_return)

lemma failed_reaches:
  assumes "phase ws = PhaseFailed"
  shows "obeys (reconcileFailed env ws) (\<lambda>x _. reaches ws x)"
  unfolding reconcileFailed_def
  using time assms by (intro obeys_rules) (auto simp: reaches_def nextPhase_def)

lemma phase_reaches:
  assumes "ours ws" and "rAdmitter r = NewAdmitter env"
  shows "obeys (reconcilePhase env r ws app) (\<lambda>x _. reaches ws x)"
  unfolding reconcilePhase_def
  using pending_reaches [OF assms(1) _ assms(2)] starting_reaches [OF assms(1) _ assms(2)] ready_reaches [OF assms(1)]
    idle_reaches [OF assms(1)] failed_reaches
  by (cases "phase ws") (auto intro!: obeys_return simp: reaches_def nextPhase_def)

end

text \<open>The write of the status succeeds as well.\<close>

locale answering_cluster = answering_calls env ns app user dep ps t items pvcs
  for env :: "('s, 'x) env_scheme" and ns :: string and app :: perUserApp and user :: string
    and dep :: "deployment option" and ps :: "pod list" and t :: gotime and items :: "workspace list"
    and pvcs :: "persistentVolumeClaim list" +
  assumes status_stored: "\<exists>y. fst (rStatusPatch (workspaces env) a b c) = Inr y"
begin

lemma stored [simp]: "errOf (fst (rStatusPatch (workspaces env) a b c)) = None"
  using status_stored [of a b c] by auto

text \<open>The whole end of a pass: no error, and the new phase is stored.\<close>

lemma pass_stores_phase:
  assumes "ours ws" and "rAdmitter r = NewAdmitter env"
  shows "obeys (reconcileAndPatch env r ws app) (\<lambda>x es. (\<exists>res. x = Inr res) \<and>
    (nextPhase env app ws dep ps t items \<noteq> phase ws \<longrightarrow>
      (\<exists>ws'. phase ws' = nextPhase env app ws dep ps t items \<and> Api (StatusPatch (WsObj ws) (WsObj ws')) None \<in> set es)))"
  unfolding reconcileAndPatch_def patchStatusIfChanged_def
  by (rule obeys_bind, rule obeys_mono [OF phase_reaches [OF assms]], intro obeys_rules)
    (auto simp: reaches_def answered)

end

section \<open>A claim of the size asked for\<close>

locale fitting_claim = answering_cluster env ns app user dep ps t items "[pvc]"
  for env :: "('s, 'x) env_scheme" and ns :: string and app :: perUserApp and user :: string
    and dep :: "deployment option" and ps :: "pod list" and t :: gotime and items :: "workspace list"
    and pvc :: persistentVolumeClaim +
  assumes claim_request: "pvcRequest pvc = Some (stSize (spStorage (appSpec app)))"
    and claim_capacity: "pvcCapacity pvc = Some cap \<Longrightarrow> cap \<le> stSize (spStorage (appSpec app))"
begin

definition kept :: "workspace \<Rightarrow> workspace \<Rightarrow> bool" where
  "kept ws ws' \<longleftrightarrow> wsMeta ws' = wsMeta ws \<and> wsSpec ws' = wsSpec ws \<and>
     BackoffUntil (wsStatus ws') = BackoffUntil (wsStatus ws) \<and> ours ws'"

lemma observe_fits:
  assumes "\<not> shrinks ws app"
  shows "\<not> shrinks (observeCapacity ws pvc) app"
  using assms claim_request claim_capacity
  by (auto simp: observeCapacity_def raiseLargestObserved_def shrinks_def quantityOr0_def split: option.splits)

lemma existing_fits:
  assumes "\<not> shrinks ws app"
  shows "obeys (reconcileExistingPVC env ws app pvc) (\<lambda>x _. \<not> shrinks (snd x) app)"
proof -
  have cond: "obeys (setCondition env ws' ty st rs msg) (\<lambda>x _. \<not> shrinks x app)" if "\<not> shrinks ws' app" for ws' ty st rs msg
    unfolding setCondition_def using that by (intro obeys_rules) (auto simp: shrinks_def)
  have same: "quantityOr0 (pvcRequest (RenderWorkspacePVC app w)) = quantityOr0 (pvcRequest pvc)" for w
    by (simp add: RenderWorkspacePVC_def claim_request)
  show ?thesis
    unfolding reconcileExistingPVC_def Let_def same
    using assms observe_fits
    by (intro obeys_if obeys_bind obeys_return obeys_mono [OF cond]) (auto simp: shrinks_def clearCondition_def)
qed

lemma storage_fits:
  assumes "ours ws"
  shows "obeys (reconcilePVC env ws app b) (\<lambda>x _. fst x = Inr False \<and> storageStep ws (snd x) \<and> \<not> shrinks (snd x) app)"
proof -
  have "obeys (reconcilePVC env ws app b) (\<lambda>x _. \<not> shrinks (snd x) app)"
    unfolding reconcilePVC_def Let_def
    using assms claims_listed
    by (intro obeys_if obeys_bind obeys_doList obeys_case_sum obeys_return)
      (auto simp: ours_def clearCondition_def shrinks_def intro!: obeys_mono [OF existing_fits])
  from obeys_conj [OF storage_answers [OF assms] this] show ?thesis by (rule obeys_mono) simp
qed

lemma wake_keeps:
  assumes "ours ws" and "phase ws = PhaseIdle" and "WakeRequestedAt (wsStatus ws) \<noteq> None"
  shows "obeys (reconcileIdle env r ws app) (\<lambda>x _. kept ws (snd x))"
proof -
  have woken: "kept ws (wake ws')" "WakeRequestedAt (wsStatus ws') \<noteq> None"
    if "storageStep ws ws'" "\<not> shrinks ws' app" for ws'
    using that(2) storageStep_status [OF that(1)] assms(1,3) by (simp_all add: kept_def ours_def wake_def shrinks_def)
  show ?thesis
    unfolding reconcileIdle_def withStorage_def
    by (intro obeys_andThen obeys_mono [OF storage_fits [OF assms(1)]])
      (use woken in \<open>auto intro!: obeys_return obeys_andThen obeys_mono [OF policies_answer]\<close>)
qed

lemma start_keeps:
  assumes "ours ws" and "rAdmitter r = NewAdmitter env"
    and "\<not> migrationGate env app" and "\<not> backoffHolds ws t" and "admitDecision ws app items"
  shows "obeys (reconcilePending env r ws app) (\<lambda>x _. kept ws (snd x) \<and>
    StartDeadline (wsStatus (snd x)) = Some (t + StartupTimeout (spLifecycle (appSpec app))))"
proof -
  let ?ws = "setStatus (\<lambda>s. s\<lparr>wsPhase := PhaseStarting, StartDeadline := Some (t + StartupTimeout (spLifecycle (appSpec app)))\<rparr>) ws"
  have ours: "ours ?ws" using assms(1) by (simp add: ours_def shrinks_def)
  have start: "obeys (andThen (reconcilePVC env ?ws app True) (\<lambda>refused ws.
        if refused then ret (Inr Done, setStatus (\<lambda>s. s\<lparr>wsPhase := PhasePending, StartDeadline := None\<rparr>) ws)
        else startChildren env r ws app)) (\<lambda>x _. kept ws (snd x) \<and>
      StartDeadline (wsStatus (snd x)) = Some (t + StartupTimeout (spLifecycle (appSpec app))))"
  proof (intro obeys_andThen obeys_mono [OF storage_fits [OF ours]])
    fix x :: "(error + bool) \<times> workspace" and es :: "event list"
    assume x: "fst x = Inr False \<and> storageStep ?ws (snd x) \<and> \<not> shrinks (snd x) app"
    note facts = storageStep_status [OF conjunct1 [OF conjunct2 [OF x]]]
    have own: "Namespace (wsMeta (snd x)) = ns" "wsUserKey (wsSpec (snd x)) = user" using facts assms(1) by (simp_all add: ours_def)
    show "case fst x of Inl e \<Rightarrow> kept ws (snd (Inl e, snd x)) \<and>
          StartDeadline (wsStatus (snd (Inl e, snd x))) = Some (t + StartupTimeout (spLifecycle (appSpec app)))
      | Inr refused \<Rightarrow> obeys (if refused then ret (Inr Done, setStatus (\<lambda>s. s\<lparr>wsPhase := PhasePending, StartDeadline := None\<rparr>) (snd x))
          else startChildren env r (snd x) app) (\<lambda>y es'. kept ws (snd y) \<and>
          StartDeadline (wsStatus (snd y)) = Some (t + StartupTimeout (spLifecycle (appSpec app))))"
      using x facts own assms(1) by (auto simp: kept_def ours_def intro!: obeys_mono [OF children_answer [OF own]])
  qed
  have adm: "obeys (TryAdmit env ws app) (\<lambda>a _. a = Inr True)"
    using admission_answers [OF assms(1)] assms(3-5) by simp
  show ?thesis
    unfolding reconcilePending_def assms(2) NewAdmitter_def admitter.simps
    by (rule obeys_bind, rule obeys_mono [OF adm])
      (auto intro!: obeys_bind obeys_now obeys_mono [OF start] simp: time)
qed

end

section \<open>At rest\<close>

text \<open>Reads, metrics, and the NetworkPolicies, which \<open>CreateOrUpdate\<close> compares before it writes.\<close>

fun quietEvent :: "event \<Rightarrow> bool" where
  "quietEvent (Api (CreateOrUpdate (NpObj _)) _) = True"
| "quietEvent e = read_only e"

lemma read_only_quiet: "read_only e \<Longrightarrow> quietEvent e"
  by (cases e rule: quietEvent.cases) auto

text \<open>A claim with the class and the access mode asked for as well, and what apimachinery documents of
  \<open>RemoveStatusCondition\<close>. \<open>atRest\<close> is what the storage part of a pass then makes of the workspace.\<close>

locale matching_claim = fitting_claim env ns app user dep ps t items pvc
  for env :: "('s, 'x) env_scheme" and ns :: string and app :: perUserApp and user :: string
    and dep :: "deployment option" and ps :: "pod list" and t :: gotime and items :: "workspace list"
    and pvc :: persistentVolumeClaim +
  assumes class_matches: "strPtrVal (pvcStorageClassName pvc) = stStorageClassName (spStorage (appSpec app))"
    and modes_match: "pvcAccessModes pvc = [ReadWriteOncePod]"
    and removes: "removeStatusCondition env cs ty = filter (\<lambda>c. cdType c \<noteq> ty) cs"
begin

definition atRest :: "workspace \<Rightarrow> workspace" where
  "atRest ws = observeCapacity (clearCondition env (setStatus (\<lambda>s. s\<lparr>PVCRef := Name (pvcMeta pvc)\<rparr>)
     (clearCondition env (clearCondition env ws CondStorageShrinkRejected) CondAmbiguousVolume)) CondStorageSpecDrift) pvc"

definition observed :: "quantity option \<Rightarrow> quantity option" where
  "observed q = LargestObservedSize (wsStatus (observeCapacity
     \<lparr>wsMeta = zeroMeta, wsSpec = \<lparr>wsAppRef = [], wsUserKey = []\<rparr>, wsStatus = zeroStatus\<lparr>LargestObservedSize := q\<rparr>\<rparr> pvc))"

lemma observe_as_update:
  "observeCapacity ws pvc = setStatus (\<lambda>s. s\<lparr>LargestObservedSize := observed (LargestObservedSize s)\<rparr>) ws"
  by (cases "LargestObservedSize (wsStatus ws)")
    (simp_all add: observed_def observeCapacity_def raiseLargestObserved_def setStatus_def)

lemma observed_idem [simp]: "observed (observed q) = observed q"
  by (simp add: observed_def observeCapacity_def raiseLargestObserved_def split: option.split)

lemma atRest_update:
  "atRest ws = setStatus (\<lambda>s. s\<lparr>Conditions := filter (\<lambda>c. cdType c \<notin> {CondStorageShrinkRejected, CondAmbiguousVolume, CondStorageSpecDrift})
     (Conditions s), PVCRef := Name (pvcMeta pvc), LargestObservedSize := observed (LargestObservedSize s)\<rparr>) ws"
proof -
  have three: "filter (\<lambda>c. cdType c \<noteq> x) (filter (\<lambda>c. cdType c \<noteq> y) (filter (\<lambda>c. cdType c \<noteq> z) cs)) =
      filter (\<lambda>c. cdType c \<notin> {z, y, x}) cs" for x y z and cs :: "condition list"
    by (induction cs) auto
  show ?thesis unfolding atRest_def observe_as_update clearCondition_def removes setStatus_simps three [symmetric] by simp
qed

lemma atRest_status:
  "WakeRequestedAt (wsStatus (atRest ws)) = WakeRequestedAt (wsStatus ws)"
  "ScaledDown (wsStatus (atRest ws)) = ScaledDown (wsStatus ws)" "phase (atRest ws) = phase ws"
  by (simp_all add: atRest_update)

lemma atRest_idem [simp]: "atRest (atRest ws) = atRest ws"
  by (simp add: atRest_update)

lemma storage_at_rest:
  assumes "ours ws"
  shows "obeys (reconcilePVC env ws app b) (\<lambda>x es. x = (Inr False, atRest ws) \<and> list_all read_only es)"
proof -
  have ex: "obeys (reconcileExistingPVC env w app pvc) (\<lambda>x es. es = [] \<and>
      x = (Inr False, observeCapacity (clearCondition env (setStatus (\<lambda>s. s\<lparr>PVCRef := Name (pvcMeta pvc)\<rparr>) w) CondStorageSpecDrift) pvc))" for w
    unfolding reconcileExistingPVC_def
    using class_matches modes_match claim_request
    by (simp add: RenderWorkspacePVC_def strPtrVal_def obeys_return)
  show ?thesis
    unfolding reconcilePVC_def Let_def atRest_def
    using assms claims_listed
    by (intro obeys_if obeys_bind obeys_doList obeys_case_sum obeys_return)
      (auto simp: ours_def clearCondition_def intro!: obeys_mono [OF ex])
qed

text \<open>A workspace with nothing to do: running and not scaled down, or idle, and not asked for.\<close>

definition nothingToDo :: "workspace \<Rightarrow> bool" where
  "nothingToDo ws \<longleftrightarrow> WakeRequestedAt (wsStatus ws) = None \<and>
     (phase ws = PhaseReady \<and> \<not> ScaledDown (wsStatus ws) \<or> phase ws = PhaseIdle)"

lemma idle_atRest: "ours ws \<Longrightarrow> nothingToDo ws \<Longrightarrow> ours (atRest ws) \<and> nothingToDo (atRest ws)"
proof -
  assume ws: "ours ws" "nothingToDo ws"
  have "\<not> shrinks (atRest ws) app"
    unfolding atRest_def using ws(1) by (intro observe_fits) (simp add: ours_def shrinks_def clearCondition_def)
  with ws show ?thesis by (simp add: ours_def nothingToDo_def atRest_update)
qed

lemma policies_quiet:
  "obeys (ensureWorkspaceNetworkPolicies env r ws app) (\<lambda>x es. x = (Inr (), ws) \<and> list_all quietEvent es)"
proof -
  have "emits quietEvent (ensurePolicies env nps)" for nps by (induction nps) (auto intro!: emits_rules)
  then have "emits quietEvent (ensureWorkspaceNetworkPolicies env r ws app)"
    unfolding ensureWorkspaceNetworkPolicies_def by (intro emits_rules) simp_all
  from emits_conj_obeys [OF this policies_answer] show ?thesis by (rule obeys_mono) simp
qed

lemma pass_at_rest:
  assumes "ours ws" and "nothingToDo ws"
  shows "obeys (reconcilePhase env r ws app) (\<lambda>x es. x = (Inr Done, atRest ws) \<and> list_all quietEvent es)"
proof -
  have read: "list_all read_only es \<Longrightarrow> list_all quietEvent es" for es
    by (auto simp: list_all_iff intro: read_only_quiet)
  have k: "obeys (withStorage env r ws app k) (\<lambda>x es. x = (Inr Done, atRest ws) \<and> list_all quietEvent es)"
    if "k (atRest ws) = ret (Inr Done, atRest ws)" for k
    unfolding withStorage_def
    by (intro obeys_andThen obeys_mono [OF storage_at_rest [OF assms(1)]])
      (auto intro!: obeys_andThen obeys_mono [OF policies_quiet] obeys_return read simp: that)
  show ?thesis
    using assms(2)
    by (auto simp: nothingToDo_def reconcilePhase_def reconcileReady_def reconcileIdle_def atRest_status intro!: k)
qed

lemma rest_is_quiet:
  assumes "ours ws" and "nothingToDo ws"
  shows "emits quietEvent (reconcileAndPatch env r (atRest ws) app)"
proof -
  note rest = idle_atRest [OF assms]
  show ?thesis
    unfolding emits_def reconcileAndPatch_def patchStatusIfChanged_def
    by (rule obeys_bind, rule obeys_mono [OF pass_at_rest [OF conjunct1 [OF rest] conjunct2 [OF rest]]])
      (auto intro!: obeys_rules)
qed

end

section \<open>A cluster that answers\<close>

text \<open>A cluster with fixed answers: the time, the fleet, at most one claim, the Deployment and the pods of the user.\<close>

definition answeringEnv ::
    "deployment option \<Rightarrow> pod list \<Rightarrow> gotime \<Rightarrow> workspace list \<Rightarrow> persistentVolumeClaim list \<Rightarrow> unit env" where
  "answeringEnv dep ps t items pvcs = \<lparr>clock = \<lambda>s. (t, s),
     workspaces = refusing\<lparr>rList := \<lambda>_ _ s. (Inr items, s)\<rparr>, perUserApps = refusing,
     deployments = refusing\<lparr>rGet := \<lambda>_ s. (case dep of None \<Rightarrow> Inl NotFound | Some d \<Rightarrow> Inr d, s)\<rparr>,
     services = refusing, networkPolicies = refusing, claims = refusing\<lparr>rList := \<lambda>_ _ s. (Inr pvcs, s)\<rparr>,
     volumes = refusing, pods = refusing\<lparr>rList := \<lambda>_ _ s. (Inr ps, s)\<rparr>, endpointSlices = refusing,
     storageClasses = refusing, serviceAccounts = refusing, roleBindings = refusing,
     setStatusCondition = \<lambda>cs c s. (listSetCondition t cs c, s),
     removeStatusCondition = listRemoveCondition, findStatusCondition = listFindCondition,
     containsFinalizer = \<lambda>fs f. f \<in> set fs, addFinalizer = \<lambda>fs f. if f \<in> set fs then fs else fs @ [f],
     removeFinalizer = \<lambda>fs f. removeAll f fs, jsonMarshal = \<lambda>_. [], quantityString = \<lambda>_. []\<rparr>"

lemma answeringEnv_answers:
  "length pvcs \<le> 1 \<Longrightarrow> answering_cluster (answeringEnv dep ps t items pvcs) ns app user dep ps t items pvcs"
  by unfold_locales (simp_all add: answeringEnv_def refusing_def)

text \<open>The same cluster, refusing to store a status.\<close>

definition lostStatusEnv ::
    "deployment option \<Rightarrow> pod list \<Rightarrow> gotime \<Rightarrow> workspace list \<Rightarrow> persistentVolumeClaim list \<Rightarrow> unit env" where
  "lostStatusEnv dep ps t items pvcs = (answeringEnv dep ps t items pvcs)\<lparr>workspaces :=
     refusing\<lparr>rList := \<lambda>_ _ s. (Inr items, s), rStatusPatch := \<lambda>_ _ s. (Inl Conflict, s)\<rparr>\<rparr>"

interpretation lost_status: answering_calls "lostStatusEnv dep ps t items [pvc]" ns app user dep ps t items "[pvc]"
  for dep ps t items pvc ns app user
  by unfold_locales (simp_all add: lostStatusEnv_def answeringEnv_def refusing_def)

interpretation one_claim: answering_cluster "answeringEnv dep ps t items [pvc]" ns app user dep ps t items "[pvc]"
  for dep ps t items pvc ns app user
  by (rule answeringEnv_answers) simp

interpretation sample_claim: fitting_claim "answeringEnv dep ps t items [samplePVC user]" ns sampleApp user dep ps t items "samplePVC user"
  for dep ps t items ns user
  by unfold_locales (simp_all add: sample_defs)

interpretation bound_claim: matching_claim
  "answeringEnv dep ps t items [(RenderWorkspacePVC app ws)\<lparr>pvcPhase := ClaimBound, pvcVolumeName := vol,
     pvcCapacity := Some (stSize (spStorage (appSpec app)))\<rparr>]" ns app user dep ps t items
  "(RenderWorkspacePVC app ws)\<lparr>pvcPhase := ClaimBound, pvcVolumeName := vol, pvcCapacity := Some (stSize (spStorage (appSpec app)))\<rparr>"
  for dep ps t items app ws vol ns user
  by unfold_locales (simp_all add: RenderWorkspacePVC_def strPtrVal_def answeringEnv_def listRemoveCondition_def)

section \<open>Progress\<close>

text \<open>Claim C6. The phase machine makes progress: in a cluster that answers the calls of a pass, a pass over a workspace
  whose storage request is not below the observed size ends without an error, and the phase it stores is exactly
  \<open>nextPhase\<close>: Pending starts if and only if admitted; Starting becomes Ready as soon as the Deployment has a ready replica, otherwise
  Failed on a crash loop, at its deadline, or if the Deployment is gone after a recorded failure; Ready and Idle become
  Pending on a wake request; a scaled-down Ready workspace becomes Idle once its pods are gone; Failed becomes Pending
  once its backoff is over. Nothing else changes the phase.\<close>

theorem phase_progress:
  assumes "answering_cluster env (Namespace (wsMeta ws)) app (wsUserKey (wsSpec ws)) dep ps t items pvcs" and "\<not> shrinks ws app"
  shows "obeys (reconcilePhase env (realReconciler env r) ws app)
      (\<lambda>x _. (\<exists>res. fst x = Inr res) \<and> phase (snd x) = nextPhase env app ws dep ps t items) \<and>
    obeys (reconcileAndPatch env (realReconciler env r) ws app) (\<lambda>x es. (\<exists>res. x = Inr res) \<and>
      (nextPhase env app ws dep ps t items \<noteq> phase ws \<longrightarrow>
        (\<exists>ws'. phase ws' = nextPhase env app ws dep ps t items \<and> Api (StatusPatch (WsObj ws) (WsObj ws')) None \<in> set es)))"
  using answering_calls.phase_reaches [OF answering_cluster.axioms(1) [OF assms(1)], of ws "realReconciler env r"]
    answering_cluster.pass_stores_phase [OF assms(1), of ws "realReconciler env r"] assms(2)
  by (simp add: answering_calls.ours_def [OF answering_cluster.axioms(1) [OF assms(1)]] answering_calls.reaches_def [OF answering_cluster.axioms(1) [OF assms(1)]])

definition readyDeployment :: deployment where
  "readyDeployment = (RenderWorkspaceDeployment sampleEnv sampleApp (startingWs ''u1''))\<lparr>depReadyReplicas := 1\<rparr>"

abbreviation readyCluster :: "unit env" where
  "readyCluster \<equiv> answeringEnv (Some readyDeployment) [] 0 [startingWs ''u1''] [samplePVC ''u1'']"

theorem phase_progress_witness:
  "obeys (reconcilePhase readyCluster (realReconciler readyCluster (sampleReconciler readyCluster)) (startingWs ''u1'') sampleApp)
    (\<lambda>x _. (\<exists>res. fst x = Inr res) \<and> phase (snd x) = PhaseReady)"
  using conjunct1 [OF phase_progress [OF one_claim.answering_cluster_axioms, of "startingWs ''u1''" sampleApp
      "Some readyDeployment" "[]" 0 "[startingWs ''u1'']" "samplePVC ''u1''" "sampleReconciler readyCluster"]]
  by (simp add: nextPhase_def shrinks_def readyDeployment_def sample_defs)

text \<open>Claim C7. A wake-up goes through: let an Idle workspace with a wake request be reconciled three times, each time from
  what the pass before stored, in a cluster that answers, with a claim of the size asked for. If the workspace is
  admitted when the second pass asks and its Deployment has a ready replica when the third looks, then the first pass makes it Pending,
  the second Starting with the deadline of the start-up timeout, and the third Ready.\<close>

theorem wake_reaches_ready:
  assumes wake: "fitting_claim env1 (Namespace (wsMeta ws)) app (wsUserKey (wsSpec ws)) dep1 ps1 t1 items1 pvc1"
    and start: "fitting_claim env2 (Namespace (wsMeta ws)) app (wsUserKey (wsSpec ws)) dep2 ps2 t2 items2 pvc2"
    and ready: "fitting_claim env3 (Namespace (wsMeta ws)) app (wsUserKey (wsSpec ws)) (Some dep3) ps3 t3 items3 pvc3"
    and asked: "phase ws = PhaseIdle" "WakeRequestedAt (wsStatus ws) \<noteq> None" "\<not> shrinks ws app"
    and admitted: "\<not> migrationGate env2 app" "\<not> backoffHolds ws t2" "admitDecision ws app items2"
    and up: "1 \<le> depReadyReplicas dep3"
  shows "obeys (reconcilePhase env1 (realReconciler env1 r) ws app) (\<lambda>x _. phase (snd x) = PhasePending \<and>
    obeys (reconcilePhase env2 (realReconciler env2 r) (snd x) app) (\<lambda>y _. phase (snd y) = PhaseStarting \<and>
      StartDeadline (wsStatus (snd y)) = Some (t2 + StartupTimeout (spLifecycle (appSpec app))) \<and>
      obeys (reconcilePhase env3 (realReconciler env3 r) (snd y) app) (\<lambda>z _. phase (snd z) = PhaseReady)))"
proof -
  note cluster = fitting_claim.axioms(1) [OF wake] fitting_claim.axioms(1) [OF start] fitting_claim.axioms(1) [OF ready]
  note a1 = answering_cluster.axioms(1) [OF cluster(1)] and a2 = answering_cluster.axioms(1) [OF cluster(2)]
    and a3 = answering_cluster.axioms(1) [OF cluster(3)]
  note ours = answering_calls.ours_def [OF a1] answering_calls.ours_def [OF a2] answering_calls.ours_def [OF a3]
  note reaches = answering_calls.reaches_def [OF a1] answering_calls.reaches_def [OF a2] answering_calls.reaches_def [OF a3]
  note kept = fitting_claim.kept_def [OF wake] fitting_claim.kept_def [OF start]
  have third: "obeys (reconcilePhase env3 (realReconciler env3 r) y app) (\<lambda>z _. phase (snd z) = PhaseReady)"
    if "wsMeta y = wsMeta ws" "wsSpec y = wsSpec ws" "\<not> shrinks y app" "phase y = PhaseStarting" for y
    by (rule obeys_mono [OF answering_calls.phase_reaches [OF a3]]) (use that up in \<open>simp_all add: ours reaches nextPhase_def\<close>)
  have second: "obeys (reconcilePhase env2 (realReconciler env2 r) x app) (\<lambda>y _. phase (snd y) = PhaseStarting \<and>
      StartDeadline (wsStatus (snd y)) = Some (t2 + StartupTimeout (spLifecycle (appSpec app))) \<and>
      obeys (reconcilePhase env3 (realReconciler env3 r) (snd y) app) (\<lambda>z _. phase (snd z) = PhaseReady))"
    if x: "wsMeta x = wsMeta ws" "wsSpec x = wsSpec ws" "BackoffUntil (wsStatus x) = BackoffUntil (wsStatus ws)"
      "\<not> shrinks x app" "phase x = PhasePending" for x
  proof -
    have adm: "\<not> backoffHolds x t2" "admitDecision x app items2"
      using admitted x by (simp_all add: backoffHolds_def admitDecision_def Let_def split: if_splits)
    have "obeys (reconcilePhase env2 (realReconciler env2 r) x app) (\<lambda>y _. fitting_claim.kept (Namespace (wsMeta ws)) app (wsUserKey (wsSpec ws)) x (snd y) \<and>
        StartDeadline (wsStatus (snd y)) = Some (t2 + StartupTimeout (spLifecycle (appSpec app))))"
      using fitting_claim.start_keeps [OF start, of x "realReconciler env2 r"] admitted(1) adm x
      by (simp add: reconcilePhase_def ours)
    moreover have "obeys (reconcilePhase env2 (realReconciler env2 r) x app) (\<lambda>y _. phase (snd y) = PhaseStarting)"
      by (rule obeys_mono [OF answering_calls.phase_reaches [OF a2]])
        (use x adm admitted(1) in \<open>simp_all add: ours reaches nextPhase_def\<close>)
    ultimately show ?thesis
      by (rule obeys_mono [OF obeys_conj]) (use third x in \<open>auto simp: kept ours\<close>)
  qed
  have "obeys (reconcilePhase env1 (realReconciler env1 r) ws app)
      (\<lambda>x _. fitting_claim.kept (Namespace (wsMeta ws)) app (wsUserKey (wsSpec ws)) ws (snd x))"
    using fitting_claim.wake_keeps [OF wake, of ws] asked by (simp add: reconcilePhase_def ours)
  moreover have "obeys (reconcilePhase env1 (realReconciler env1 r) ws app) (\<lambda>x _. phase (snd x) = PhasePending)"
    by (rule obeys_mono [OF answering_calls.phase_reaches [OF a1]]) (use asked in \<open>simp_all add: ours reaches nextPhase_def\<close>)
  ultimately show ?thesis
    by (rule obeys_mono [OF obeys_conj]) (use second in \<open>auto simp: kept ours\<close>)
qed

definition wokenWs :: workspace where
  "wokenWs = setStatus (\<lambda>s. s\<lparr>WakeRequestedAt := Some 0\<rparr>) (idleWs ''u1'' 0)"

abbreviation wakeCluster :: "unit env" where
  "wakeCluster \<equiv> answeringEnv (Some readyDeployment) [] (60 * second) [setStatus (\<lambda>s. s\<lparr>wsPhase := PhasePending\<rparr>) wokenWs] [samplePVC ''u1'']"

theorem wake_reaches_ready_witness:
  "obeys (reconcilePhase wakeCluster (realReconciler wakeCluster (sampleReconciler wakeCluster)) wokenWs sampleApp) (\<lambda>x _. phase (snd x) = PhasePending \<and>
    obeys (reconcilePhase wakeCluster (realReconciler wakeCluster (sampleReconciler wakeCluster)) (snd x) sampleApp) (\<lambda>y _. phase (snd y) = PhaseStarting \<and>
      StartDeadline (wsStatus (snd y)) = Some (60 * second + StartupTimeout (spLifecycle (appSpec sampleApp))) \<and>
      obeys (reconcilePhase wakeCluster (realReconciler wakeCluster (sampleReconciler wakeCluster)) (snd y) sampleApp) (\<lambda>z _. phase (snd z) = PhaseReady)))"
proof (rule wake_reaches_ready)
  have u: "wsUserKey (wsSpec wokenWs) = ''u1''" by (simp add: wokenWs_def sample_defs)
  show "fitting_claim wakeCluster (Namespace (wsMeta wokenWs)) sampleApp (wsUserKey (wsSpec wokenWs)) (Some readyDeployment) [] (60 * second)
      [setStatus (\<lambda>s. s\<lparr>wsPhase := PhasePending\<rparr>) wokenWs] (samplePVC ''u1'')"
    "fitting_claim wakeCluster (Namespace (wsMeta wokenWs)) sampleApp (wsUserKey (wsSpec wokenWs)) (Some readyDeployment) [] (60 * second)
      [setStatus (\<lambda>s. s\<lparr>wsPhase := PhasePending\<rparr>) wokenWs] (samplePVC ''u1'')"
    "fitting_claim wakeCluster (Namespace (wsMeta wokenWs)) sampleApp (wsUserKey (wsSpec wokenWs)) (Some readyDeployment) [] (60 * second)
      [setStatus (\<lambda>s. s\<lparr>wsPhase := PhasePending\<rparr>) wokenWs] (samplePVC ''u1'')"
    unfolding u by (rule sample_claim.fitting_claim_axioms)+
  show "\<not> migrationGate wakeCluster sampleApp" by (simp add: migrationGate_def answeringEnv_def listFindCondition_def sample_defs)
  show "admitDecision wokenWs sampleApp [setStatus (\<lambda>s. s\<lparr>wsPhase := PhasePending\<rparr>) wokenWs]"
    by (simp add: admitDecision_def admissionSlots_def occupied_def candidates_def holdsSlot_def sameObject_def wokenWs_def sample_defs)
qed (simp_all add: wokenWs_def shrinks_def backoffHolds_def readyDeployment_def sample_defs)

text \<open>Claim C8. At rest the reconciler is quiet. Let the claim have the size, class and access mode asked for and the cluster answer.
  A pass over a workspace that is Ready and not scaled down, or Idle, and not asked for, ends without a requeue, and the
  pass over what it leaves reads, sets metrics and compares the NetworkPolicies, and writes nothing else: no status
  patch, so the watch on the reconciler's own writes does not keep it going.\<close>

theorem steady_state_is_quiet:
  assumes "matching_claim env (Namespace (wsMeta ws)) app (wsUserKey (wsSpec ws)) dep ps t items pvc" and "\<not> shrinks ws app"
    and "WakeRequestedAt (wsStatus ws) = None"
    and "phase ws = PhaseReady \<and> \<not> ScaledDown (wsStatus ws) \<or> phase ws = PhaseIdle"
  shows "obeys (reconcilePhase env r ws app) (\<lambda>x _. fst x = Inr Done \<and> phase (snd x) = phase ws \<and>
    emits quietEvent (reconcileAndPatch env r (snd x) app))"
proof -
  note answers = answering_cluster.axioms(1) [OF fitting_claim.axioms(1) [OF matching_claim.axioms(1) [OF assms(1)]]]
  have ws: "answering_calls.ours (Namespace (wsMeta ws)) app (wsUserKey (wsSpec ws)) ws" "matching_claim.nothingToDo ws"
    using assms(2-4) by (simp_all add: answering_calls.ours_def [OF answers] matching_claim.nothingToDo_def [OF assms(1)])
  have "phase (matching_claim.atRest env pvc ws) = phase ws" by (simp add: matching_claim.atRest_update [OF assms(1)])
  then show ?thesis
    using matching_claim.pass_at_rest [OF assms(1) ws, of r] matching_claim.rest_is_quiet [OF assms(1) ws, of r]
    by (elim obeys_mono) simp
qed

abbreviation boundPVC :: persistentVolumeClaim where
  "boundPVC \<equiv> (RenderWorkspacePVC sampleApp (readyWs ''u1'' 0))\<lparr>pvcPhase := ClaimBound, pvcVolumeName := ''pv-u1'',
     pvcCapacity := Some (stSize (spStorage (appSpec sampleApp)))\<rparr>"

abbreviation restCluster :: "unit env" where
  "restCluster \<equiv> answeringEnv (Some readyDeployment) [] 0 [readyWs ''u1'' 0] [boundPVC]"

theorem steady_state_is_quiet_witness:
  "obeys (reconcilePhase restCluster (sampleReconciler restCluster) (readyWs ''u1'' 0) sampleApp)
    (\<lambda>x _. fst x = Inr Done \<and> phase (snd x) = PhaseReady \<and>
      emits quietEvent (reconcileAndPatch restCluster (sampleReconciler restCluster) (snd x) sampleApp))"
proof -
  have p: "PhaseReady = phase (readyWs ''u1'' 0)" by (simp add: sample_defs)
  show ?thesis
    unfolding p
    by (rule steady_state_is_quiet [OF bound_claim.matching_claim_axioms]) (simp_all add: shrinks_def sample_defs)
qed

text \<open>What the size of the claim is needed for: storage providers round up. Once a bound claim reports a capacity above
  the size asked for, the observed size is above it too, and from then on every pass refuses the storage as if the app
  had been shrunk; a workspace that is still Starting does not leave that phase any more.\<close>

theorem rounded_up_volume_locks_storage:
  assumes "answering_cluster env (Namespace (wsMeta ws)) app (wsUserKey (wsSpec ws)) dep ps t items [pvc]" and "\<not> shrinks ws app"
    and "pvcPhase pvc = ClaimBound" and "pvcRequest pvc = Some (stSize (spStorage (appSpec app)))"
    and "pvcCapacity pvc = Some cap" and "stSize (spStorage (appSpec app)) < cap"
  shows "obeys (reconcilePVC env ws app b) (\<lambda>x _. fst x = Inr False \<and> shrinks (snd x) app)"
proof -
  note calls = answering_cluster.axioms(1) [OF assms(1)]
  have grown: "shrinks (observeCapacity w pvc) app" for w
    using assms(3,5,6) by (auto simp: observeCapacity_def raiseLargestObserved_def shrinks_def split: option.splits)
  have same: "quantityOr0 (pvcRequest (RenderWorkspacePVC app w)) = quantityOr0 (pvcRequest pvc)" for w
    by (simp add: RenderWorkspacePVC_def assms(4))
  have "obeys (reconcileExistingPVC env w app pvc) (\<lambda>x _. shrinks (snd x) app)" for w
    unfolding reconcileExistingPVC_def Let_def same setCondition_def
    by (intro obeys_if obeys_bind obeys_return obeys_ask) (simp_all add: grown)
  then have "obeys (reconcilePVC env ws app b) (\<lambda>x _. shrinks (snd x) app)"
    unfolding reconcilePVC_def Let_def
    using assms(2) answering_calls.claims_listed [OF calls]
    by (intro obeys_if obeys_bind obeys_doList obeys_case_sum obeys_return) (auto simp: clearCondition_def)
  moreover have "obeys (reconcilePVC env ws app b) (\<lambda>x _. fst x = Inr False \<and> storageStep ws (snd x))"
    by (rule answering_calls.storage_answers [OF calls]) (simp add: answering_calls.ours_def [OF calls] assms(2))
  ultimately show ?thesis by (rule obeys_mono [OF obeys_conj]) simp
qed

text \<open>The children of an admitted workspace are created before the status that takes its start slot is stored. If that
  last write fails, or the process ends before it, the Deployment runs while the workspace is still Pending: the slot is
  not taken, and another workspace can be admitted on it.\<close>

theorem lost_status_runs_uncounted:
  assumes "answering_calls env (Namespace (wsMeta ws)) app (wsUserKey (wsSpec ws)) dep ps t items pvcs" and "\<not> shrinks ws app"
    and "phase ws = PhasePending" and "nextPhase env app ws dep ps t items = PhaseStarting"
    and "\<And>a b c. \<exists>e. fst (rStatusPatch (workspaces env) a b c) = Inl e"
  shows "obeys (reconcileAndPatch env (realReconciler env r) ws app) (\<lambda>x es. (\<exists>e. x = Inl e) \<and>
    (\<exists>d er. Api (Create (DepObj d)) er \<in> set es \<and> Name (depMeta d) = childName app ws)) \<and> \<not> holdsSlot ws"
proof -
  have lost: "errOf (fst (rStatusPatch (workspaces env) a b c)) \<noteq> None" for a b c using assms(5) [of a b c] by auto
  have adm: "\<not> migrationGate env app" "\<not> backoffHolds ws t" "admitDecision ws app items"
    using assms(3,4) by (simp_all add: nextPhase_def split: if_splits)
  have row: "obeys (reconcilePhase env (realReconciler env r) ws app) (\<lambda>x es. fst x = Inr Done \<and> phase (snd x) = PhaseStarting \<and>
      (\<exists>d er. Api (Create (DepObj d)) er \<in> set es \<and> Name (depMeta d) = childName app ws))"
    using answering_calls.pending_creates [OF assms(1), of ws "realReconciler env r"] adm assms(2,3)
    by (simp add: reconcilePhase_def answering_calls.ours_def [OF assms(1)] childName_def)
  have "obeys (reconcileAndPatch env (realReconciler env r) ws app) (\<lambda>x es. (\<exists>e. x = Inl e) \<and>
      (\<exists>d er. Api (Create (DepObj d)) er \<in> set es \<and> Name (depMeta d) = childName app ws))"
    unfolding reconcileAndPatch_def patchStatusIfChanged_def
    by (rule obeys_bind, rule obeys_mono [OF row], intro obeys_rules)
      (use assms(3) in \<open>auto split: option.splits elim: notE [OF lost]\<close>)
  then show ?thesis using assms(3) by (simp add: holdsSlot_def)
qed

end
