(* ===== verification/Spec2Isabelle.thy ===== *)
theory Spec2Isabelle
  imports Workspace_Controller Reclaimer Router_Server Render_Facts Startup PerUserApp_Controller
    Metrics_Facts Rbac_Facts Field_Ownership Heartbeats Controller_Process Optimistic_Reap Status_Patch
    Fleet Wiring Fixtures Deep_Copy Reclaim_Crash Phase_Progress
begin

text \<open>
  Verification of the per-user container operator: a Kubernetes controller that gives every authenticated user
  of an app (a PerUserApp) a container and a volume of their own (a Workspace), and a router that puts each
  request in front of its user's container.

  \<^bold>\<open>The parts and how they interact.\<close> The controller process (\<open>cmd/controller.go\<close>) runs two reconcilers and two
  periodic passes under a leader election. The app reconciler validates an app and renders its router; the
  workspace reconciler drives each Workspace through Pending, Starting, Ready, Idle and Failed, asking the
  admitter which of the Pending ones may start; the Reaper scales idle workspaces down; the Reclaimer deletes the
  least recently used beyond a target, volumes included. The router process (\<open>cmd/main.go\<close>), started by the
  Deployment the app reconciler rendered, authenticates the caller, derives the user, creates the user's Workspace,
  holds the request through a cold start and forwards it. They communicate through the API server only: the router
  writes enqueuedAt, wakeRequestedAt, lastActivity and its connection count into the Workspace status, the
  controller everything else.

  \<^bold>\<open>The model.\<close> Handlers are programs of a state monad over a world: the state of an environment of which nothing
  is known, and a trace of events (\<open>Puc_Prelude\<close>, \<open>Cluster\<close>). Each client call asks the environment and logs the
  call with its outcome, so a property of all runs holds for every sequence of answers, errors and conflicts
  included. \<open>obeys m Q\<close> says that every run of \<open>m\<close> returns a value and appends events that satisfy \<open>Q\<close>; \<open>emits P m\<close> that every
  event it appends satisfies \<open>P\<close>. Go integers are int with the wrap-around written out, times and durations int
  nanoseconds, strings lists of bytes, maps association lists or functions.

  \<^item> \<open>Puc_Prelude\<close>: integers, the monad, the rules of \<open>obeys\<close> and \<open>emits\<close>; \<open>Go_Std\<close>, \<open>Go_Time\<close>, \<open>Go_Flag\<close>, \<open>Sha256\<close>: what the
    program uses of Go's standard library (strings, HTTP headers, durations and their text, the flag package,
    SHA-256).
  \<^item> \<open>Api_Types\<close>: \<open>api/v1alpha1\<close>, the custom resources and the Kubernetes objects they are rendered to. \<open>Cluster\<close>: the API client as a
    record of functions, events, and the locale \<open>status_conditions\<close> of what apimachinery documents of its
    condition helpers. \<open>Samples\<close>: objects for the witnesses.
  \<^item> \<open>Identity\<close>: \<open>internal/identity\<close>. Extract accepts exactly the documented values; the hashed text
    determines namespace, app and user; child names of different users differ.
  \<^item> \<open>Render\<close>, \<open>Render_Router\<close>, \<open>Render_Facts\<close>: \<open>internal/controller/render.go\<close>. An app that passes
    ValidateApp renders pods confined to their own claim; selectors and ingress rules separate users; the shell reads
    quoted text back.
  \<^item> \<open>Admission\<close>: \<open>internal/controller/admission.go\<close>. Slots are filled, never exceeded, in order of arrival; the exact backoff; what
    a failure and a new leader write.
  \<^item> \<open>Workspace_Controller\<close>: \<open>internal/controller/workspace_controller.go\<close>, with the admitter as the locale
    \<open>workspace_admitter\<close>, interpreted on the real one. The phase table with its guards, no deletion, storage that only
    grows, shrinking refused, convergence of the Deployment, an end of every start.
  \<^item> \<open>Gated_Pass\<close>, \<open>Reaper\<close>, \<open>Reclaimer\<close>: the periodic passes; their per-app gate is the locale \<open>gated_pass\<close>, interpreted on
    both loops. What is reapable, what is selected, in which order things are deleted.
  \<^item> \<open>Phase_Progress\<close>: the phase machine from the side of progress, in the locales \<open>answering_calls\<close> and \<open>answering_cluster\<close> (the calls of a
    pass are answered, the write of the status too), \<open>fitting_claim\<close> and \<open>matching_claim\<close> (the claim is as asked for), each extending the one before and interpreted on a cluster
    with fixed answers. The exact next phase, a wake-up in three passes, and that the reconciler is quiet at rest.
  \<^item> \<open>Api_Store\<close>, \<open>Reclaim_Crash\<close>: handlers as triples over the stored objects. The locale \<open>api_store\<close> is what Kubernetes
    documents of Get, Delete and merge patches, with calls that may fail before or after taking effect;
    \<open>calm_store\<close> extends it by calls that do not fail; both are interpreted on an API server over tables that
    fails as a schedule says. A reclamation interrupted at any call leaves one of three stores and is finished
    later; what a user who comes back in between loses.
  \<^item> \<open>PerUserApp_Controller\<close>: \<open>internal/controller/peruserapp_controller.go\<close>, the contract of a pass over an app.
  \<^item> \<open>Router_Proxy\<close>, \<open>Conn_Tracker\<close>, \<open>Resolver\<close>, \<open>Router_Server\<close>: \<open>internal/router\<close>. The exact caller
    authentication and header policy, the tracker as a refinement of a multiset, a fresh resolver cache, requests that
    stay with their user, a hold that ends.
  \<^item> \<open>Ticker_Loops\<close>: \<open>Reaper.Start\<close>, \<open>Reclaimer.Start\<close> and \<open>ConnectionTracker.Run\<close>, instances of the locale \<open>ticker_loop\<close>; they
    outlive every failed pass. \<open>Watch_Loop\<close>: the reconnecting watches of \<open>resolve.go\<close>; they outlive every failed session.
    \<open>Heartbeats\<close>: replicas, heartbeats and the Reaper as a step relation over time; open connections keep a workspace
    up, dead replicas do not. \<open>Optimistic_Reap\<close>: the Reaper's listing and its update as two calls with anything in
    between; a refinement of the atomic system of \<open>Heartbeats\<close>.
  \<^item> \<open>Cmd_Router\<close>, \<open>Startup\<close>: \<open>cmd/main.go\<close> and the path from an app's spec through the rendered command line to the
    router's configuration. \<open>Cmd_Controller\<close>: \<open>cmd/controller.go\<close>. \<open>Router_Process\<close>, \<open>Controller_Process\<close>: \<open>runRouter\<close>,
    \<open>serveAndAwaitShutdown\<close>, \<open>runController\<close> and \<open>main\<close>, what each process does in which order, with the response recorder
    and the constructors. \<open>Rbac\<close>, \<open>Rbac_Facts\<close>: \<open>internal/rbacspec\<close> and that its list covers
    every call of the controller.
  \<^item> \<open>Metrics\<close>, \<open>Metrics_Facts\<close>: \<open>internal/metrics\<close>, over the Prometheus library as a record with the locale
    \<open>prometheus_laws\<close>, interpreted on maps; the gauges of a fleet and the accounting of requests.
  \<^item> \<open>Pass_Calls\<close>, \<open>Field_Ownership\<close>: which status fields each party writes, and that they stay typed. \<open>Status_Patch\<close>: merge
    patches of several parties computed from stale objects; those of different parties commute.
  \<^item> \<open>Fleet\<close>: all workspaces of an app under its two limits, as a step relation; the limits as invariants, and how far
    concurrent requests can exceed the second.
  \<^item> \<open>Go_Memory\<close>, \<open>Deep_Copy\<close>: memory with aliasing, and \<open>zz_generated.deepcopy.go\<close> over it; every generated copier takes
    snapshots, which is what lets the other theories treat objects as values.
  \<^item> \<open>Wiring\<close>: the registered types, the watches of the two controllers and the construction of the two background runnables;
    changes of children come back to their owner.
    \<open>Fixtures\<close>: \<open>internal/testfixtures\<close>, whose app is shown valid.
  \<^item> This theory: the reading of a limit on both sides.

  \<^bold>\<open>Bounds.\<close> Loops over lists are structural recursions. The hold's polling loop is the only one that is not; it
  takes fuel, and \<open>hold_ends\<close> shows that the number of ticks that fit before the deadline, plus one, is enough. The
  loops that run until their context is done recurse over the list of what their select receives, and report whether
  they have returned.
  Backoff doubling and connection counts are shown free of overflow in the range the types allow.

  \<^bold>\<open>Hypotheses.\<close> Theorems about the environment's answers name what they assume: \<open>namesKept\<close> (objects keep their names),
  \<open>typedAnswers\<close> (decoded integers fit their types), \<open>mergesStatus\<close> (the API server applies merge patches as RFC 7386 says),
  \<open>libraryCopies\<close> (the library's own copy functions are deep), \<open>ticking\<close> (the clock moves with the ticker), \<open>podRuns\<close> (what the
  kubelet projects into a pod), \<open>decides\<close> (an authorizer's answer depends on the question alone), and the locales above
  (\<open>api_store\<close> and the ones on \<open>answering_cluster\<close> among them). Each has a witness on concrete functions.

  \<^bold>\<open>Not modelled.\<close> The insides of managers, servers, listeners, watches and the reverse proxy (libraries, with their
  answers as parameters or inputs); what is printed on standard error; CRD YAML, Helm templates, scripts, examples and
  tests. Times keep their nanoseconds; the API server stores whole seconds. Goroutines are modelled by their handlers as
  atomic steps, except where what happens in between matters: the resolver's lookup (\<open>resolver_race\<close>), the tracker's
  publication (\<open>overtaken_heartbeat_hides_connection\<close>, \<open>unchanged_count_is_not_sent\<close>), the activity timestamp
  (\<open>activity_moves_back\<close>), the Reaper's two calls (\<open>Optimistic_Reap\<close>), the count before a create (\<open>Fleet\<close>) and the Reclaimer's
  listing before its deletions (\<open>stale_listing_deletes_active\<close>, \<open>stale_sweep_deletes_claim\<close>). Of the accessors the structs have for tests
  (an injected clock or client), those of the runnables are modelled; the others read the one clock of the environment.
\<close>

section \<open>The limit, read on both sides\<close>

text \<open>Claim C40. The two readings of spec.limits.maxWorkspaces agree: the router started from the rendered command
  line refuses a new Workspace on exactly those listings of the fleet for which the app's WorkspaceLimitReached
  condition is reported True.\<close>

theorem limit_readings_agree:
  assumes "ValidateApp app = Inr warnings" and "typedSpec app" and "admissibleSpec app"
    and "credentialsAt readFile app callerData upstreamData" and "0 < MaxWorkspaces (spLimits (appSpec app))"
  shows "\<exists>cfg. parseRouterFlags readFile getenv (tl (routerArgs app)) = Inr cfg \<and>
    (\<forall>items. limitReached cfg items \<longleftrightarrow> appLimitReached app items)"
  using router_args_config [OF assms(2,3) validated_caller_auth [OF assms(1)] assms(4), of getenv] assms(5)
  by (auto simp: limitReached_def appLimitReached_def appConfig_def Let_def)

theorem limit_readings_agree_witness:
  "\<exists>cfg. parseRouterFlags tokenFiles (\<lambda>_. ''app-router-0'') (tl (routerArgs tokenApp)) = Inr cfg \<and>
     (\<forall>items. limitReached cfg items \<longleftrightarrow> appLimitReached tokenApp items)"
proof (rule limit_readings_agree)
  show "ValidateApp tokenApp = Inr [EmptyWorkspaceEgress]"
    by (simp add: ValidateApp_def tokenApp_def sample_defs nestedMountWarnings_def OperatorServiceAccountName_def)
  show "typedSpec tokenApp" "admissibleSpec tokenApp" "0 < MaxWorkspaces (spLimits (appSpec tokenApp))"
    by (simp_all add: typedSpec_def admissibleSpec_def tokenApp_def sample_defs in_int32_def in_int64_def second_def HasPrefix_def)
  show "credentialsAt tokenFiles tokenApp (''s3cret'' @ [CHR 0x0A]) ''up''"
    by (simp add: credentialsAt_def tokenFiles_def callerAuthMountPath_def upstreamAuthMountPath_def secretItemPath_def)
qed

end
